(* ===== verification/Segmenter.thy ===== *)
theory Segmenter
  imports Cdm_Prelude
begin

text \<open>
  \<open>src/engine/segmenter.c\<close>: splitting a file into byte ranges, one per worker, and the
  choice of the number of workers.
\<close>

record range =
  r_start :: u64
  r_end :: u64            \<comment> \<open>inclusive\<close>
  resume_offset :: u64
  whole_file :: bool

definition MAX_WORKERS :: nat where
  "MAX_WORKERS = 8"

text \<open>The body of the loop: the range of worker \<open>i\<close> out of \<open>n\<close>.\<close>

definition plan_range :: "u64 \<Rightarrow> u64 \<Rightarrow> nat \<Rightarrow> nat \<Rightarrow> range" where
  "plan_range total_size chunk n i =
     \<lparr>r_start = of_nat i * chunk,
      r_end = (if i = n - 1 then total_size - 1 else of_nat (i + 1) * chunk - 1),
      resume_offset = 0, whole_file = False\<rparr>"

text \<open>
  \<open>segmenter_plan\<close>: the output array is the list returned, its length the C return value.
  \<open>n_workers\<close> is a C \<open>int\<close>; the cast \<open>(int)total_size\<close> happens only when
  \<open>total_size\<close> is below \<open>n_workers\<close>.
\<close>

definition segmenter_plan :: "u64 \<Rightarrow> int \<Rightarrow> range list" where
  "segmenter_plan total_size n_workers =
     (if total_size = 0 \<or> n_workers \<le> 0 then []
      else let n = (if nat n_workers > unat total_size then unat total_size else nat n_workers);
               chunk = total_size div of_nat n
           in map (plan_range total_size chunk n) [0..<n])"

definition choose_worker_count :: "u64 \<Rightarrow> int" where
  "choose_worker_count total_size =
     (let ONE_MB = 1024 * 1024 :: u64
      in if total_size = 0 then 1
         else if total_size < ONE_MB then 1
         else if total_size < 20 * ONE_MB then 4
         else 8)"

section \<open>A plan covers the file\<close>

text \<open>
  What a list of inclusive ranges must satisfy to tile the byte interval \<open>[a, b)\<close>: each
  starts where the previous one ended and holds at least one byte.
\<close>

fun tiles :: "nat \<Rightarrow> range list \<Rightarrow> nat \<Rightarrow> bool" where
  "tiles a [] b \<longleftrightarrow> a = b"
| "tiles a (r # rs) b \<longleftrightarrow>
     unat (r_start r) = a \<and> a \<le> unat (r_end r) \<and> tiles (Suc (unat (r_end r))) rs b"

definition range_bytes :: "range \<Rightarrow> nat set" where
  "range_bytes r = {unat (r_start r)..unat (r_end r)}"

lemma tiles_le: "tiles a rs b \<Longrightarrow> a \<le> b"
  by (induction rs arbitrary: a) force+

lemma tiles_append: "tiles a (rs @ qs) b \<longleftrightarrow> (\<exists>m. tiles a rs m \<and> tiles m qs b)"
  by (induction rs arbitrary: a) auto

lemma tiles_UN: "tiles a rs b \<Longrightarrow> (\<Union>r\<in>set rs. range_bytes r) = {a..<b}"
proof (induction rs arbitrary: a)
  case Nil
  then show ?case by simp
next
  case (Cons r rs)
  let ?m = "Suc (unat (r_end r))"
  from Cons.prems have r: "unat (r_start r) = a" "a < ?m" and rest: "tiles ?m rs b" by auto
  have "range_bytes r = {a..<?m}" using r by (auto simp: range_bytes_def)
  moreover have "(\<Union>q\<in>set rs. range_bytes q) = {?m..<b}" using rest by (rule Cons.IH)
  moreover have "{a..<?m} \<union> {?m..<b} = {a..<b}"
    using r(2) tiles_le [OF rest] by (auto simp: ivl_disj_un)
  ultimately show ?case by simp
qed

lemma tiles_disjoint:
  "tiles a rs b \<Longrightarrow> i < j \<Longrightarrow> j < length rs \<Longrightarrow> range_bytes (rs ! i) \<inter> range_bytes (rs ! j) = {}"
proof (induction rs arbitrary: a i j)
  case Nil
  then show ?case by simp
next
  case (Cons r rs)
  let ?m = "Suc (unat (r_end r))"
  from Cons.prems obtain j' where j: "j = Suc j'" "j' < length rs" by (cases j) auto
  from Cons.prems have rest: "tiles ?m rs b" by simp
  show ?case
  proof (cases i)
    case 0
    have "range_bytes (rs ! j') \<subseteq> {?m..<b}"
      using tiles_UN [OF rest] j(2) by (auto dest: nth_mem)
    moreover have "range_bytes r \<inter> {?m..<b} = {}" by (auto simp: range_bytes_def)
    ultimately show ?thesis using 0 j by auto
  next
    case (Suc i')
    with Cons.prems j have "i' < j'" by simp
    from Cons.IH [OF rest this j(2)] show ?thesis using Suc j by simp
  qed
qed

text \<open>Arithmetic of the loop body: nothing wraps, since every bound is at most the file size.\<close>

lemma unat_of_nat_mult_chunk:
  fixes chunk :: u64
  assumes "k * unat chunk \<le> unat (total_size :: u64)"
  shows "unat (of_nat k * chunk) = k * unat chunk"
proof (cases "unat chunk = 0")
  case True
  then show ?thesis by (simp add: unat_eq_0)
next
  case False
  then have "k \<le> k * unat chunk" by simp
  then have "k \<le> unat total_size" using assms by (rule le_trans)
  then have "k < 2 ^ 64" using unat_lt2p [of total_size] by simp
  then have k: "unat (of_nat k :: u64) = k" by (simp add: unat_of_nat)
  have "k * unat chunk < 2 ^ 64" using assms unat_lt2p [of total_size] by simp
  then show ?thesis using k by (simp add: unat_word_ariths)
qed

lemma plan_tiles_prefix:
  assumes n: "0 < n" "n \<le> unat total_size" and c: "chunk = total_size div of_nat n"
    and i: "i < n"
  shows "tiles 0 (map (plan_range total_size chunk n) [0..<i]) (i * unat chunk)"
proof -
  have nw: "unat (of_nat n :: u64) = n"
    using n(2) unat_lt2p [of total_size] by (simp add: unat_of_nat)
  then have uc: "unat chunk = unat total_size div n" by (simp add: c unat_div)
  have pos: "0 < unat chunk" using n uc by (simp add: div_greater_zero_iff)
  have le: "k \<le> n \<Longrightarrow> k * unat chunk \<le> unat total_size" for k
    using uc by (metis div_times_less_eq_dividend le_trans mult.commute mult_le_mono2)
  show ?thesis using i
  proof (induction i)
    case 0
    then show ?case by simp
  next
    case (Suc i)
    let ?r = "plan_range total_size chunk n i"
    have s: "unat (r_start ?r) = i * unat chunk"
      using Suc.prems le [of i] by (simp add: plan_range_def unat_of_nat_mult_chunk)
    have e: "unat (of_nat (i + 1) * chunk) = Suc i * unat chunk"
      using Suc.prems le [of "Suc i"] unat_of_nat_mult_chunk [of "Suc i" chunk total_size] by simp
    then have "unat (of_nat (i + 1) * chunk - 1) = Suc i * unat chunk - 1"
      using pos by (subst unat_diff_le) (auto simp: word_le_nat_alt)
    moreover have "i \<noteq> n - 1" using Suc.prems by simp
    ultimately have "unat (r_end ?r) = Suc i * unat chunk - 1"
      by (simp add: plan_range_def)
    then show ?case using Suc s pos by (auto simp: tiles_append)
  qed
qed

lemma plan_tiles:
  assumes n: "0 < n" "n \<le> unat total_size" and c: "chunk = total_size div of_nat n"
  shows "tiles 0 (map (plan_range total_size chunk n) [0..<n]) (unat total_size)"
proof -
  obtain m where m: "n = Suc m" using n by (cases n) auto
  let ?r = "plan_range total_size chunk n m"
  have nw: "unat (of_nat n :: u64) = n"
    using n(2) unat_lt2p [of total_size] by (simp add: unat_of_nat)
  then have uc: "unat chunk = unat total_size div n" by (simp add: c unat_div)
  have pos: "0 < unat chunk" using n uc by (simp add: div_greater_zero_iff)
  have lt: "Suc m * unat chunk \<le> unat total_size"
    using uc m by (metis div_times_less_eq_dividend mult.commute)
  have s: "unat (r_start ?r) = m * unat chunk"
    using lt by (simp add: plan_range_def unat_of_nat_mult_chunk [of m chunk total_size])
  have "unat (total_size - 1) = unat total_size - 1"
    using n by (subst unat_diff_le) (auto simp: word_le_nat_alt)
  then have e: "unat (r_end ?r) = unat total_size - 1" by (simp add: plan_range_def m)
  have "tiles 0 (map (plan_range total_size chunk n) [0..<m]) (m * unat chunk)"
    using plan_tiles_prefix [OF n c] m by simp
  moreover have "tiles (m * unat chunk) [?r] (unat total_size)" using s e lt pos n by simp
  ultimately show ?thesis unfolding m by (auto simp: tiles_append)
qed

lemma choose_worker_count_range: "choose_worker_count t \<in> {1, 4, 8}"
  by (simp add: choose_worker_count_def Let_def)

lemma segmenter_plan_tiles:
  assumes "total_size \<noteq> 0" and "0 < n_workers"
  shows "tiles 0 (segmenter_plan total_size n_workers) (unat total_size)"
proof -
  have "0 < unat total_size" using assms(1) by (simp add: unat_gt_0)
  then show ?thesis
    using assms by (auto simp: segmenter_plan_def Let_def intro!: plan_tiles)
qed

lemma length_segmenter_plan:
  "length (segmenter_plan total_size n_workers) =
     (if n_workers \<le> 0 then 0 else min (nat n_workers) (unat total_size))"
  by (simp add: segmenter_plan_def Let_def min_def)

lemma tiles_starts:
  "tiles a rs b \<Longrightarrow> sorted (map (\<lambda>r. unat (r_start r)) rs) \<and>
     (\<forall>r\<in>set rs. a \<le> unat (r_start r) \<and> unat (r_start r) \<le> unat (r_end r) \<and> unat (r_end r) < b)"
proof (induction rs arbitrary: a)
  case Nil
  then show ?case by simp
next
  case (Cons r rs)
  let ?m = "Suc (unat (r_end r))"
  from Cons.prems have r: "unat (r_start r) = a" "a < ?m" and rest: "tiles ?m rs b" by auto
  from Cons.IH [OF rest] r tiles_le [OF rest] show ?case by fastforce
qed

section \<open>Properties\<close>

text \<open>
  C4: For every file size the server can report, the plan for the chosen number of workers covers
  each byte of the file exactly once: the ranges are disjoint, their union is the whole file, and
  there are between one and \<open>MAX_WORKERS\<close> of them.
\<close>

theorem plan_partitions_file:
  assumes "total_size \<noteq> 0"
  shows "(\<Union>r\<in>set (segmenter_plan total_size (choose_worker_count total_size)). range_bytes r)
           = {0..<unat total_size} \<and>
         (\<forall>j<length (segmenter_plan total_size (choose_worker_count total_size)). \<forall>i<j.
            range_bytes (segmenter_plan total_size (choose_worker_count total_size) ! i) \<inter>
            range_bytes (segmenter_plan total_size (choose_worker_count total_size) ! j) = {}) \<and>
         1 \<le> length (segmenter_plan total_size (choose_worker_count total_size)) \<and>
         length (segmenter_plan total_size (choose_worker_count total_size)) \<le> MAX_WORKERS"
proof -
  let ?n = "choose_worker_count total_size"
  have n: "0 < ?n" "nat ?n \<le> 8" using choose_worker_count_range [of total_size] by auto
  have t: "tiles 0 (segmenter_plan total_size ?n) (unat total_size)"
    using assms n(1) by (rule segmenter_plan_tiles)
  have "0 < unat total_size" using assms by (simp add: unat_gt_0)
  then show ?thesis
    using tiles_UN [OF t] tiles_disjoint [OF t] n
    by (auto simp: length_segmenter_plan MAX_WORKERS_def)
qed

theorem plan_partitions_file_witness:
  "(\<Union>r\<in>set (segmenter_plan 5000003 (choose_worker_count 5000003)). range_bytes r) = {0..<5000003}"
  using plan_partitions_file [of 5000003] by simp

end
