(* ===== verification/Os_Model.thy ===== *)
theory Os_Model
  imports Complex_Main Cdm_Prelude
begin

text \<open>
  What cdm sees of the operating system. The file system is a finite map from path names to
  inodes; a \<open>kernel\<close> record holds what the code cannot control: whether a system call fails
  (and with which \<open>errno\<close>), what \<open>realpath\<close> and \<open>getenv\<close> answer, the size \<open>stat\<close>
  reports for something that is not a regular file, and whether an allocation succeeds. The
  libc functions \<open>dirname\<close> and \<open>basename\<close>, which work on the string alone, are defined
  here as glibc implements them, together with their in-place modification of the argument.
\<close>

datatype errno = ENOENT | EEXIST | EACCES | ENOSPC | EIO | ELOOP | EINTR | EAGAIN | EINVAL
  | ECONNREFUSED | ENOTDIR

datatype syscall = SysOpen | SysLseek | SysWrite | SysMkdir | SysFstat | SysFtruncate
  | SysStat | SysLstat | SysAccess | SysUnlink | SysRead

datatype inode = Regular "u8 list" | Nonregular

type_synonym fs = "string \<Rightarrow> inode option"

record kernel =
  k_fault :: "syscall \<Rightarrow> string \<Rightarrow> errno option"
  k_other_size :: "string \<Rightarrow> u64"
  k_realpath :: "string \<Rightarrow> errno + string"
  k_getenv :: "string \<Rightarrow> string option"
  k_alloc :: "string \<Rightarrow> bool"

text \<open>A kernel on which nothing fails, with every path resolving to itself.\<close>

definition good_kernel :: kernel where
  "good_kernel = \<lparr>k_fault = (\<lambda>_ _. None), k_other_size = (\<lambda>_. 4096),
     k_realpath = Inr, k_getenv = (\<lambda>_. None), k_alloc = (\<lambda>_. True)\<rparr>"

lemma good_kernel_simps [simp]:
  "k_fault good_kernel c p = None"
  "k_other_size good_kernel p = 4096"
  "k_realpath good_kernel p = Inr p"
  "k_getenv good_kernel v = None"
  "k_alloc good_kernel site"
  by (simp_all add: good_kernel_def)

section \<open>System calls\<close>

definition sys_unlink :: "kernel \<Rightarrow> string \<Rightarrow> fs \<Rightarrow> fs" where
  "sys_unlink K p fs = (if k_fault K SysUnlink p = None then fs(p := None) else fs)"

definition sys_mkdir :: "kernel \<Rightarrow> string \<Rightarrow> fs \<Rightarrow> errno option \<times> fs" where
  "sys_mkdir K p fs =
     (case k_fault K SysMkdir p of
        Some e \<Rightarrow> (Some e, fs)
      | None \<Rightarrow> if fs p \<noteq> None then (Some EEXIST, fs) else (None, fs(p \<mapsto> Nonregular)))"

text \<open>\<open>access(p, F_OK)\<close>: \<open>None\<close> is success.\<close>

definition sys_access :: "kernel \<Rightarrow> string \<Rightarrow> fs \<Rightarrow> errno option" where
  "sys_access K p fs =
     (case k_fault K SysAccess p of
        Some e \<Rightarrow> Some e
      | None \<Rightarrow> if fs p = None then Some ENOENT else None)"

lemma sys_unlink_other [simp]: "q \<noteq> p \<Longrightarrow> sys_unlink K p fs q = fs q"
  by (simp add: sys_unlink_def)

section \<open>dirname and basename\<close>

definition strip_slashes :: "string \<Rightarrow> string" where
  "strip_slashes s = rev (dropWhile (\<lambda>c. c = CHR ''/'') (rev s))"

text \<open>Only slashes are left in front: glibc answers \<open>//\<close> for exactly two, else \<open>/\<close>.\<close>

definition root_name :: "string \<Rightarrow> string" where
  "root_name s = (if s = ''//'' then ''//'' else ''/'')"

definition dirname_of :: "string \<Rightarrow> string" where
  "dirname_of s =
     (let t = strip_slashes s
      in if CHR ''/'' \<notin> set s then ''.''
         else if t = [] then root_name s
         else (case strrchr (CHR ''/'') t of
                 None \<Rightarrow> ''.''
               | Some i \<Rightarrow> let u = strip_slashes (take i t)
                          in if u = [] then root_name (take (Suc i) t) else u))"

text \<open>
  \<open>dirname(buf)\<close> as the code uses it: the argument buffer after the call and the string the
  returned pointer reads. When the name has a directory part (or is all slashes), glibc cuts the
  buffer in place and returns the buffer itself; otherwise it leaves the buffer alone and returns
  the constant string \<open>.\<close>.
\<close>

definition dirname_inplace :: "string \<Rightarrow> string \<times> string" where
  "dirname_inplace buf =
     (let t = strip_slashes buf
      in if CHR ''/'' \<notin> set t \<and> (t \<noteq> [] \<or> buf = []) then (buf, ''.'')
         else (dirname_of buf, dirname_of buf))"

definition basename_of_path :: "string \<Rightarrow> string" where
  "basename_of_path s =
     (let t = strip_slashes s
      in if s = [] then ''.''
         else if t = [] then ''/''
         else (case strrchr (CHR ''/'') t of None \<Rightarrow> t | Some i \<Rightarrow> drop (Suc i) t))"

lemma dirname_inplace_cases:
  "dirname_inplace buf = (b, p) \<Longrightarrow> p = b \<or> p = ''.''"
  by (auto simp: dirname_inplace_def Let_def split: if_splits)

lemma basename_no_slash: "basename_of_path s = b \<Longrightarrow> CHR ''/'' \<in> set b \<Longrightarrow> b = ''/''"
  by (auto simp: basename_of_path_def Let_def split: if_splits option.splits
      dest: strrchr_SomeD)

end
