(* ===== verification/File_Io.thy ===== *)
theory File_Io
  imports Os_Model
begin

text \<open>
  \<open>src/platform/file_io.c\<close> (the POSIX half): creating, preallocating, resizing and writing the
  destination file. Results are the C return codes; the file system is threaded through.
\<close>

text \<open>\<open>(off_t)x\<close> is negative, and the call fails with EINVAL, from \<open>2^63\<close> on.\<close>

definition bad_offset :: "u64 \<Rightarrow> bool" where
  "bad_offset x \<longleftrightarrow> 2 ^ 63 \<le> unat x"

text \<open>The loop of \<open>file_ensure_directory\<close> over the positions of the slashes of \<open>temp\<close>.\<close>

fun mkdir_prefixes :: "kernel \<Rightarrow> string \<Rightarrow> nat list \<Rightarrow> fs \<Rightarrow> bool \<times> fs" where
  "mkdir_prefixes K temp [] fs = (True, fs)"
| "mkdir_prefixes K temp (i # is) fs =
     (if temp ! i = CHR ''/''
      then (case sys_mkdir K (take i temp) fs of
              (Some e, fs') \<Rightarrow> if e \<noteq> EEXIST then (False, fs') else mkdir_prefixes K temp is fs'
            | (None, fs') \<Rightarrow> mkdir_prefixes K temp is fs')
      else mkdir_prefixes K temp is fs)"

definition file_ensure_directory :: "kernel \<Rightarrow> string \<Rightarrow> fs \<Rightarrow> int \<times> fs" where
  "file_ensure_directory K path fs =
     (if path = [] then (-1, fs)
      else let temp = strncpy_buf 1024 path
           in case mkdir_prefixes K temp [1..<length temp] fs of
                (False, fs') \<Rightarrow> (-1, fs')
              | (True, fs') \<Rightarrow>
                  (case sys_mkdir K temp fs' of
                     (Some e, fs'') \<Rightarrow> (if e \<noteq> EEXIST then -1 else 0, fs'')
                   | (None, fs'') \<Rightarrow> (0, fs'')))"

definition ensure_parent_dirs_exist :: "kernel \<Rightarrow> string \<Rightarrow> fs \<Rightarrow> fs" where
  "ensure_parent_dirs_exist K path fs =
     (let dir = dirname_of (strncpy_buf 1024 path)
      in if dir \<noteq> ''.'' \<and> dir \<noteq> ''/'' then snd (file_ensure_directory K dir fs) else fs)"

definition file_preallocate :: "kernel \<Rightarrow> string \<Rightarrow> u64 \<Rightarrow> fs \<Rightarrow> int \<times> fs" where
  "file_preallocate K path total_size fs0 =
     (let fs = ensure_parent_dirs_exist K path fs0
      in case k_fault K SysOpen path of
           Some e \<Rightarrow> (if e = EEXIST then -2 else -1, fs)
         | None \<Rightarrow>
             if fs path \<noteq> None then (-2, fs)
             else let fs1 = fs(path \<mapsto> Regular [])
                  in if total_size = 0 then (0, fs1)
                     else if k_fault K SysLseek path \<noteq> None \<or> bad_offset (total_size - 1)
                       then (-1, fs1)
                     else if k_fault K SysWrite path \<noteq> None then (-1, fs1)
                     else (0, fs1(path \<mapsto> Regular (replicate (unat total_size) 0))))"

definition file_preallocate_reserved :: "kernel \<Rightarrow> string \<Rightarrow> u64 \<Rightarrow> fs \<Rightarrow> int \<times> fs" where
  "file_preallocate_reserved K path total_size fs =
     (if k_fault K SysOpen path \<noteq> None then (-1, fs)
      else case fs path of
             Some (Regular c) \<Rightarrow>
               if k_fault K SysFstat path = None \<and> c = [] \<and>
                  k_fault K SysFtruncate path = None \<and> \<not> bad_offset total_size
               then (0, fs(path \<mapsto> Regular (replicate (unat total_size) 0)))
               else (-1, fs)
           | _ \<Rightarrow> (-1, fs))"

text \<open>\<open>file_open_rw\<close>: the handle of a regular file is its path; \<open>None\<close> is \<open>INVALID_FILE_HANDLE\<close>.\<close>

definition file_open_rw :: "kernel \<Rightarrow> string \<Rightarrow> fs \<Rightarrow> string option" where
  "file_open_rw K path fs =
     (if k_fault K SysOpen path \<noteq> None then None
      else case fs path of
             Some (Regular _) \<Rightarrow> if k_fault K SysFstat path \<noteq> None then None else Some path
           | _ \<Rightarrow> None)"

text \<open>Bytes \<open>bs\<close> stored at offset \<open>off\<close>; a gap before them reads as zeros.\<close>

definition write_at :: "u8 list \<Rightarrow> nat \<Rightarrow> u8 list \<Rightarrow> u8 list" where
  "write_at c off bs =
     (if bs = [] then c
      else take off (c @ replicate (off - length c) 0) @ bs @ drop (off + length bs) c)"

text \<open>What \<open>pwrite\<close> did: an error, or the number of bytes it wrote.\<close>

datatype pwrite_outcome = PwError errno | PwWritten nat

definition file_pwrite ::
  "pwrite_outcome \<Rightarrow> string \<Rightarrow> u8 list \<Rightarrow> u64 \<Rightarrow> fs \<Rightarrow> int \<times> fs" where
  "file_pwrite out fd buf offset fs =
     (case (out, fs fd) of
        (PwWritten k, Some (Regular c)) \<Rightarrow>
          if bad_offset offset then (-1, fs)
          else let w = min k (length buf)
               in (if w = length buf then 0 else -1,
                   fs(fd \<mapsto> Regular (write_at c (unat offset) (take w buf))))
      | _ \<Rightarrow> (-1, fs))"

definition file_get_size :: "kernel \<Rightarrow> string \<Rightarrow> fs \<Rightarrow> u64" where
  "file_get_size K path fs =
     (if k_fault K SysStat path \<noteq> None then 0
      else case fs path of
             None \<Rightarrow> 0
           | Some (Regular c) \<Rightarrow> of_nat (length c)
           | Some Nonregular \<Rightarrow> k_other_size K path)"

section \<open>Directories\<close>

text \<open>Creating directories never removes or changes what is already there.\<close>

lemma sys_mkdir_keeps:
  assumes "sys_mkdir K p fs = (r, fs')" and "fs q = Some n"
  shows "fs' q = Some n"
  using assms by (auto simp: sys_mkdir_def split: option.splits if_splits)

lemma sys_mkdir_new_dirs:
  assumes "sys_mkdir K p fs = (r, fs')" and "fs' q \<noteq> fs q"
  shows "fs' q = Some Nonregular"
  using assms by (auto simp: sys_mkdir_def split: option.splits if_splits)

lemma mkdir_prefixes_keeps:
  "mkdir_prefixes K temp is fs = (r, fs') \<Longrightarrow> fs q = Some n \<Longrightarrow> fs' q = Some n"
proof (induction "is" arbitrary: fs)
  case Nil
  then show ?case by simp
next
  case (Cons i "is")
  then show ?case
    by (auto split: if_splits prod.splits option.splits dest: sys_mkdir_keeps)
qed

lemma mkdir_prefixes_new_dirs:
  "mkdir_prefixes K temp is fs = (r, fs') \<Longrightarrow> fs' q = fs q \<or> fs' q = Some Nonregular"
proof (induction "is" arbitrary: fs)
  case Nil
  then show ?case by simp
next
  case (Cons i "is")
  obtain r1 fs1 where m: "sys_mkdir K (take i temp) fs = (r1, fs1)" by fastforce
  then have *: "fs1 q = fs q \<or> fs1 q = Some Nonregular" using sys_mkdir_new_dirs by blast
  consider "mkdir_prefixes K temp is fs = (r, fs')" | "fs' = fs1"
    | "mkdir_prefixes K temp is fs1 = (r, fs')"
    using Cons.prems m by (auto split: if_splits option.splits)
  then show ?case
  proof cases
    case 1
    then show ?thesis by (rule Cons.IH)
  next
    case 2
    with * show ?thesis by simp
  next
    case 3
    from Cons.IH [OF this] * show ?thesis by auto
  qed
qed

lemma file_ensure_directory_frame:
  assumes "file_ensure_directory K path fs = (r, fs')"
  shows "fs' q = fs q \<or> (fs q = None \<and> fs' q = Some Nonregular)"
proof (cases "path = []")
  case True
  with assms show ?thesis by (simp add: file_ensure_directory_def)
next
  case False
  let ?t = "strncpy_buf 1024 path"
  obtain ok fs1 where m: "mkdir_prefixes K ?t [1..<length ?t] fs = (ok, fs1)" by fastforce
  obtain e fs2 where d: "sys_mkdir K ?t fs1 = (e, fs2)" by fastforce
  have 1: "fs1 q = fs q \<or> (fs q = None \<and> fs1 q = Some Nonregular)"
    using mkdir_prefixes_new_dirs [OF m, of q] mkdir_prefixes_keeps [OF m, of q]
    by (cases "fs q") auto
  have 2: "fs2 q = fs1 q \<or> (fs1 q = None \<and> fs2 q = Some Nonregular)"
    using sys_mkdir_keeps [OF d, of q] sys_mkdir_new_dirs [OF d, of q]
    by (cases "fs1 q"; cases "fs2 q = fs1 q") simp_all
  have "fs' = fs1 \<or> fs' = fs2"
    using assms False m d by (auto simp: file_ensure_directory_def split: bool.splits option.splits)
  with 1 2 show ?thesis by auto
qed

lemma ensure_parent_dirs_frame:
  "ensure_parent_dirs_exist K path fs q = fs q \<or>
   (fs q = None \<and> ensure_parent_dirs_exist K path fs q = Some Nonregular)"
proof -
  let ?d = "dirname_of (strncpy_buf 1024 path)"
  obtain r fs' where "file_ensure_directory K ?d fs = (r, fs')" by fastforce
  then show ?thesis
    using file_ensure_directory_frame [of K ?d fs r fs' q]
    by (simp add: ensure_parent_dirs_exist_def Let_def)
qed

section \<open>Preallocation\<close>

text \<open>Success means a fresh file of exactly the requested size, all zero.\<close>

lemma file_preallocate_ok:
  assumes "file_preallocate K path n fs = (0, fs')"
  shows "fs' path = Some (Regular (replicate (unat n) 0))" and "fs path = None"
  using assms ensure_parent_dirs_frame [of K path fs path]
  by (auto simp: file_preallocate_def Let_def split: option.splits if_splits)

text \<open>A file that is already there is never touched, whatever the result.\<close>

lemma file_preallocate_preserves:
  assumes "file_preallocate K path n fs = (r, fs')" and "fs q = Some i"
  shows "fs' q = Some i"
  using assms ensure_parent_dirs_frame [of K path fs q]
  by (auto simp: file_preallocate_def Let_def split: option.splits if_splits)

lemma file_preallocate_codes: "fst (file_preallocate K path n fs) \<in> {0, -1, -2}"
  by (auto simp: file_preallocate_def Let_def split: option.splits)

lemma file_preallocate_exists:
  assumes "fs path \<noteq> None" and "k_fault K SysOpen path = None"
  shows "fst (file_preallocate K path n fs) = -2"
  using assms ensure_parent_dirs_frame [of K path fs path]
  by (auto simp: file_preallocate_def Let_def)

lemma file_preallocate_reserved_ok:
  assumes "file_preallocate_reserved K path n fs = (0, fs')"
  shows "fs path = Some (Regular [])" and "fs' = fs(path \<mapsto> Regular (replicate (unat n) 0))"
  using assms by (auto simp: file_preallocate_reserved_def split: option.splits inode.splits if_splits)

section \<open>Positional writes\<close>

lemma length_write_at:
  "length (write_at c off bs) = (if bs = [] then length c else max (length c) (off + length bs))"
  by (auto simp: write_at_def)

lemma nth_write_at:
  assumes "i < length (write_at c off bs)"
  shows "write_at c off bs ! i =
     (if off \<le> i \<and> i < off + length bs then bs ! (i - off)
      else if i < length c then c ! i else 0)"
proof (cases "bs = []")
  case True
  then show ?thesis using assms by (auto simp: write_at_def)
next
  case False
  define pre where "pre = take off (c @ replicate (off - length c) 0)"
  have l: "length pre = off" by (simp add: pre_def)
  have pre_nth: "i < off \<Longrightarrow> pre ! i = (if i < length c then c ! i else 0)"
    by (simp add: pre_def nth_append)
  have w: "write_at c off bs = pre @ bs @ drop (off + length bs) c"
    using False by (simp add: write_at_def pre_def)
  have tl: "off + length bs \<le> i \<Longrightarrow> i < length c"
    using assms False by (simp add: length_write_at max_def split: if_splits)
  show ?thesis unfolding w using pre_nth tl by (auto simp: l nth_append)
qed

text \<open>Writes to disjoint intervals commute and do not disturb each other.\<close>

lemma write_at_disjoint_nth:
  assumes "i < length c" and "i < off \<or> off + length bs \<le> i"
  shows "write_at c off bs ! i = c ! i"
  using assms by (subst nth_write_at) (auto simp: length_write_at)

lemma write_at_within: "off + length bs \<le> length c \<Longrightarrow> length (write_at c off bs) = length c"
  by (simp add: length_write_at)

section \<open>Properties\<close>

text \<open>
  Preallocating a destination never changes anything that already exists; it succeeds only for a
  path that did not exist, which then holds exactly \<open>total_size\<close> zero bytes; and for a path that
  exists it reports \<open>-2\<close> when the file system can be searched.
\<close>

lemma preallocate_exclusive:
  assumes "file_preallocate K path total_size fs = (r, fs')"
  shows "(\<forall>q i. fs q = Some i \<longrightarrow> fs' q = Some i) \<and>
    (r = 0 \<longrightarrow> fs path = None \<and> fs' path = Some (Regular (replicate (unat total_size) 0))) \<and>
    (fs path \<noteq> None \<and> k_fault K SysOpen path = None \<longrightarrow> r = -2)"
  using file_preallocate_preserves [OF assms] file_preallocate_ok [of K path total_size fs fs']
    file_preallocate_exists [of fs path K total_size] assms by auto

text \<open>
  A complete positional write stores the buffer at its offset and leaves every other byte of the
  file as it was; a gap up to the offset reads as zeros, and the file never shrinks.
\<close>

lemma pwrite_exact:
  assumes "file_pwrite (PwWritten (length buf)) fd buf offset fs = (0, fs')" and "fs fd = Some (Regular c)"
  shows "\<exists>c'. fs' = fs(fd \<mapsto> Regular c') \<and>
    length c' = (if buf = [] then length c else max (length c) (unat offset + length buf)) \<and>
    (\<forall>i<length c'. c' ! i = (if unat offset \<le> i \<and> i < unat offset + length buf then buf ! (i - unat offset)
                             else if i < length c then c ! i else 0))"
proof -
  have "fs' = fs(fd \<mapsto> Regular (write_at c (unat offset) buf))"
    using assms by (auto simp: file_pwrite_def Let_def split: if_splits)
  then show ?thesis
    using nth_write_at [of _ c "unat offset" buf] length_write_at [of c "unat offset" buf] by blast
qed

end
