(* ===== verification/Path_Utils.thy ===== *)
theory Path_Utils
  imports File_Io
begin

text \<open>
  \<open>src/utils/path.c\<close>: the filename taken from a URL, joining a directory and a filename, and
  the search for an unused destination name.
\<close>

definition path_filename_from_url :: "string \<Rightarrow> nat \<Rightarrow> string" where
  "path_filename_from_url url out_size =
     (let name = (case strrchr (CHR ''/'') url of None \<Rightarrow> url | Some i \<Rightarrow> drop (Suc i) url);
          temp = strncpy_buf 512 name;
          cut = (case strchr (CHR ''?'') temp of None \<Rightarrow> temp | Some i \<Rightarrow> take i temp);
          temp' = (if cut = [] then ''download.bin'' else cut)
      in strncpy_buf out_size temp')"

text \<open>\<open>path_join\<close>: \<open>None\<close> when the result does not fit in \<open>out_size\<close> bytes.\<close>

definition path_join :: "string \<Rightarrow> string \<Rightarrow> nat \<Rightarrow> string option" where
  "path_join dir filename out_size =
     (let has_separator = (dir \<noteq> [] \<and> last dir = CHR ''/'');
          required = length dir + length filename + (if has_separator then 1 else 2)
      in if required > out_size then None
         else Some (dir @ (if has_separator then [] else ''/'') @ filename))"

text \<open>\<open>lstat(path) == 0 || errno != ENOENT\<close>.\<close>

definition path_exists :: "kernel \<Rightarrow> fs \<Rightarrow> string \<Rightarrow> bool" where
  "path_exists K fs path \<longleftrightarrow>
     (case k_fault K SysLstat path of Some e \<Rightarrow> e \<noteq> ENOENT | None \<Rightarrow> fs path \<noteq> None)"

text \<open>
  The position where \<open>(n)\<close> is inserted into a filename: at the last dot, or the end when
  there is none or it comes first; one component earlier for \<open>.tar.gz\<close> and its kin.
\<close>

definition ext_index :: "string \<Rightarrow> nat" where
  "ext_index filename =
     (let e = (case strrchr (CHR ''.'') filename of
                 None \<Rightarrow> length filename
               | Some i \<Rightarrow> if i = 0 then length filename else i)
      in if e > 0 \<and> drop e filename \<in> {''.gz'', ''.bz2'', ''.xz'', ''.zst''}
         then (case strrchr (CHR ''.'') (take e filename) of
                 None \<Rightarrow> e
               | Some j \<Rightarrow> if drop (Suc j) (take e filename) = ''tar'' then j else e)
         else e)"

definition split_name :: "string \<Rightarrow> string \<times> string \<times> string" where
  "split_name path =
     (let k = (case strrchr (CHR ''/'') path of None \<Rightarrow> 0 | Some i \<Rightarrow> Suc i);
          filename = drop k path;
          e = ext_index filename
      in (take k path, take e filename, drop e filename))"

definition numbered :: "string \<Rightarrow> nat \<Rightarrow> string" where
  "numbered path n =
     (case split_name path of (prefix, stem, ext) \<Rightarrow> prefix @ stem @ ''('' @ dec n @ '')'' @ ext)"

text \<open>The \<open>for\<close> loop with \<open>k\<close> values of \<open>suffix\<close> left to try.\<close>

fun unique_loop :: "kernel \<Rightarrow> fs \<Rightarrow> string \<Rightarrow> nat \<Rightarrow> nat \<Rightarrow> nat \<Rightarrow> string option" where
  "unique_loop K fs path out_size 0 suffix = None"
| "unique_loop K fs path out_size (Suc k) suffix =
     (let cand = numbered path suffix
      in if length cand \<ge> out_size then None
         else if \<not> path_exists K fs cand then Some cand
         else unique_loop K fs path out_size k (Suc suffix))"

definition path_make_unique :: "kernel \<Rightarrow> fs \<Rightarrow> string \<Rightarrow> nat \<Rightarrow> string option" where
  "path_make_unique K fs path out_size =
     (if out_size = 0 then None
      else if \<not> path_exists K fs path
      then (if length path \<ge> out_size then None else Some path)
      else unique_loop K fs path out_size 999999 1)"

section \<open>Filenames from URLs\<close>

lemma take_no_char: "strchr c s = Some i \<Longrightarrow> c \<notin> set (take i s)"
  using strchr_SomeD by blast

lemma url_tail_no_slash:
  "CHR ''/'' \<notin> set (case strrchr (CHR ''/'') url of None \<Rightarrow> url | Some i \<Rightarrow> drop (Suc i) url)"
  by (auto split: option.splits dest: strrchr_SomeD)

lemma filename_from_url_safe:
  assumes "1 < n"
  shows "path_filename_from_url url n \<noteq> []"
    and "CHR ''/'' \<notin> set (path_filename_from_url url n)"
    and "CHR ''?'' \<notin> set (path_filename_from_url url n)"
    and "length (path_filename_from_url url n) < n"
proof -
  define name where
    "name = (case strrchr (CHR ''/'') url of None \<Rightarrow> url | Some i \<Rightarrow> drop (Suc i) url)"
  define temp where "temp = strncpy_buf 512 name"
  define cut where "cut = (case strchr (CHR ''?'') temp of None \<Rightarrow> temp | Some i \<Rightarrow> take i temp)"
  define t where "t = (if cut = [] then ''download.bin'' else cut)"
  have eq: "path_filename_from_url url n = strncpy_buf n t"
    unfolding path_filename_from_url_def Let_def name_def temp_def cut_def t_def by (rule refl)
  have q: "CHR ''?'' \<notin> set cut"
    unfolding cut_def by (auto split: option.splits dest: take_no_char)
  have "set cut \<subseteq> set temp"
    unfolding cut_def by (auto split: option.splits dest: in_set_takeD)
  also have "\<dots> \<subseteq> set name" unfolding temp_def by (rule set_strncpy_buf)
  finally have s: "CHR ''/'' \<notin> set cut"
    using url_tail_no_slash [of url] unfolding name_def by blast
  have "t \<noteq> []" by (simp add: t_def)
  then show "path_filename_from_url url n \<noteq> []"
    using assms unfolding eq by (auto simp: strncpy_buf_def)
  show "CHR ''/'' \<notin> set (path_filename_from_url url n)"
    using s set_strncpy_buf [of n t] unfolding eq by (auto simp: t_def split: if_splits)
  show "CHR ''?'' \<notin> set (path_filename_from_url url n)"
    using q set_strncpy_buf [of n t] unfolding eq by (auto simp: t_def split: if_splits)
  show "length (path_filename_from_url url n) < n"
    using assms length_strncpy_buf unfolding eq by simp
qed

section \<open>Joining\<close>

lemma path_join_fits: "path_join dir f n = Some p \<Longrightarrow> length p < n"
  by (auto simp: path_join_def Let_def split: if_splits)

lemma path_join_basename:
  assumes "path_join dir f n = Some p" and "CHR ''/'' \<notin> set f"
  shows "\<exists>i. strrchr (CHR ''/'') p = Some i \<and> drop (Suc i) p = f"
proof (cases "dir \<noteq> [] \<and> last dir = CHR ''/''")
  case True
  then obtain d where dir: "dir = d @ [CHR ''/'']" by (metis append_butlast_last_id)
  have p: "p = d @ CHR ''/'' # f"
    using assms(1) unfolding dir by (simp add: path_join_def Let_def split: if_splits)
  show ?thesis using strrchr_append [OF assms(2), of d] unfolding p by simp
next
  case False
  with assms(1) have p: "p = dir @ CHR ''/'' # f"
    by (auto simp: path_join_def Let_def split: if_splits)
  show ?thesis using strrchr_append [OF assms(2), of dir] unfolding p by simp
qed

section \<open>Unique names\<close>

lemma split_name_append: "split_name path = (a, b, c) \<Longrightarrow> a @ b @ c = path"
  by (auto simp: split_name_def Let_def simp del: drop_drop)

lemma numbered_inj: "numbered path m = numbered path n \<longleftrightarrow> m = n"
  by (auto simp: numbered_def split: prod.splits)

lemma unique_loop_Some:
  "unique_loop K fs path sz k s = Some out \<Longrightarrow>
   \<not> path_exists K fs out \<and> length out < sz \<and>
   (\<exists>m. s \<le> m \<and> m < s + k \<and> out = numbered path m \<and>
        (\<forall>j. s \<le> j \<and> j < m \<longrightarrow> path_exists K fs (numbered path j)))"
proof (induction k arbitrary: s)
  case 0
  then show ?case by simp
next
  case (Suc k)
  let ?c = "numbered path s"
  from Suc.prems have len: "length ?c < sz" by (auto simp: Let_def split: if_splits)
  show ?case
  proof (cases "path_exists K fs ?c")
    case False
    with Suc.prems len have "out = ?c" by (simp add: Let_def)
    with False len show ?thesis by auto
  next
    case True
    with Suc.prems len have "unique_loop K fs path sz k (Suc s) = Some out" by (simp add: Let_def)
    from Suc.IH [OF this] obtain m where m: "\<not> path_exists K fs out" "length out < sz"
      "Suc s \<le> m" "m < Suc s + k" "out = numbered path m"
      "\<forall>j. Suc s \<le> j \<and> j < m \<longrightarrow> path_exists K fs (numbered path j)" by blast
    then have "\<forall>j. s \<le> j \<and> j < m \<longrightarrow> path_exists K fs (numbered path j)"
      using True by (metis Suc_leI le_neq_implies_less)
    with m show ?thesis by (intro conjI exI [of _ m]) auto
  qed
qed

lemma unique_loop_finds:
  assumes "s \<le> m" "m < s + k" "\<not> path_exists K fs (numbered path m)"
    and "\<And>j. s \<le> j \<Longrightarrow> j \<le> m \<Longrightarrow> length (numbered path j) < sz"
  shows "\<exists>out. unique_loop K fs path sz k s = Some out"
  using assms
proof (induction k arbitrary: s)
  case 0
  then show ?case by simp
next
  case (Suc k)
  have len: "length (numbered path s) < sz" using Suc.prems by simp
  show ?case
  proof (cases "path_exists K fs (numbered path s)")
    case False
    with len show ?thesis by (simp add: Let_def)
  next
    case True
    with Suc.prems have "Suc s \<le> m" by (metis Suc_leI le_neq_implies_less)
    with Suc.prems have "\<exists>out. unique_loop K fs path sz k (Suc s) = Some out"
      by (intro Suc.IH) auto
    with True len show ?thesis by (simp add: Let_def)
  qed
qed

lemma path_make_unique_fresh:
  assumes "path_make_unique K fs path sz = Some out"
  shows "\<not> path_exists K fs out" and "length out < sz"
    and "out = path \<or> (\<exists>m\<ge>1. out = numbered path m)"
  using assms by (auto simp: path_make_unique_def split: if_splits dest!: unique_loop_Some)

section \<open>Properties\<close>

text \<open>
  The filename derived from any URL is non-empty, fits the buffer, and holds neither a path
  separator nor a query; joined to a directory, the whole of it is the last path component.
\<close>

lemma url_filename_stays_in_directory:
  assumes "1 < n" and "path_join dir (path_filename_from_url url n) m = Some p"
  shows "path_filename_from_url url n \<noteq> [] \<and> length (path_filename_from_url url n) < n \<and>
    CHR ''?'' \<notin> set (path_filename_from_url url n) \<and> length p < m \<and>
    (\<exists>i. strrchr (CHR ''/'') p = Some i \<and> drop (Suc i) p = path_filename_from_url url n)"
  using filename_from_url_safe [OF assms(1)] path_join_fits [OF assms(2)] path_join_basename [OF assms(2)]
  by blast

text \<open>
  A name returned by \<open>path_make_unique\<close> is not taken, fits the buffer, and is the requested path
  or one of its numbered variants; and a free requested path that fits is returned unchanged.
\<close>

lemma make_unique_fresh:
  assumes "path_make_unique K fs path sz = Some out"
  shows "\<not> path_exists K fs out \<and> length out < sz \<and> (out = path \<or> (\<exists>m\<ge>1. out = numbered path m)) \<and>
    (\<not> path_exists K fs path \<longrightarrow> out = path)"
  using path_make_unique_fresh [OF assms] assms by (auto simp: path_make_unique_def split: if_splits)

end
