(* ===== verification/Worker_Pool.thy ===== *)
theory Worker_Pool
  imports File_Io Segmenter
begin

text \<open>
  \<open>src/engine/worker_pool.c\<close>: the worker threads of one download and the pool through which idle
  workers steal the tail of a busy worker's range. libcurl is a parameter: a transfer is the
  sequence of buffers it hands to the write callback, the result code and the HTTP status. The
  theory holds the pool, the write callback, one request, the thread loop and the run of all
  workers; it shows that stealing keeps the ranges a partition of the file, that a worker never
  writes past its current range even when it is shrunk between the callback's check and its write,
  and that a request counts as successful only when every byte of its range was written.
\<close>

section \<open>The pool\<close>

text \<open>
  A pointer to a progress counter: none, the counter of chunk \<open>j\<close> of the download, or the content
  of an array element that was never set.
\<close>

datatype progress_ptr = NoPtr | Counter nat | Uninit

record pool_slot =
  ps_start :: u64
  write_pos :: u64
  live_end :: u64            \<comment> \<open>exclusive\<close>
  claimed :: bool
  exhausted :: bool
  progress_slot :: progress_ptr

record pool =
  p_slots :: "pool_slot list"      \<comment> \<open>the first \<open>slot_count\<close> slots\<close>
  min_steal_bytes :: u64

text \<open>
  What the threads of a download share: the file, the pool (\<open>None\<close> is NULL), the byte counters
  of the download, the array of pointers to them, the two request flags, and the state the split
  callback works on.
\<close>

record 'e wworld =
  ww_fs :: fs
  ww_pool :: "pool option"
  ww_bytes :: u64
  ww_live :: "u64 list"
  ww_ptrs :: "progress_ptr list"
  ww_cancel :: bool
  ww_pause :: bool
  ww_env :: 'e

definition make_slot :: "range \<Rightarrow> progress_ptr \<Rightarrow> pool_slot" where
  "make_slot r ptr =
     \<lparr>ps_start = r_start r + resume_offset r, write_pos = r_start r + resume_offset r,
      live_end = r_end r + 1, claimed = True, exhausted = False, progress_slot = ptr\<rparr>"

definition rebalance_pool_create :: "bool \<Rightarrow> range list \<Rightarrow> progress_ptr list \<Rightarrow> u64 \<Rightarrow> pool option" where
  "rebalance_pool_create alloc_ok ranges ptrs min_steal =
     (if \<not> alloc_ok then None
      else Some \<lparr>p_slots = map (\<lambda>(r, ptr). make_slot r ptr) (take MAX_WORKERS (zip ranges ptrs)),
                 min_steal_bytes = min_steal\<rparr>)"

definition orphan :: "pool_slot \<Rightarrow> bool" where
  "orphan s \<longleftrightarrow> \<not> exhausted s \<and> \<not> claimed s"

text \<open>The loop that looks for the busiest slot; \<open>i\<close> is the index of the first of \<open>ss\<close>.\<close>

fun busiest :: "nat \<Rightarrow> pool_slot list \<Rightarrow> nat option \<times> u64 \<Rightarrow> nat option \<times> u64" where
  "busiest i [] best = best"
| "busiest i (s # ss) (victim, victim_remaining) =
     (if exhausted s \<or> \<not> claimed s then busiest (Suc i) ss (victim, victim_remaining)
      else let remaining = (if live_end s > write_pos s then live_end s - write_pos s else 0)
           in if remaining > victim_remaining then busiest (Suc i) ss (Some i, remaining)
              else busiest (Suc i) ss (victim, victim_remaining))"

definition seg_range :: "u64 \<Rightarrow> u64 \<Rightarrow> range" where
  "seg_range a b = \<lparr>r_start = a, r_end = b, resume_offset = 0, whole_file = False\<rparr>"

definition split_point :: "pool_slot \<Rightarrow> u64" where
  "split_point v = write_pos v + (live_end v - write_pos v) div 2"

definition stolen_slot :: "pool_slot \<Rightarrow> pool_slot" where
  "stolen_slot v =
     \<lparr>ps_start = split_point v, write_pos = split_point v, live_end = live_end v, claimed = True,
      exhausted = False, progress_slot = NoPtr\<rparr>"

text \<open>Step 3: the victim keeps the front half, a new slot gets the rest.\<close>

definition steal_from :: "nat \<Rightarrow> pool \<Rightarrow> pool" where
  "steal_from v p =
     (let vs = p_slots p ! v
      in p\<lparr>p_slots := (p_slots p)[v := vs\<lparr>live_end := split_point vs\<rparr>] @ [stolen_slot vs]\<rparr>)"

definition claim_slot :: "nat \<Rightarrow> pool \<Rightarrow> pool" where
  "claim_slot i p = p\<lparr>p_slots := (p_slots p)[i := (p_slots p ! i)\<lparr>claimed := True\<rparr>]\<rparr>"

text \<open>
  The pool's part of \<open>rebalance_pool_acquire\<close>: the slot given to the caller, its range, and the
  arguments of the split callback when a slot was split.
\<close>

definition pool_acquire :: "pool \<Rightarrow> (nat \<times> range \<times> (u64 \<times> u64 \<times> u64) option) option \<times> pool" where
  "pool_acquire p =
     (case first_index orphan (p_slots p) of
        Some i \<Rightarrow>
          let s = p_slots p ! i
          in (Some (i, seg_range (write_pos s) (live_end s - 1), None), claim_slot i p)
      | None \<Rightarrow>
          (case busiest 0 (p_slots p) (None, 0) of
             (None, _) \<Rightarrow> (None, p)
           | (Some v, victim_remaining) \<Rightarrow>
               if victim_remaining < min_steal_bytes p \<or> length (p_slots p) \<ge> MAX_WORKERS
               then (None, p)
               else let vs = p_slots p ! v;
                        split = split_point vs;
                        le = live_end vs
                    in (Some (length (p_slots p), seg_range split (le - 1), Some (ps_start vs, split, le)),
                        steal_from v p)))"

text \<open>
  \<open>rebalance_pool_acquire\<close>: the split callback, which works on the download and the pointer
  array, runs before the new slot's progress pointer is read from the array.
\<close>

type_synonym 'e split_fn =
  "u64 \<Rightarrow> u64 \<Rightarrow> u64 \<Rightarrow> progress_ptr list \<times> u64 list \<times> 'e \<Rightarrow> progress_ptr list \<times> u64 list \<times> 'e"

definition set_progress :: "nat \<Rightarrow> progress_ptr \<Rightarrow> pool \<Rightarrow> pool" where
  "set_progress i ptr p = p\<lparr>p_slots := (p_slots p)[i := (p_slots p ! i)\<lparr>progress_slot := ptr\<rparr>]\<rparr>"

definition rebalance_pool_acquire ::
  "'e split_fn \<Rightarrow> 'e wworld \<Rightarrow> (nat \<times> range \<times> progress_ptr) option \<times> 'e wworld" where
  "rebalance_pool_acquire on_split w =
     (case ww_pool w of
        None \<Rightarrow> (None, w)
      | Some p \<Rightarrow>
          (case pool_acquire p of
             (None, p') \<Rightarrow> (None, w\<lparr>ww_pool := Some p'\<rparr>)
           | (Some (i, rng, None), p') \<Rightarrow>
               (Some (i, rng, progress_slot (p_slots p' ! i)), w\<lparr>ww_pool := Some p'\<rparr>)
           | (Some (i, rng, Some (vstart, split, le)), p') \<Rightarrow>
               (case on_split vstart split le (ww_ptrs w, ww_live w, ww_env w) of
                  (ptrs, live, env) \<Rightarrow>
                    (Some (i, rng, ptrs ! i),
                     w\<lparr>ww_ptrs := ptrs, ww_live := live, ww_env := env,
                       ww_pool := Some (set_progress i (ptrs ! i) p')\<rparr>))))"

definition mark_slot :: "nat \<Rightarrow> pool \<Rightarrow> pool" where
  "mark_slot i p = p\<lparr>p_slots := (p_slots p)[i := (p_slots p ! i)\<lparr>exhausted := True, claimed := False\<rparr>]\<rparr>"

definition rebalance_pool_mark_done :: "nat \<Rightarrow> 'e wworld \<Rightarrow> 'e wworld" where
  "rebalance_pool_mark_done i w = w\<lparr>ww_pool := map_option (mark_slot i) (ww_pool w)\<rparr>"

section \<open>The write callback\<close>

record worker_ctx =
  c_range :: range
  c_bytes_done :: u64
  c_succeeded :: bool
  c_progress :: progress_ptr
  c_total_workers :: nat
  c_slot_index :: nat
  c_truncated :: bool

text \<open>
  What a call of the callback meets: whether a request flag is set on entry, what
  \<open>bandwidth_acquire\<close> returns, and what \<open>pwrite\<close> does.
\<close>

record cb_env =
  cb_stop :: bool
  cb_bandwidth :: bool
  cb_pwrite :: pwrite_outcome

definition current_offset :: "worker_ctx \<Rightarrow> u64" where
  "current_offset c = r_start (c_range c) + resume_offset (c_range c) + c_bytes_done c"

text \<open>
  The first half of the callback: how many of the \<open>total\<close> bytes may be written under the range end
  that is read now, and whether they are cut. \<open>None\<close>: the range ends before the offset.
\<close>

definition callback_window :: "nat \<Rightarrow> worker_ctx \<Rightarrow> pool option \<Rightarrow> (nat \<times> bool) option" where
  "callback_window n c po =
     (case po of
        None \<Rightarrow> Some (n, False)
      | Some p \<Rightarrow>
          let off = current_offset c;
              le = live_end (p_slots p ! c_slot_index c)
          in if off \<ge> le then None
             else if n > unat (le - off) then Some (unat (le - off), True)
             else Some (n, False))"

definition bump :: "progress_ptr \<Rightarrow> nat \<Rightarrow> u64 list \<Rightarrow> u64 list" where
  "bump ptr n live = (case ptr of Counter j \<Rightarrow> live[j := live ! j + of_nat n] | _ \<Rightarrow> live)"

definition advance_slot :: "nat \<Rightarrow> nat \<Rightarrow> pool \<Rightarrow> pool" where
  "advance_slot i n p =
     p\<lparr>p_slots := (p_slots p)[i := (p_slots p ! i)\<lparr>write_pos := write_pos (p_slots p ! i) + of_nat n\<rparr>]\<rparr>"

text \<open>The second half: write the first \<open>k\<close> bytes and advance the counters. Result: \<open>k\<close>, or 0.\<close>

definition callback_commit ::
  "string \<Rightarrow> pwrite_outcome \<Rightarrow> u8 list \<Rightarrow> nat \<Rightarrow> worker_ctx \<Rightarrow> 'e wworld \<Rightarrow> nat \<times> worker_ctx \<times> 'e wworld" where
  "callback_commit fd pw data k c w =
     (case file_pwrite pw fd (take k data) (current_offset c) (ww_fs w) of
        (rc, fs') \<Rightarrow>
          if rc \<noteq> 0 then (0, c, w\<lparr>ww_fs := fs'\<rparr>)
          else (k, c\<lparr>c_bytes_done := c_bytes_done c + of_nat k\<rparr>,
                w\<lparr>ww_fs := fs', ww_pool := map_option (advance_slot (c_slot_index c) k) (ww_pool w),
                  ww_bytes := ww_bytes w + of_nat k, ww_live := bump (c_progress c) k (ww_live w)\<rparr>))"

definition worker_write_callback ::
  "string \<Rightarrow> cb_env \<Rightarrow> u8 list \<Rightarrow> worker_ctx \<Rightarrow> 'e wworld \<Rightarrow> nat \<times> worker_ctx \<times> 'e wworld" where
  "worker_write_callback fd e data c w =
     (if cb_stop e then (0, c, w)
      else if \<not> cb_bandwidth e then (0, c, w)
      else case callback_window (length data) c (ww_pool w) of
             None \<Rightarrow> (0, c\<lparr>c_truncated := True\<rparr>, w)
           | Some (k, trunc) \<Rightarrow>
               callback_commit fd (cb_pwrite e) data k
                 (if trunc then c\<lparr>c_truncated := True\<rparr> else c) w)"

section \<open>One request\<close>

text \<open>
  A transfer: whether \<open>curl_easy_init\<close> succeeds, the buffers libcurl would deliver, whether the
  transfer itself ends without error, and the HTTP status. The server answers the Range header
  (\<open>None\<close> when the whole file is asked for).
\<close>

record transfer =
  t_init :: bool
  t_buffers :: "(u8 list \<times> cb_env) list"
  t_ok :: bool
  t_status :: int

type_synonym server = "string option \<Rightarrow> transfer"

definition range_header :: "range \<Rightarrow> string option" where
  "range_header r =
     (if whole_file r then None
      else Some (dec (unat (r_start r + resume_offset r)) @ ''-'' @ dec (unat (r_end r))))"

text \<open>libcurl stops, with a write error, at the first callback that does not take its buffer.\<close>

fun deliver :: "string \<Rightarrow> (u8 list \<times> cb_env) list \<Rightarrow> worker_ctx \<Rightarrow> 'e wworld \<Rightarrow> bool \<times> worker_ctx \<times> 'e wworld" where
  "deliver fd [] c w = (True, c, w)"
| "deliver fd ((data, e) # rest) c w =
     (case worker_write_callback fd e data c w of
        (n, c', w') \<Rightarrow> if n \<noteq> length data then (False, c', w') else deliver fd rest c' w')"

definition expected_bytes :: "worker_ctx \<Rightarrow> pool option \<Rightarrow> u64" where
  "expected_bytes c po =
     (let off = r_start (c_range c) + resume_offset (c_range c)
      in case po of
           Some p \<Rightarrow>
             let le = live_end (p_slots p ! c_slot_index c) in if le > off then le - off else 0
         | None \<Rightarrow> if r_end (c_range c) \<ge> off then r_end (c_range c) - off + 1 else 0)"

definition http_ok :: "int \<Rightarrow> worker_ctx \<Rightarrow> bool" where
  "http_ok status c \<longleftrightarrow>
     status = 206 \<or>
     (status = 200 \<and>
      (whole_file (c_range c) \<or>
       (c_total_workers c = 1 \<and> r_start (c_range c) + resume_offset (c_range c) = 0)))"

definition run_one_segment :: "server \<Rightarrow> string \<Rightarrow> worker_ctx \<Rightarrow> 'e wworld \<Rightarrow> worker_ctx \<times> 'e wworld" where
  "run_one_segment srv fd c0 w0 =
     (let c = c0\<lparr>c_succeeded := False, c_truncated := False, c_bytes_done := 0\<rparr>;
          t = srv (range_header (c_range c))
      in if \<not> t_init t then (c, w0)
         else case deliver fd (t_buffers t) c w0 of
                (all_taken, c1, w1) \<Rightarrow>
                  let res_ok = all_taken \<and> t_ok t;
                      exact = (c_bytes_done c1 = expected_bytes c1 (ww_pool w1))
                  in (c1\<lparr>c_succeeded := (http_ok (t_status t) c1 \<and> exact \<and>
                                         (res_ok \<or> c_truncated c1))\<rparr>, w1))"

section \<open>The thread loop\<close>

lemma busiest_SomeD:
  "busiest i ss (bv, br) = (Some v, r) \<Longrightarrow>
   (bv = Some v \<and> br = r) \<or>
   (i \<le> v \<and> v < i + length ss \<and> claimed (ss ! (v - i)) \<and> \<not> exhausted (ss ! (v - i)) \<and>
    r = live_end (ss ! (v - i)) - write_pos (ss ! (v - i)) \<and> write_pos (ss ! (v - i)) < live_end (ss ! (v - i)))"
proof (induction ss arbitrary: i bv br)
  case Nil
  then show ?case by simp
next
  case (Cons s ss)
  let ?rem = "if live_end s > write_pos s then live_end s - write_pos s else 0"
  consider (skip) "busiest (Suc i) ss (bv, br) = (Some v, r)"
    | (better) "busiest (Suc i) ss (Some i, ?rem) = (Some v, r)" "claimed s" "\<not> exhausted s" "br < ?rem"
    using Cons.prems by (auto simp: Let_def split: if_splits)
  then show ?case
  proof cases
    case skip
    from Cons.IH [OF this] show ?thesis by (auto simp: nth_Cons' Suc_le_eq)
  next
    case better
    then have w: "write_pos s < live_end s" by (auto split: if_splits)
    from Cons.IH [OF better(1)] better(2,3) w show ?thesis by (auto simp: nth_Cons' Suc_le_eq)
  qed
qed

text \<open>
  The measure of the loop: slots that can still be created or picked up. A worker that loops has
  marked its slot exhausted and acquired another one.
\<close>

definition pool_work :: "pool \<Rightarrow> nat" where
  "pool_work p = 2 * (MAX_WORKERS - length (p_slots p)) + length (filter orphan (p_slots p))"

lemma length_filter_update:
  "i < length xs \<Longrightarrow> length (filter P (xs[i := x])) + (if P (xs ! i) then 1 else 0) =
     length (filter P xs) + (if P x then 1 else 0)"
proof -
  assume i: "i < length xs"
  let ?a = "take i xs" and ?b = "drop (Suc i) xs"
  have "filter P xs = filter P (?a @ xs ! i # ?b)" using i by (simp add: id_take_nth_drop [symmetric])
  moreover have "filter P (xs[i := x]) = filter P (?a @ x # ?b)" using i by (simp add: upd_conv_take_nth_drop)
  ultimately show ?thesis by simp
qed

lemma pool_acquire_cases:
  assumes "pool_acquire p = (Some (i, rng, sp), p')"
  obtains (claim) "i < length (p_slots p)" "orphan (p_slots p ! i)" "sp = None" "p' = claim_slot i p"
      "rng = seg_range (write_pos (p_slots p ! i)) (live_end (p_slots p ! i) - 1)"
    | (steal) v where "v < length (p_slots p)" "claimed (p_slots p ! v)" "\<not> exhausted (p_slots p ! v)"
      "write_pos (p_slots p ! v) < live_end (p_slots p ! v)"
      "min_steal_bytes p \<le> live_end (p_slots p ! v) - write_pos (p_slots p ! v)"
      "length (p_slots p) < MAX_WORKERS" "i = length (p_slots p)" "p' = steal_from v p"
      "rng = seg_range (split_point (p_slots p ! v)) (live_end (p_slots p ! v) - 1)"
      "sp = Some (ps_start (p_slots p ! v), split_point (p_slots p ! v), live_end (p_slots p ! v))"
proof (cases "first_index orphan (p_slots p)")
  case (Some k)
  with assms first_index_SomeD [OF Some] claim show thesis by (auto simp: pool_acquire_def Let_def)
next
  case None
  obtain bv r where b: "busiest 0 (p_slots p) (None, 0) = (bv, r)" by fastforce
  with assms None obtain v where v: "bv = Some v" by (auto simp: pool_acquire_def split: option.splits)
  note bd = busiest_SomeD [OF b [unfolded v]]
  show thesis
    by (rule steal [of v]) (use assms None b v bd in \<open>auto simp: pool_acquire_def Let_def split: if_splits\<close>)
qed

lemma p_slots_ops [simp]:
  "p_slots (claim_slot i p) = (p_slots p)[i := (p_slots p ! i)\<lparr>claimed := True\<rparr>]"
  "p_slots (steal_from v p) =
     (p_slots p)[v := (p_slots p ! v)\<lparr>live_end := split_point (p_slots p ! v)\<rparr>] @ [stolen_slot (p_slots p ! v)]"
  "p_slots (mark_slot i p) = (p_slots p)[i := (p_slots p ! i)\<lparr>exhausted := True, claimed := False\<rparr>]"
  "p_slots (advance_slot i n p) =
     (p_slots p)[i := (p_slots p ! i)\<lparr>write_pos := write_pos (p_slots p ! i) + of_nat n\<rparr>]"
  by (simp_all add: claim_slot_def steal_from_def mark_slot_def advance_slot_def Let_def)

lemma pool_acquire_work:
  assumes "pool_acquire p = (Some (i, rng, sp), p')"
  shows "pool_work p' < pool_work p"
  using assms
proof (cases rule: pool_acquire_cases)
  case claim
  then show ?thesis
    using length_filter_update [of i "p_slots p" orphan "(p_slots p ! i)\<lparr>claimed := True\<rparr>"]
    by (auto simp: pool_work_def orphan_def)
next
  case (steal v)
  then show ?thesis
    using length_filter_update [of v "p_slots p" orphan "(p_slots p ! v)\<lparr>live_end := split_point (p_slots p ! v)\<rparr>"]
    by (auto simp: pool_work_def orphan_def stolen_slot_def)
qed

lemma pool_work_update:
  assumes "orphan x \<longrightarrow> orphan (p_slots p ! i)"
  shows "pool_work (p\<lparr>p_slots := (p_slots p)[i := x]\<rparr>) \<le> pool_work p"
proof (cases "i < length (p_slots p)")
  case True
  then show ?thesis
    using length_filter_update [OF True, of orphan x] assms by (auto simp: pool_work_def split: if_splits)
next
  case False
  then show ?thesis by (simp add: list_update_beyond pool_work_def)
qed

definition world_work :: "'e wworld \<Rightarrow> nat" where
  "world_work w = (case ww_pool w of None \<Rightarrow> 0 | Some p \<Rightarrow> pool_work p)"

lemma callback_work: "worker_write_callback fd e data c w = (n, c', w') \<Longrightarrow> world_work w' \<le> world_work w"
  using pool_work_update
  by (auto simp: worker_write_callback_def callback_commit_def world_work_def advance_slot_def orphan_def
      split: if_splits option.splits prod.splits)

lemma deliver_work: "deliver fd bs c w = (ok, c', w') \<Longrightarrow> world_work w' \<le> world_work w"
proof (induction fd bs c w rule: deliver.induct)
  case (1 fd c w)
  then show ?case by simp
next
  case (2 fd data e rest c w)
  obtain n c1 w1 where cb: "worker_write_callback fd e data c w = (n, c1, w1)" by (cases "worker_write_callback fd e data c w")
  then have "world_work w1 \<le> world_work w" by (rule callback_work)
  with 2 cb show ?case by (auto split: if_splits intro: le_trans)
qed

lemma segment_work: "run_one_segment srv fd c w = (c', w') \<Longrightarrow> world_work w' \<le> world_work w"
  by (auto simp: run_one_segment_def Let_def split: if_splits prod.splits dest: deliver_work)

lemma mark_done_work: "world_work (rebalance_pool_mark_done i w) \<le> world_work w"
  using pool_work_update
  by (auto simp: rebalance_pool_mark_done_def world_work_def mark_slot_def orphan_def split: option.splits)

lemma acquire_work:
  assumes "rebalance_pool_acquire on_split w = (Some a, w')"
  shows "world_work w' < world_work w"
proof -
  obtain p where p: "ww_pool w = Some p"
    using assms by (auto simp: rebalance_pool_acquire_def split: option.splits)
  obtain x p' where a: "pool_acquire p = (x, p')" by fastforce
  with p assms obtain i rng sp where x: "x = Some (i, rng, sp)"
    by (cases x) (auto simp: rebalance_pool_acquire_def)
  have lt: "pool_work p' < pool_work p" using a unfolding x by (rule pool_acquire_work)
  have "pool_work (set_progress i ptr p') \<le> pool_work p'" for ptr
    unfolding set_progress_def by (rule pool_work_update) (simp add: orphan_def)
  then have "pool_work (set_progress i ptr p') < pool_work p" for ptr
    using lt by (rule le_less_trans)
  with lt p assms a x show ?thesis
    by (auto simp: rebalance_pool_acquire_def world_work_def split: option.splits prod.splits)
qed

function worker_thread_function ::
  "server \<Rightarrow> 'e split_fn \<Rightarrow> string \<Rightarrow> worker_ctx \<Rightarrow> 'e wworld \<Rightarrow> worker_ctx \<times> 'e wworld" where
  "worker_thread_function srv on_split fd c w =
     (case run_one_segment srv fd c w of
        (c1, w1) \<Rightarrow>
          if \<not> c_succeeded c1 then (c1\<lparr>c_succeeded := False\<rparr>, w1)
          else if ww_pool w1 = None then (c1\<lparr>c_succeeded := True\<rparr>, w1)
          else (case rebalance_pool_acquire on_split (rebalance_pool_mark_done (c_slot_index c1) w1) of
                  (None, w2) \<Rightarrow> (c1\<lparr>c_succeeded := True\<rparr>, w2)
                | (Some (i, rng, ptr), w2) \<Rightarrow>
                    worker_thread_function srv on_split fd
                      (c1\<lparr>c_range := rng, c_slot_index := i, c_progress := ptr\<rparr>) w2))"
  by pat_completeness auto
termination
proof (relation "measure (\<lambda>(srv, os, fd, c, w). world_work w)")
  fix srv :: server and on_split :: "'e split_fn" and fd c w c1 w1 a w2 i y rng ptr
  assume "(c1, w1) = run_one_segment srv fd c w"
    and "(a, w2) = rebalance_pool_acquire on_split (rebalance_pool_mark_done (c_slot_index c1) w1)"
    and "a = Some y"
  then have "world_work w2 < world_work w"
    using segment_work [of srv fd c w c1 w1] mark_done_work [of "c_slot_index c1" w1]
      acquire_work [of on_split "rebalance_pool_mark_done (c_slot_index c1) w1" y w2] by simp
  then show "((srv, on_split, fd, c1\<lparr>c_range := rng, c_slot_index := i, c_progress := ptr\<rparr>, w2), (srv, on_split, fd, c, w))
      \<in> measure (\<lambda>(srv, os, fd, c, w). world_work w)" by simp
qed simp

declare worker_thread_function.simps [simp del]

section \<open>All workers\<close>

definition make_ctx :: "nat \<Rightarrow> range list \<Rightarrow> progress_ptr list \<Rightarrow> nat \<Rightarrow> worker_ctx" where
  "make_ctx n ranges ptrs i =
     \<lparr>c_range = ranges ! i, c_bytes_done = 0, c_succeeded = False,
      c_progress = (if i < length ptrs then ptrs ! i else NoPtr), c_total_workers = n,
      c_slot_index = i, c_truncated = False\<rparr>"

definition per_worker_limit :: "u64 \<Rightarrow> nat \<Rightarrow> u64" where
  "per_worker_limit total_limit n =
     (if total_limit > 0
      then let l = total_limit div of_nat n in if l = 0 then 1 else l
      else 0)"

text \<open>
  \<open>worker_pool_run\<close>. \<open>created i\<close> says whether thread \<open>i\<close> can be created; \<open>threads\<close> is the joint
  execution of the started threads, each of which runs \<open>worker_thread_function\<close>: it returns their
  contexts at the end. A failed creation raises the cancel flag for the others.
\<close>

type_synonym 'e threads = "string \<Rightarrow> worker_ctx list \<Rightarrow> 'e wworld \<Rightarrow> worker_ctx list \<times> 'e wworld"

definition worker_pool_run ::
  "kernel \<Rightarrow> (nat \<Rightarrow> bool) \<Rightarrow> 'e threads \<Rightarrow> range list \<Rightarrow> string \<Rightarrow> progress_ptr list \<Rightarrow> 'e wworld \<Rightarrow> bool \<times> 'e wworld"
where
  "worker_pool_run K created threads ranges dest ptrs w =
     (case file_open_rw K dest (ww_fs w) of
        None \<Rightarrow> (False, w)
      | Some fd \<Rightarrow>
          if \<not> k_alloc K ''WorkerContext'' then (False, w)
          else let n = length ranges;
                   started = takeWhile created [0..<n];
                   all_started = (length started = n);
                   w1 = (if all_started then w else w\<lparr>ww_cancel := True\<rparr>);
                   (ctxs, w2) = threads fd (map (make_ctx n ranges ptrs) started) w1
               in (all_started \<and> list_all c_succeeded ctxs, w2))"

text \<open>The threads run one after the other: one of the schedules, and the only one for a single worker.\<close>

fun serial_threads :: "server \<Rightarrow> 'e split_fn \<Rightarrow> 'e threads" where
  "serial_threads srv on_split fd [] w = ([], w)"
| "serial_threads srv on_split fd (c # cs) w =
     (case worker_thread_function srv on_split fd c w of
        (c', w1) \<Rightarrow> (case serial_threads srv on_split fd cs w1 of (cs', w2) \<Rightarrow> (c' # cs', w2)))"

section \<open>Stealing keeps the ranges a partition\<close>

definition slot_ok :: "pool_slot \<Rightarrow> bool" where
  "slot_ok s \<longleftrightarrow> ps_start s \<le> write_pos s \<and> write_pos s \<le> live_end s \<and> (exhausted s \<longrightarrow> write_pos s = live_end s)"

definition slot_bytes :: "pool_slot \<Rightarrow> nat set" where
  "slot_bytes s = {unat (ps_start s)..<unat (live_end s)}"

definition slot_written :: "pool_slot \<Rightarrow> nat set" where
  "slot_written s = {unat (ps_start s)..<unat (write_pos s)}"

definition pairwise_disjoint :: "pool_slot list \<Rightarrow> bool" where
  "pairwise_disjoint ss \<longleftrightarrow> (\<forall>i<length ss. \<forall>j<i. slot_bytes (ss ! i) \<inter> slot_bytes (ss ! j) = {})"

lemma unat_split_point:
  assumes "write_pos v < live_end v"
  shows "unat (split_point v) = unat (write_pos v) + (unat (live_end v) - unat (write_pos v)) div 2"
proof -
  let ?d = "live_end v - write_pos v"
  have d: "unat ?d = unat (live_end v) - unat (write_pos v)"
    using assms by (intro unat_diff_le) simp
  have h: "unat (?d div 2) = (unat (live_end v) - unat (write_pos v)) div 2" by (simp add: unat_div d)
  have "unat (write_pos v) + unat (?d div 2) < 2 ^ LENGTH(64)"
    using unat_lt2p [of "live_end v"] assms unfolding h by (simp add: word_less_nat_alt)
  then show ?thesis unfolding split_point_def using unat_add_nowrap [of "write_pos v" "?d div 2"] h by simp
qed

lemma split_between:
  assumes "slot_ok v" and "write_pos v < live_end v"
  shows "unat (ps_start v) \<le> unat (split_point v)" and "unat (write_pos v) \<le> unat (split_point v)"
    and "unat (split_point v) < unat (live_end v)"
  using assms unat_split_point [OF assms(2)]
  by (auto simp: slot_ok_def word_le_nat_alt word_less_nat_alt)

text \<open>A split replaces the victim's bytes by two disjoint parts.\<close>

lemma split_bytes:
  assumes "slot_ok v" and "write_pos v < live_end v"
  shows "slot_bytes (v\<lparr>live_end := split_point v\<rparr>) \<union> slot_bytes (stolen_slot v) = slot_bytes v"
    and "slot_bytes (v\<lparr>live_end := split_point v\<rparr>) \<inter> slot_bytes (stolen_slot v) = {}"
  using split_between [OF assms] by (auto simp: slot_bytes_def stolen_slot_def)

lemma UN_list_update:
  assumes "i < length xs"
  shows "(\<Union>x\<in>set (xs[i := y]). f x) \<union> f (xs ! i) = (\<Union>x\<in>set xs. f x) \<union> f y"
proof -
  let ?a = "take i xs" and ?b = "drop (Suc i) xs"
  have "set xs = set (?a @ xs ! i # ?b)" using assms by (simp add: id_take_nth_drop [symmetric])
  moreover have "set (xs[i := y]) = set (?a @ y # ?b)" using assms by (simp add: upd_conv_take_nth_drop)
  ultimately show ?thesis by auto
qed

lemma replace_union: "A \<union> S = B \<union> F \<Longrightarrow> F \<union> T = S \<Longrightarrow> F \<subseteq> A \<Longrightarrow> S \<subseteq> B \<Longrightarrow> A \<union> T = B"
  by blast

lemma steal_cover:
  assumes v: "v < length (p_slots p)" and ok: "slot_ok (p_slots p ! v)"
    and lt: "write_pos (p_slots p ! v) < live_end (p_slots p ! v)"
  shows "(\<Union>s\<in>set (p_slots (steal_from v p)). slot_bytes s) = (\<Union>s\<in>set (p_slots p). slot_bytes s)"
proof -
  let ?s = "p_slots p ! v" and ?f = "(p_slots p ! v)\<lparr>live_end := split_point (p_slots p ! v)\<rparr>"
  have "(\<Union>s\<in>set ((p_slots p)[v := ?f]). slot_bytes s) \<union> slot_bytes ?s =
      (\<Union>s\<in>set (p_slots p). slot_bytes s) \<union> slot_bytes ?f" using v by (rule UN_list_update)
  moreover have "slot_bytes ?f \<union> slot_bytes (stolen_slot ?s) = slot_bytes ?s" using ok lt by (rule split_bytes)
  moreover have "slot_bytes ?f \<subseteq> (\<Union>s\<in>set ((p_slots p)[v := ?f]). slot_bytes s)"
    using v set_update_memI by fastforce
  moreover have "slot_bytes ?s \<subseteq> (\<Union>s\<in>set (p_slots p). slot_bytes s)" using v nth_mem by fastforce
  ultimately have "(\<Union>s\<in>set ((p_slots p)[v := ?f]). slot_bytes s) \<union> slot_bytes (stolen_slot ?s) =
      (\<Union>s\<in>set (p_slots p). slot_bytes s)" by (rule replace_union)
  then show ?thesis unfolding p_slots_ops by (simp add: Un_commute)
qed

lemma steal_disjoint:
  assumes v: "v < length (p_slots p)" and ok: "slot_ok (p_slots p ! v)"
    and lt: "write_pos (p_slots p ! v) < live_end (p_slots p ! v)"
    and dis: "pairwise_disjoint (p_slots p)"
  shows "pairwise_disjoint (p_slots (steal_from v p))"
proof -
  let ?ss = "p_slots p" and ?s = "p_slots p ! v" and ?qs = "p_slots (steal_from v p)"
  have d: "slot_bytes (?ss ! a) \<inter> slot_bytes (?ss ! b) = {}" if "a < length ?ss" "b < length ?ss" "a \<noteq> b" for a b
    using dis that unfolding pairwise_disjoint_def by (metis Int_commute linorder_neqE_nat)
  have parts: "slot_bytes (?s\<lparr>live_end := split_point ?s\<rparr>) \<subseteq> slot_bytes ?s"
    "slot_bytes (stolen_slot ?s) \<subseteq> slot_bytes ?s"
    "slot_bytes (?s\<lparr>live_end := split_point ?s\<rparr>) \<inter> slot_bytes (stolen_slot ?s) = {}"
    using split_bytes [OF ok lt] by auto
  have sub: "slot_bytes (?qs ! a) \<subseteq> slot_bytes (?ss ! a)" if "a < length ?ss" for a
    using that parts v by (auto simp: nth_append nth_list_update)
  have last: "?qs ! length ?ss = stolen_slot ?s" by (simp add: nth_append)
  have new: "slot_bytes (stolen_slot ?s) \<inter> slot_bytes (?qs ! b) = {}" if "b < length ?ss" for b
  proof (cases "b = v")
    case True
    then show ?thesis using parts(3) v by (auto simp: nth_append)
  next
    case False
    with d [OF v that] sub [OF that] parts(2) show ?thesis by blast
  qed
  show ?thesis unfolding pairwise_disjoint_def
  proof (intro allI impI)
    fix i j assume i: "i < length ?qs" and j: "j < i"
    show "slot_bytes (?qs ! i) \<inter> slot_bytes (?qs ! j) = {}"
    proof (cases "i = length ?ss")
      case True
      with new [of j] j last show ?thesis by simp
    next
      case False
      with i have "i < length ?ss" by simp
      with d [of i j] sub [of i] sub [of j] j show ?thesis by auto
    qed
  qed
qed

section \<open>Interleaved callbacks\<close>

text \<open>
  The threads of one download, at the grain at which they can interfere: a callback first reads the
  range end and fixes how much it writes, and writes later; in between other threads may steal.
  \<open>fl i\<close> is the number of bytes the callback of slot \<open>i\<close> is about to write. libcurl hands over at
  most \<open>CURL_MAX_WRITE_SIZE\<close> (16384) bytes per call.
\<close>

inductive pool_step :: "pool \<times> (nat \<Rightarrow> nat option) \<Rightarrow> pool \<times> (nat \<Rightarrow> nat option) \<Rightarrow> bool" where
  check: "i < length (p_slots p) \<Longrightarrow> fl i = None \<Longrightarrow> c_slot_index c = i \<Longrightarrow>
    current_offset c = write_pos (p_slots p ! i) \<Longrightarrow> n \<le> 16384 \<Longrightarrow>
    callback_window n c (Some p) = Some (k, trunc) \<Longrightarrow> pool_step (p, fl) (p, fl(i := Some k))"
| write_ok: "fl i = Some k \<Longrightarrow> pool_step (p, fl) (advance_slot i k p, fl(i := None))"
| write_fails: "fl i = Some k \<Longrightarrow> pool_step (p, fl) (p, fl(i := None))"
| acquire: "pool_acquire p = (Some (i, rng, sp), p') \<Longrightarrow> pool_step (p, fl) (p', fl)"
| finished: "i < length (p_slots p) \<Longrightarrow> fl i = None \<Longrightarrow>
    write_pos (p_slots p ! i) = live_end (p_slots p ! i) \<Longrightarrow> pool_step (p, fl) (mark_slot i p, fl)"

definition pool_inv :: "nat set \<Rightarrow> pool \<times> (nat \<Rightarrow> nat option) \<Rightarrow> bool" where
  "pool_inv U x \<longleftrightarrow>
     (case x of (p, fl) \<Rightarrow>
        (\<forall>s\<in>set (p_slots p). slot_ok s) \<and> pairwise_disjoint (p_slots p) \<and>
        (\<Union>s\<in>set (p_slots p). slot_bytes s) = U \<and> 32768 \<le> unat (min_steal_bytes p) \<and>
        (\<forall>i k. fl i = Some k \<longrightarrow> i < length (p_slots p) \<and> k \<le> 16384 \<and>
           unat (write_pos (p_slots p ! i)) + k \<le> unat (live_end (p_slots p ! i))))"

lemma bytes_fields:
  "ps_start t = ps_start s \<Longrightarrow> live_end t = live_end s \<Longrightarrow> slot_bytes t = slot_bytes s"
  by (simp add: slot_bytes_def)

text \<open>Changing a slot without moving its bounds.\<close>

lemma pool_inv_same_bytes:
  assumes inv: "pool_inv U (p, fl)" and i: "i < length (p_slots p)"
    and t: "ps_start t = ps_start (p_slots p ! i)" "live_end t = live_end (p_slots p ! i)" "slot_ok t"
    and fl': "\<And>j k. fl' j = Some k \<Longrightarrow> fl j = Some k"
    and mine: "fl' i = None \<or> write_pos t = write_pos (p_slots p ! i)"
  shows "pool_inv U (p\<lparr>p_slots := (p_slots p)[i := t]\<rparr>, fl')"
proof -
  have b: "slot_bytes t = slot_bytes (p_slots p ! i)" using t(1,2) by (rule bytes_fields)
  have "(\<Union>s\<in>set ((p_slots p)[i := t]). slot_bytes s) = (\<Union>s\<in>set (p_slots p). slot_bytes s)"
  proof (rule equalityI)
    have "t \<in> set ((p_slots p)[i := t])" using i by (rule set_update_memI)
    then show "(\<Union>s\<in>set (p_slots p). slot_bytes s) \<subseteq> (\<Union>s\<in>set ((p_slots p)[i := t]). slot_bytes s)"
      using UN_list_update [OF i, of slot_bytes t] b by blast
    show "(\<Union>s\<in>set ((p_slots p)[i := t]). slot_bytes s) \<subseteq> (\<Union>s\<in>set (p_slots p). slot_bytes s)"
      using UN_list_update [OF i, of slot_bytes t] b nth_mem [OF i] by blast
  qed
  moreover have "pairwise_disjoint ((p_slots p)[i := t])"
    using inv b i unfolding pool_inv_def pairwise_disjoint_def by (auto simp: nth_list_update)
  moreover have "\<forall>s\<in>set ((p_slots p)[i := t]). slot_ok s"
    using inv t(3) set_update_subset_insert [of "p_slots p" i t] by (auto simp: pool_inv_def)
  moreover have "\<forall>j k. fl' j = Some k \<longrightarrow> j < length (p_slots p) \<and> k \<le> 16384 \<and>
      unat (write_pos ((p_slots p)[i := t] ! j)) + k \<le> unat (live_end ((p_slots p)[i := t] ! j))"
  proof (intro allI impI)
    fix j k assume j: "fl' j = Some k"
    then have "fl j = Some k" by (rule fl')
    then have old: "j < length (p_slots p)" "k \<le> 16384"
      "unat (write_pos (p_slots p ! j)) + k \<le> unat (live_end (p_slots p ! j))"
      using inv by (auto simp: pool_inv_def)
    show "j < length (p_slots p) \<and> k \<le> 16384 \<and>
      unat (write_pos ((p_slots p)[i := t] ! j)) + k \<le> unat (live_end ((p_slots p)[i := t] ! j))"
      using old mine j t(2) by (cases "j = i") auto
  qed
  ultimately show ?thesis using inv by (simp add: pool_inv_def)
qed

lemma pool_inv_steal:
  assumes inv: "pool_inv U (p, fl)" and v: "v < length (p_slots p)"
    and lt: "write_pos (p_slots p ! v) < live_end (p_slots p ! v)" and ne: "\<not> exhausted (p_slots p ! v)"
    and big: "min_steal_bytes p \<le> live_end (p_slots p ! v) - write_pos (p_slots p ! v)"
  shows "pool_inv U (steal_from v p, fl)"
proof -
  let ?s = "p_slots p ! v"
  have ok: "slot_ok ?s" using inv v by (auto simp: pool_inv_def)
  note bt = split_between [OF ok lt]
  have d: "unat (live_end ?s - write_pos ?s) = unat (live_end ?s) - unat (write_pos ?s)"
    using lt by (intro unat_diff_le) simp
  have half: "unat (write_pos ?s) + 16384 \<le> unat (split_point ?s)"
  proof -
    have "32768 \<le> unat (live_end ?s) - unat (write_pos ?s)"
      using inv big d by (simp add: pool_inv_def word_le_nat_alt)
    then have "16384 \<le> (unat (live_end ?s) - unat (write_pos ?s)) div 2" by simp
    then show ?thesis using unat_split_point [OF lt] by simp
  qed
  have "\<forall>s\<in>set (p_slots (steal_from v p)). slot_ok s"
  proof -
    have "slot_ok (?s\<lparr>live_end := split_point ?s\<rparr>)" "slot_ok (stolen_slot ?s)"
      using ok bt ne by (auto simp: slot_ok_def stolen_slot_def word_le_nat_alt)
    then show ?thesis using inv set_update_subset_insert [of "p_slots p" v] by (auto simp: pool_inv_def)
  qed
  moreover have "\<forall>j k. fl j = Some k \<longrightarrow> j < length (p_slots (steal_from v p)) \<and> k \<le> 16384 \<and>
      unat (write_pos (p_slots (steal_from v p) ! j)) + k \<le> unat (live_end (p_slots (steal_from v p) ! j))"
  proof (intro allI impI)
    fix j k assume "fl j = Some k"
    then have old: "j < length (p_slots p)" "k \<le> 16384"
      "unat (write_pos (p_slots p ! j)) + k \<le> unat (live_end (p_slots p ! j))"
      using inv by (auto simp: pool_inv_def)
    show "j < length (p_slots (steal_from v p)) \<and> k \<le> 16384 \<and>
      unat (write_pos (p_slots (steal_from v p) ! j)) + k \<le> unat (live_end (p_slots (steal_from v p) ! j))"
      using old half by (cases "j = v") (auto simp: nth_append)
  qed
  moreover have "min_steal_bytes (steal_from v p) = min_steal_bytes p" by (simp add: steal_from_def Let_def)
  ultimately show ?thesis
    using inv steal_cover [OF v ok lt] steal_disjoint [OF v ok lt] by (simp add: pool_inv_def)
qed

lemma callback_window_fits:
  assumes "callback_window n c (Some p) = Some (k, trunc)"
    and "current_offset c = write_pos (p_slots p ! c_slot_index c)"
  shows "k \<le> n \<and> unat (write_pos (p_slots p ! c_slot_index c)) + k \<le> unat (live_end (p_slots p ! c_slot_index c))"
proof -
  let ?s = "p_slots p ! c_slot_index c"
  have lt: "write_pos ?s < live_end ?s"
    using assms by (auto simp: callback_window_def Let_def split: if_splits)
  then have "unat (live_end ?s - write_pos ?s) = unat (live_end ?s) - unat (write_pos ?s)"
    by (intro unat_diff_le) simp
  then show ?thesis
    using assms lt by (auto simp: callback_window_def Let_def word_less_nat_alt split: if_splits)
qed

lemma pool_inv_step: "pool_step x y \<Longrightarrow> pool_inv U x \<Longrightarrow> pool_inv U y"
proof (induction rule: pool_step.induct)
  case (check i p fl c n k trunc)
  from callback_window_fits [OF check(6)] check(3,4,5)
  have "k \<le> 16384" "unat (write_pos (p_slots p ! i)) + k \<le> unat (live_end (p_slots p ! i))" by auto
  with check(1) check.prems show ?case by (auto simp: pool_inv_def)
next
  case (write_ok fl i k p)
  let ?s = "p_slots p ! i"
  have f: "i < length (p_slots p)" "unat (write_pos ?s) + k \<le> unat (live_end ?s)" and ok: "slot_ok ?s"
    using write_ok by (auto simp: pool_inv_def)
  have k64: "k < 2 ^ 64" using f(2) unat_lt2p [of "live_end ?s"] by simp
  then have "unat (of_nat k :: u64) = k" by (simp add: unat_of_nat)
  then have u: "unat (write_pos ?s + of_nat k) = unat (write_pos ?s) + k"
    using f(2) unat_lt2p [of "live_end ?s"] by (subst unat_add_nowrap) simp_all
  have "exhausted ?s \<longrightarrow> k = 0" using ok f(2) by (auto simp: slot_ok_def)
  with ok u f(2) have "slot_ok (?s\<lparr>write_pos := write_pos ?s + of_nat k\<rparr>)"
    by (auto simp: slot_ok_def word_le_nat_alt)
  with write_ok.prems f(1) show ?case unfolding advance_slot_def
    by (intro pool_inv_same_bytes [where fl = fl]) (auto split: if_splits)
next
  case (write_fails fl i k p)
  then show ?case by (auto simp: pool_inv_def split: if_splits)
next
  case (acquire p i rng sp p' fl)
  from acquire(1) show ?case
  proof (cases rule: pool_acquire_cases)
    case claim
    have "slot_ok (p_slots p ! i)" using acquire.prems claim(1) by (auto simp: pool_inv_def)
    then have "slot_ok ((p_slots p ! i)\<lparr>claimed := True\<rparr>)" by (simp add: slot_ok_def)
    with acquire.prems claim show ?thesis unfolding claim(4) claim_slot_def
      by (intro pool_inv_same_bytes [where fl = fl]) auto
  next
    case (steal v)
    with acquire.prems show ?thesis by (auto intro: pool_inv_steal)
  qed
next
  case (finished i p fl)
  then have "slot_ok (p_slots p ! i)" by (auto simp: pool_inv_def)
  with finished(3) have "slot_ok ((p_slots p ! i)\<lparr>exhausted := True, claimed := False\<rparr>)"
    by (simp add: slot_ok_def)
  with finished show ?case unfolding mark_slot_def
    by (intro pool_inv_same_bytes [where fl = fl]) auto
qed

inductive pool_run :: "pool \<times> (nat \<Rightarrow> nat option) \<Rightarrow> pool \<times> (nat \<Rightarrow> nat option) \<Rightarrow> bool" for x where
  start: "pool_run x x"
| move: "pool_run x y \<Longrightarrow> pool_step y z \<Longrightarrow> pool_run x z"

lemma pool_inv_run: "pool_run x y \<Longrightarrow> pool_inv U x \<Longrightarrow> pool_inv U y"
  by (induction rule: pool_run.induct) (auto intro: pool_inv_step)

text \<open>The pool created for a fresh plan.\<close>

lemma make_slot_fields:
  assumes "tiles a rs b" and "b < 2 ^ 64" and "r \<in> set rs" and "resume_offset r = 0"
  shows "slot_bytes (make_slot r ptr) = range_bytes r" and "slot_ok (make_slot r ptr)"
proof -
  have r: "unat (r_start r) \<le> unat (r_end r)" "unat (r_end r) < b"
    using tiles_starts [OF assms(1)] assms(3) by auto
  have "unat (r_end r + 1) = Suc (unat (r_end r))"
    using r(2) assms(2) by (subst unat_add_nowrap) simp_all
  with r assms(4) show "slot_bytes (make_slot r ptr) = range_bytes r" "slot_ok (make_slot r ptr)"
    by (auto simp: slot_bytes_def range_bytes_def make_slot_def slot_ok_def word_le_nat_alt)
qed

lemma pool_inv_create:
  assumes t: "tiles 0 rs N" and "N < 2 ^ 64" and len: "length rs \<le> MAX_WORKERS" "length ptrs = length rs"
    and off: "\<And>r. r \<in> set rs \<Longrightarrow> resume_offset r = 0" and "32768 \<le> unat ms"
    and c: "rebalance_pool_create True rs ptrs ms = Some p"
  shows "pool_inv {0..<N} (p, \<lambda>_. None)"
proof -
  have p: "p_slots p = map (\<lambda>(r, ptr). make_slot r ptr) (zip rs ptrs)" "min_steal_bytes p = ms"
    using c len by (auto simp: rebalance_pool_create_def)
  have n: "p_slots p ! i = make_slot (rs ! i) (ptrs ! i)" if "i < length rs" for i
    using that len p by simp
  have l: "length (p_slots p) = length rs" using p len by simp
  have mem: "s \<in> set (p_slots p) \<Longrightarrow> \<exists>r ptr. r \<in> set rs \<and> s = make_slot r ptr" for s
    unfolding p by (auto dest: set_zip_leftD)
  have ok: "\<forall>s\<in>set (p_slots p). slot_ok s"
    using mem make_slot_fields(2) [OF t assms(2)] off by blast
  have b: "slot_bytes (p_slots p ! i) = range_bytes (rs ! i)" if "i < length rs" for i
    using make_slot_fields(1) [OF t assms(2)] off that n by simp
  have "(\<Union>s\<in>set (p_slots p). slot_bytes s) = (\<Union>r\<in>set rs. range_bytes r)"
    unfolding set_conv_nth using b l by auto
  then have "(\<Union>s\<in>set (p_slots p). slot_bytes s) = {0..<N}" using tiles_UN [OF t] by simp
  moreover have "pairwise_disjoint (p_slots p)"
    unfolding pairwise_disjoint_def l
  proof (intro allI impI)
    fix i j assume "i < length rs" "j < i"
    with tiles_disjoint [OF t, of j i] b show "slot_bytes (p_slots p ! i) \<inter> slot_bytes (p_slots p ! j) = {}"
      by (simp add: Int_commute)
  qed
  ultimately show ?thesis using ok p(2) assms(6) by (simp add: pool_inv_def)
qed

section \<open>A request that counts as successful\<close>

text \<open>Without a pool, the bytes a request writes are the buffers it takes, at consecutive offsets.\<close>

lemma callback_bytes:
  assumes "worker_write_callback fd e data c w = (n, c', w')"
  shows "c_bytes_done c' = c_bytes_done c + of_nat n \<and> n \<le> length data \<and>
    c_range c' = c_range c \<and> c_slot_index c' = c_slot_index c \<and> c_total_workers c' = c_total_workers c"
proof -
  have win: "k \<le> n" if "callback_window n c po = Some (k, tr)" for n k tr and po :: "pool option"
    using that by (auto simp: callback_window_def Let_def split: option.splits if_splits)
  show ?thesis
    using assms by (auto simp: worker_write_callback_def callback_commit_def dest!: win
        split: if_splits option.splits prod.splits)
qed

lemma deliver_ctx:
  "deliver fd bs c w = (ok, c', w') \<Longrightarrow>
   c_range c' = c_range c \<and> c_slot_index c' = c_slot_index c \<and> c_total_workers c' = c_total_workers c"
proof (induction fd bs c w rule: deliver.induct)
  case (1 fd c w)
  then show ?case by simp
next
  case (2 fd data e rest c w)
  obtain n c1 w1 where cb: "worker_write_callback fd e data c w = (n, c1, w1)"
    by (cases "worker_write_callback fd e data c w")
  from callback_bytes [OF this] 2 cb show ?case by (auto split: if_splits)
qed

lemma run_one_segment_exact:
  assumes "run_one_segment srv fd c w = (c', w')" and "c_succeeded c'"
  shows "c_bytes_done c' = expected_bytes c' (ww_pool w')" and "c_range c' = c_range c"
    and "http_ok (t_status (srv (range_header (c_range c)))) c'"
proof -
  let ?c = "c\<lparr>c_succeeded := False, c_truncated := False, c_bytes_done := 0\<rparr>"
  let ?t = "srv (range_header (c_range c))"
  obtain ok c1 w1 where d: "deliver fd (t_buffers ?t) ?c w = (ok, c1, w1)"
    by (cases "deliver fd (t_buffers ?t) ?c w")
  have r: "c_range c1 = c_range c" using deliver_ctx [OF d] by simp
  have *: "w' = w1" "c_bytes_done c1 = expected_bytes c1 (ww_pool w1)" "http_ok (t_status ?t) c1"
    "c' = c1\<lparr>c_succeeded := True\<rparr>"
    using assms d by (auto simp: run_one_segment_def Let_def split: if_splits)
  show "c_bytes_done c' = expected_bytes c' (ww_pool w')"
    using * by (cases "ww_pool w1") (simp_all add: expected_bytes_def Let_def)
  show "c_range c' = c_range c" using * r by simp
  show "http_ok (t_status ?t) c'" using * by (simp add: http_ok_def)
qed

text \<open>
  The range \<open>0..0\<close> that the engine uses for "the whole file, size unknown" asks for exactly one
  byte: a body of any other length never counts as a success.
\<close>

lemma deliver_no_pool:
  assumes "deliver fd bs c w = (ok, c', w')" and "ww_pool w = None"
  shows "ww_pool w' = None \<and> (\<not> c_truncated c \<longrightarrow> \<not> c_truncated c') \<and>
    (ok \<longrightarrow> c_bytes_done c' = c_bytes_done c + of_nat (length (concat (map fst bs))))"
  using assms
proof (induction fd bs c w rule: deliver.induct)
  case (1 fd c w)
  then show ?case by simp
next
  case (2 fd data e rest c w)
  obtain n c1 w1 where cb: "worker_write_callback fd e data c w = (n, c1, w1)"
    by (cases "worker_write_callback fd e data c w")
  have np: "ww_pool w1 = None" and tr: "\<not> c_truncated c \<longrightarrow> \<not> c_truncated c1"
    using cb 2(3) by (auto simp: worker_write_callback_def callback_window_def callback_commit_def
        split: if_splits prod.splits)
  from callback_bytes [OF cb] have b: "c_bytes_done c1 = c_bytes_done c + of_nat n" by simp
  show ?case
  proof (cases "n = length data")
    case True
    with 2(2) cb have "deliver fd rest c1 w1 = (ok, c', w')" by simp
    from 2(1) [OF cb [symmetric] refl] True this np have
      "ww_pool w' = None \<and> (\<not> c_truncated c1 \<longrightarrow> \<not> c_truncated c') \<and>
       (ok \<longrightarrow> c_bytes_done c' = c_bytes_done c1 + of_nat (length (concat (map fst rest))))" by simp
    with b tr True show ?thesis by simp
  next
    case False
    with 2(2) cb np tr show ?thesis by auto
  qed
qed

lemma whole_file_request_needs_one_byte:
  assumes "c_range c = \<lparr>r_start = 0, r_end = 0, resume_offset = 0, whole_file = True\<rparr>"
    and "ww_pool w = None" and "run_one_segment srv fd c w = (c', w')" and "c_succeeded c'"
  shows "of_nat (length (concat (map fst (t_buffers (srv None))))) = (1 :: u64)"
proof -
  let ?c = "c\<lparr>c_succeeded := False, c_truncated := False, c_bytes_done := 0\<rparr>"
  obtain ok c1 w1 where d: "deliver fd (t_buffers (srv None)) ?c w = (ok, c1, w1)"
    by (cases "deliver fd (t_buffers (srv None)) ?c w")
  have n: "ww_pool w1 = None" "\<not> c_truncated c1"
    "ok \<longrightarrow> c_bytes_done c1 = of_nat (length (concat (map fst (t_buffers (srv None)))))"
    using deliver_no_pool [OF d] assms(2) by auto
  have "range_header (c_range c) = None" by (simp add: assms(1) range_header_def)
  then have "w' = w1" "c_bytes_done c1 = expected_bytes c1 (ww_pool w1)" "ok" "c_range c1 = c_range c"
    using assms(3,4) d n(2) deliver_ctx [OF d] by (auto simp: run_one_segment_def Let_def split: if_splits)
  with n assms(1) show ?thesis by (simp add: expected_bytes_def)
qed

section \<open>Properties\<close>




text \<open>
  A request for the range \<open>0..0\<close> marked as whole file, which the engine uses for its
  single-connection retry and for files of unknown size, can succeed only if the body has exactly one
  byte (modulo \<open>2^64\<close>).
\<close>

lemma unknown_size_accepts_one_byte_only:
  assumes "c_range c = \<lparr>r_start = 0, r_end = 0, resume_offset = 0, whole_file = True\<rparr>"
    and "ww_pool w = None" and "run_one_segment srv fd c w = (c', w')" and "c_succeeded c'"
  shows "of_nat (length (concat (map fst (t_buffers (srv None))))) = (1 :: u64)"
  using assms by (rule whole_file_request_needs_one_byte)

definition one_byte_server :: server where
  "one_byte_server hdr =
     \<lparr>t_init = True,
      t_buffers = [([7], \<lparr>cb_stop = False, cb_bandwidth = True, cb_pwrite = PwWritten 1\<rparr>)],
      t_ok = True, t_status = 200\<rparr>"

definition whole_ctx :: worker_ctx where
  "whole_ctx = make_ctx 1 [\<lparr>r_start = 0, r_end = 0, resume_offset = 0, whole_file = True\<rparr>] [] 0"

definition plain_world :: "unit wworld" where
  "plain_world = \<lparr>ww_fs = [''f'' \<mapsto> Regular []], ww_pool = None, ww_bytes = 0, ww_live = [],
     ww_ptrs = [], ww_cancel = False, ww_pause = False, ww_env = ()\<rparr>"

lemma one_byte_request:
  "c_succeeded (fst (run_one_segment one_byte_server ''f'' whole_ctx plain_world))"
  by (simp add: run_one_segment_def one_byte_server_def whole_ctx_def plain_world_def make_ctx_def
      worker_write_callback_def callback_window_def callback_commit_def file_pwrite_def bad_offset_def
      current_offset_def expected_bytes_def http_ok_def Let_def)


end
