(* ===== verification/Sha256.thy ===== *)
theory Sha256
  imports Cdm_Prelude
begin

unbundle bit_operations_syntax

text \<open>
  \<open>src/platform/sha256.c\<close>: the streaming SHA-256 used to verify finished downloads. The theory
  shows that the streaming functions compute the padded block-wise hash of the whole message, in
  whatever pieces it is fed and whatever the uninitialised buffer holds, and states the interface
  of a streaming hash as a locale for its client.
\<close>

definition ROTRIGHT :: "u32 \<Rightarrow> nat \<Rightarrow> u32" where
  "ROTRIGHT a b = drop_bit b a OR push_bit (32 - b) a"

definition CH :: "u32 \<Rightarrow> u32 \<Rightarrow> u32 \<Rightarrow> u32" where
  "CH x y z = (x AND y) XOR (NOT x AND z)"

definition MAJ :: "u32 \<Rightarrow> u32 \<Rightarrow> u32 \<Rightarrow> u32" where
  "MAJ x y z = (x AND y) XOR (x AND z) XOR (y AND z)"

definition EP0 :: "u32 \<Rightarrow> u32" where
  "EP0 x = ROTRIGHT x 2 XOR ROTRIGHT x 13 XOR ROTRIGHT x 22"

definition EP1 :: "u32 \<Rightarrow> u32" where
  "EP1 x = ROTRIGHT x 6 XOR ROTRIGHT x 11 XOR ROTRIGHT x 25"

definition SIG0 :: "u32 \<Rightarrow> u32" where
  "SIG0 x = ROTRIGHT x 7 XOR ROTRIGHT x 18 XOR drop_bit 3 x"

definition SIG1 :: "u32 \<Rightarrow> u32" where
  "SIG1 x = ROTRIGHT x 17 XOR ROTRIGHT x 19 XOR drop_bit 10 x"

definition k_table :: "u32 list" where
  "k_table = [
    1116352408, 1899447441, 3049323471, 3921009573, 961987163, 1508970993, 2453635748, 2870763221,
    3624381080, 310598401, 607225278, 1426881987, 1925078388, 2162078206, 2614888103, 3248222580,
    3835390401, 4022224774, 264347078, 604807628, 770255983, 1249150122, 1555081692, 1996064986,
    2554220882, 2821834349, 2952996808, 3210313671, 3336571891, 3584528711, 113926993, 338241895,
    666307205, 773529912, 1294757372, 1396182291, 1695183700, 1986661051, 2177026350, 2456956037,
    2730485921, 2820302411, 3259730800, 3345764771, 3516065817, 3600352804, 4094571909, 275423344,
    430227734, 506948616, 659060556, 883997877, 958139571, 1322822218, 1537002063, 1747873779,
    1955562222, 2024104815, 2227730452, 2361852424, 2428436474, 2756734187, 3204031479, 3329325298]"

record sha_ctx =
  sc_data :: "u8 list"       \<comment> \<open>64 bytes\<close>
  sc_datalen :: nat
  sc_bitlen :: u64
  sc_state :: "u32 list"     \<comment> \<open>8 words\<close>

section \<open>The transform\<close>

definition word_be :: "u8 list \<Rightarrow> nat \<Rightarrow> u32" where
  "word_be data j =
     push_bit 24 (ucast (data ! j)) OR push_bit 16 (ucast (data ! (j + 1))) OR
     push_bit 8 (ucast (data ! (j + 2))) OR ucast (data ! (j + 3))"

definition schedule :: "u8 list \<Rightarrow> u32 list" where
  "schedule data =
     foldl (\<lambda>m i. m @ [SIG1 (m ! (i - 2)) + m ! (i - 7) + SIG0 (m ! (i - 15)) + m ! (i - 16)])
       (map (\<lambda>i. word_be data (4 * i)) [0..<16]) [16..<64]"

text \<open>One round on the eight working variables \<open>[a, b, c, d, e, f, g, h]\<close>.\<close>

definition round_step :: "u32 list \<Rightarrow> u32 list \<Rightarrow> nat \<Rightarrow> u32 list" where
  "round_step m v i =
     (case v of
        [a, b, c, d, e, f, g, h] \<Rightarrow>
          let t1 = h + EP1 e + CH e f g + k_table ! i + m ! i;
              t2 = EP0 a + MAJ a b c
          in [t1 + t2, a, b, c, d + t1, e, f, g]
      | _ \<Rightarrow> v)"

definition sha256_transform :: "u32 list \<Rightarrow> u8 list \<Rightarrow> u32 list" where
  "sha256_transform state data =
     map2 (+) state (foldl (round_step (schedule data)) state [0..<64])"

section \<open>Streaming\<close>

definition sha256_iv :: "u32 list" where
  "sha256_iv = [0x6a09e667, 0xbb67ae85, 0x3c6ef372, 0xa54ff53a, 0x510e527f, 0x9b05688c,
     0x1f83d9ab, 0x5be0cd19]"

text \<open>\<open>sha256_init\<close> does not write the buffer: \<open>junk\<close> is what the context held.\<close>

definition sha256_init :: "u8 list \<Rightarrow> sha_ctx" where
  "sha256_init junk = \<lparr>sc_data = junk, sc_datalen = 0, sc_bitlen = 0, sc_state = sha256_iv\<rparr>"

definition update_byte :: "sha_ctx \<Rightarrow> u8 \<Rightarrow> sha_ctx" where
  "update_byte ctx b =
     (let data = (sc_data ctx)[sc_datalen ctx := b];
          n = sc_datalen ctx + 1
      in if n = 64
         then ctx\<lparr>sc_data := data, sc_datalen := 0, sc_bitlen := sc_bitlen ctx + 512,
                  sc_state := sha256_transform (sc_state ctx) data\<rparr>
         else ctx\<lparr>sc_data := data, sc_datalen := n\<rparr>)"

definition sha256_update :: "sha_ctx \<Rightarrow> u8 list \<Rightarrow> sha_ctx" where
  "sha256_update ctx data = foldl update_byte ctx data"

text \<open>\<open>while (i < lim) data[i++] = 0\<close>.\<close>

definition zero_to :: "u8 list \<Rightarrow> nat \<Rightarrow> nat \<Rightarrow> u8 list" where
  "zero_to data i lim = take i data @ replicate (lim - i) 0 @ drop (max i lim) data"

definition be64 :: "u64 \<Rightarrow> u8 list" where
  "be64 n = map (\<lambda>s. ucast (drop_bit s n)) [56, 48, 40, 32, 24, 16, 8, 0]"

definition be32 :: "u32 \<Rightarrow> u8 list" where
  "be32 x = map (\<lambda>s. ucast (drop_bit s x AND 0xff)) [24, 16, 8, 0]"

definition sha256_final :: "sha_ctx \<Rightarrow> u8 list" where
  "sha256_final ctx =
     (let i = sc_datalen ctx;
          marked = (sc_data ctx)[i := 0x80];
          (data, state) =
            (if i < 56 then (zero_to marked (i + 1) 56, sc_state ctx)
             else let full = zero_to marked (i + 1) 64
                  in (replicate 56 0 @ drop 56 full, sha256_transform (sc_state ctx) full));
          bitlen = sc_bitlen ctx + of_nat i * 8;
          block = take 56 data @ be64 bitlen
      in concat (map be32 (sha256_transform state block)))"

definition hex_digit :: "nat \<Rightarrow> char" where
  "hex_digit n = ''0123456789abcdef'' ! n"

definition sha256_to_hex :: "u8 list \<Rightarrow> string" where
  "sha256_to_hex hash =
     concat (map (\<lambda>b. [hex_digit (unat (drop_bit 4 b AND 0xF)), hex_digit (unat (b AND 0xF))]) hash)"

section \<open>The interface of a streaming hash\<close>

locale streaming_hash =
  fixes absorb :: "'c \<Rightarrow> 'b list \<Rightarrow> 'c"
  assumes absorb_nil: "absorb c [] = c"
    and absorb_append: "absorb (absorb c x) y = absorb c (x @ y)"
begin

text \<open>Feeding a message in pieces is feeding it at once.\<close>

lemma absorb_pieces: "foldl absorb c pieces = absorb c (concat pieces)"
  by (induction pieces arbitrary: c) (simp_all add: absorb_nil absorb_append)

lemma absorb_pieces_unique:
  "concat ps = concat qs \<Longrightarrow> foldl absorb c ps = foldl absorb c qs"
  by (simp add: absorb_pieces)

end

interpretation sha: streaming_hash sha256_update
  by unfold_locales (simp_all add: sha256_update_def)

section \<open>The reference\<close>

fun blocks64 :: "u8 list \<Rightarrow> u8 list list" where
  "blocks64 xs = (if length xs < 64 then [] else take 64 xs # blocks64 (drop 64 xs))"

declare blocks64.simps [simp del]

text \<open>The padding of FIPS 180-4: a one bit, zeros, and the length in bits.\<close>

definition sha_pad :: "u8 list \<Rightarrow> u8 list" where
  "sha_pad msg =
     msg @ [0x80] @ replicate ((119 - length msg mod 64) mod 64) 0 @ be64 (of_nat (length msg) * 8)"

definition sha256_reference :: "u8 list \<Rightarrow> u8 list" where
  "sha256_reference msg = concat (map be32 (foldl sha256_transform sha256_iv (blocks64 (sha_pad msg))))"

section \<open>Streaming computes the reference\<close>

lemma blocks64_short: "length ys < 64 \<Longrightarrow> blocks64 ys = []"
  by (simp add: blocks64.simps)

lemma blocks64_one: "length ys = 64 \<Longrightarrow> blocks64 ys = [ys]"
  by (subst blocks64.simps) (simp add: blocks64_short)

lemma blocks64_append: "64 dvd length xs \<Longrightarrow> blocks64 (xs @ ys) = blocks64 xs @ blocks64 ys"
proof (induction xs rule: blocks64.induct)
  case (1 xs)
  show ?case
  proof (cases "length xs < 64")
    case True
    with 1(2) have "length xs = 0" by (auto elim: dvdE)
    then show ?thesis by (simp add: blocks64_short)
  next
    case False
    have d: "64 dvd length (drop 64 xs)" using 1(2) False by (simp add: dvd_diff_nat)
    have "blocks64 (xs @ ys) = take 64 xs # blocks64 (drop 64 xs @ ys)"
      using False by (subst blocks64.simps) simp
    also have "\<dots> = take 64 xs # (blocks64 (drop 64 xs) @ blocks64 ys)" using 1(1) [OF False d] by simp
    also have "\<dots> = blocks64 xs @ blocks64 ys" using False by (subst (3) blocks64.simps) simp
    finally show ?thesis .
  qed
qed

text \<open>What the context holds after a message: \<open>A\<close> is the part already transformed.\<close>

definition sha_rep :: "u8 list \<Rightarrow> u8 list \<Rightarrow> sha_ctx \<Rightarrow> bool" where
  "sha_rep A R ctx \<longleftrightarrow>
     64 dvd length A \<and> length R < 64 \<and> length (sc_data ctx) = 64 \<and> sc_datalen ctx = length R \<and>
     take (length R) (sc_data ctx) = R \<and> sc_bitlen ctx = of_nat (length A) * 8 \<and>
     sc_state ctx = foldl sha256_transform sha256_iv (blocks64 A)"

lemma sha_rep_byte:
  assumes "sha_rep A R ctx"
  shows "\<exists>A' R'. A' @ R' = (A @ R) @ [b] \<and> sha_rep A' R' (update_byte ctx b)"
proof -
  let ?data = "(sc_data ctx)[length R := b]"
  have r: "length R < 64" "length ?data = 64" "take (Suc (length R)) ?data = R @ [b]"
    using assms by (auto simp: sha_rep_def take_Suc_conv_app_nth)
  show ?thesis
  proof (cases "length R = 63")
    case False
    with assms r have "sha_rep A (R @ [b]) (update_byte ctx b)"
      by (auto simp: sha_rep_def update_byte_def Let_def)
    then show ?thesis by (intro exI [of _ A] exI [of _ "R @ [b]"]) simp
  next
    case True
    then have data: "?data = R @ [b]" using r by simp
    have len: "64 dvd length (A @ R @ [b])" using assms True by (auto simp: sha_rep_def)
    have "blocks64 (A @ R @ [b]) = blocks64 A @ [R @ [b]]"
      using assms True by (simp add: sha_rep_def blocks64_append blocks64_one)
    moreover have "sc_datalen ctx = 63" using assms True by (simp add: sha_rep_def)
    ultimately have "sha_rep (A @ R @ [b]) [] (update_byte ctx b)"
      using assms True data len by (auto simp: sha_rep_def update_byte_def Let_def algebra_simps)
    then show ?thesis by (intro exI [of _ "A @ R @ [b]"] exI [of _ "[]"]) simp
  qed
qed

lemma sha_rep_update:
  assumes "length junk = 64"
  shows "\<exists>A R. msg = A @ R \<and> sha_rep A R (sha256_update (sha256_init junk) msg)"
proof (induction msg rule: rev_induct)
  case Nil
  have "sha_rep [] [] (sha256_init junk)"
    using assms by (simp add: sha_rep_def sha256_init_def blocks64_short)
  then show ?case by (auto simp: sha256_update_def)
next
  case (snoc b msg)
  then obtain A R where "msg = A @ R" "sha_rep A R (sha256_update (sha256_init junk) msg)" by auto
  from sha_rep_byte [OF this(2), of b] this(1) obtain A' R' where
    "A' @ R' = msg @ [b]" "sha_rep A' R' (update_byte (sha256_update (sha256_init junk) msg) b)" by auto
  then show ?case by (intro exI [of _ A'] exI [of _ R']) (simp add: sha256_update_def)
qed

lemma zero_count_short: "r < 56 \<Longrightarrow> (119 - r) mod 64 = 55 - (r :: nat)"
proof -
  assume "r < 56"
  then have "119 - r = (55 - r) + 64" by simp
  then have "(119 - r) mod 64 = (55 - r) mod 64" by (simp only: mod_add_self2)
  then show ?thesis by simp
qed

lemma sha_final_short:
  assumes rep: "sha_rep A R ctx" and r: "length R < 56"
  shows "sha256_final ctx = sha256_reference (A @ R)"
proof -
  let ?n = "length R"
  let ?block = "R @ [0x80] @ replicate (55 - ?n) 0 @ be64 (of_nat (length (A @ R)) * 8)"
  have d: "64 dvd length A" "length (sc_data ctx) = 64" "take ?n (sc_data ctx) = R" "sc_datalen ctx = ?n"
    "sc_bitlen ctx = of_nat (length A) * 8" "sc_state ctx = foldl sha256_transform sha256_iv (blocks64 A)"
    using rep by (auto simp: sha_rep_def)
  have m: "length (A @ R) mod 64 = ?n" using d(1) r by (auto simp: mod_add_left_eq elim: dvdE)
  then have pad: "sha_pad (A @ R) = A @ ?block" using zero_count_short [OF r] by (simp add: sha_pad_def)
  have "length ?block = 64" using r by (simp add: be64_def)
  then have ref: "sha256_reference (A @ R) = concat (map be32 (sha256_transform (sc_state ctx) ?block))"
    unfolding sha256_reference_def pad using d by (simp add: blocks64_append blocks64_one del: append_assoc)
  have "take (Suc ?n) ((sc_data ctx)[?n := 0x80]) = R @ [0x80]"
    using d r by (simp add: take_Suc_conv_app_nth)
  then have z: "take 56 (zero_to ((sc_data ctx)[?n := 0x80]) (?n + 1) 56) = R @ [0x80] @ replicate (55 - ?n) 0"
    using r d by (simp add: zero_to_def take_Cons')
  have bits: "sc_bitlen ctx + of_nat ?n * 8 = of_nat (length (A @ R)) * 8"
    unfolding d by (simp add: algebra_simps)
  have "sha256_final ctx =
      concat (map be32 (sha256_transform (sc_state ctx)
        (take 56 (zero_to ((sc_data ctx)[?n := 0x80]) (?n + 1) 56) @ be64 (sc_bitlen ctx + of_nat ?n * 8))))"
    using r d(4) by (simp add: sha256_final_def Let_def)
  then show ?thesis unfolding z bits ref by simp
qed

lemma sha_final_long:
  assumes rep: "sha_rep A R ctx" and r: "\<not> length R < 56"
  shows "sha256_final ctx = sha256_reference (A @ R)"
proof -
  let ?n = "length R"
  let ?full = "R @ [0x80] @ replicate (63 - ?n) 0"
  let ?block = "replicate 56 0 @ be64 (of_nat (length (A @ R)) * 8)"
  have n: "?n < 64" using rep by (simp add: sha_rep_def)
  have d: "64 dvd length A" "length (sc_data ctx) = 64" "take ?n (sc_data ctx) = R" "sc_datalen ctx = ?n"
    "sc_bitlen ctx = of_nat (length A) * 8" "sc_state ctx = foldl sha256_transform sha256_iv (blocks64 A)"
    using rep by (auto simp: sha_rep_def)
  have m: "length (A @ R) mod 64 = ?n" using d(1) n by (auto simp: mod_add_left_eq elim: dvdE)
  have z: "(119 - ?n) mod 64 = (63 - ?n) + 56" using r n by simp
  have pad: "sha_pad (A @ R) = A @ ?full @ ?block"
    unfolding sha_pad_def m z replicate_add by simp
  have l: "length ?full = 64" "length ?block = 64" using n by (auto simp: be64_def)
  then have "blocks64 (?full @ ?block) = [?full, ?block]"
    by (simp add: blocks64_append blocks64_one del: append_assoc append_Cons append_Nil)
  then have ref: "sha256_reference (A @ R) =
      concat (map be32 (sha256_transform (sha256_transform (sc_state ctx) ?full) ?block))"
    unfolding sha256_reference_def pad using d by (simp add: blocks64_append del: append_assoc)
  have "take (Suc ?n) ((sc_data ctx)[?n := 0x80]) = R @ [0x80]"
    using d n by (simp add: take_Suc_conv_app_nth)
  then have full: "zero_to ((sc_data ctx)[?n := 0x80]) (?n + 1) 64 = ?full"
    using n d by (simp add: zero_to_def)
  have bits: "sc_bitlen ctx + of_nat ?n * 8 = of_nat (length (A @ R)) * 8"
    unfolding d by (simp add: algebra_simps)
  have "sha256_final ctx =
      concat (map be32 (sha256_transform
        (sha256_transform (sc_state ctx) (zero_to ((sc_data ctx)[?n := 0x80]) (?n + 1) 64))
        (replicate 56 0 @ be64 (sc_bitlen ctx + of_nat ?n * 8))))"
    using r d(4) by (simp add: sha256_final_def Let_def)
  then show ?thesis unfolding full bits ref .
qed

lemma sha256_streaming_reference:
  "length junk = 64 \<Longrightarrow> sha256_final (sha256_update (sha256_init junk) msg) = sha256_reference msg"
  using sha_rep_update [of junk msg] sha_final_short sha_final_long by blast

section \<open>The digest and its text\<close>

lemma length_round_step: "length v = 8 \<Longrightarrow> length (round_step m v i) = 8"
  by (auto simp: round_step_def Let_def split: list.splits)

lemma length_rounds: "length v = 8 \<Longrightarrow> length (foldl (round_step m) v is) = 8"
  by (induction "is" arbitrary: v) (auto simp: length_round_step)

lemma length_transform: "length st = 8 \<Longrightarrow> length (sha256_transform st data) = 8"
  by (simp add: sha256_transform_def length_rounds)

lemma length_transforms: "length st = 8 \<Longrightarrow> length (foldl sha256_transform st bs) = 8"
  by (induction bs arbitrary: st) (auto simp: length_transform)

lemma length_concat_const: "(\<And>x. length (f x) = n) \<Longrightarrow> length (concat (map f xs)) = n * length xs"
  by (induction xs) auto

lemma length_reference: "length (sha256_reference msg) = 32"
proof -
  have "length (foldl sha256_transform sha256_iv (blocks64 (sha_pad msg))) = 8"
    by (rule length_transforms) (simp add: sha256_iv_def)
  then show ?thesis unfolding sha256_reference_def
    by (subst length_concat_const [where n = 4]) (auto simp: be32_def)
qed

lemma length_to_hex: "length (sha256_to_hex h) = 2 * length h"
  unfolding sha256_to_hex_def by (subst length_concat_const [where n = 2]) auto

end
