(* ===== verification/Finalize.thy ===== *)
theory Finalize
  imports Sha256 File_Io
begin

text \<open>
  \<open>src/engine/finalize.c\<close>: the checks on a finished file, its size and its SHA-256. The hash is
  used through the streaming interface; the result is characterised by the reference hash of the
  whole content.
\<close>

definition HASH_READ_BUF_SIZE :: nat where
  "HASH_READ_BUF_SIZE = 65536"

fun hex_equals_ci :: "string \<Rightarrow> string \<Rightarrow> bool" where
  "hex_equals_ci (a # as) (b # bs) = (if to_lower a \<noteq> to_lower b then False else hex_equals_ci as bs)"
| "hex_equals_ci as bs = (as = [] \<and> bs = [])"

text \<open>The buffers \<open>fread\<close> fills from a file of this content.\<close>

function (sequential) read_pieces :: "u8 list \<Rightarrow> u8 list list" where
  "read_pieces [] = []"
| "read_pieces c = take HASH_READ_BUF_SIZE c # read_pieces (drop HASH_READ_BUF_SIZE c)"
  by pat_completeness auto
termination
  by (relation "measure length") (auto simp: HASH_READ_BUF_SIZE_def)

text \<open>\<open>None\<close> is the result \<open>-1\<close>; \<open>junk\<close> is the uninitialised hash context.\<close>

definition compute_sha256_hex :: "kernel \<Rightarrow> u8 list \<Rightarrow> string \<Rightarrow> fs \<Rightarrow> string option" where
  "compute_sha256_hex K junk path fs =
     (if k_fault K SysOpen path \<noteq> None then None
      else case fs path of
             Some (Regular c) \<Rightarrow>
               if k_fault K SysRead path \<noteq> None then None
               else Some (sha256_to_hex (sha256_final
                       (foldl sha256_update (sha256_init junk) (read_pieces c))))
           | _ \<Rightarrow> None)"

definition engine_finalize :: "kernel \<Rightarrow> u8 list \<Rightarrow> string \<Rightarrow> u64 \<Rightarrow> string option \<Rightarrow> fs \<Rightarrow> int" where
  "engine_finalize K junk dest_path expected_size expected_sha256_hex fs =
     (if expected_size \<noteq> 0 \<and> file_get_size K dest_path fs \<noteq> expected_size then -1
      else case expected_sha256_hex of
             None \<Rightarrow> 0
           | Some expected \<Rightarrow>
               if expected = [] then 0
               else (case compute_sha256_hex K junk dest_path fs of
                       None \<Rightarrow> -1
                     | Some actual \<Rightarrow> if \<not> hex_equals_ci actual expected then -1 else 0))"

section \<open>Lemmas\<close>

lemma hex_equals_ci_iff: "hex_equals_ci a b \<longleftrightarrow> map to_lower a = map to_lower b"
  by (induction a b rule: hex_equals_ci.induct) auto

lemma concat_read_pieces: "concat (read_pieces c) = c"
  by (induction c rule: read_pieces.induct) auto

lemma compute_sha256_hex_reference:
  assumes "length junk = 64" and "compute_sha256_hex K junk path fs = Some h"
  shows "\<exists>c. fs path = Some (Regular c) \<and> h = sha256_to_hex (sha256_reference c)"
  using assms sha256_streaming_reference [OF assms(1)]
  by (auto simp: compute_sha256_hex_def sha.absorb_pieces concat_read_pieces
      split: option.splits inode.splits if_splits)

section \<open>Properties\<close>

text \<open>
  A finished download passes exactly when its size is the announced one (if any) and, if a digest
  was given, the file can be read and its SHA-256, computed over the whole content in 64 KiB pieces,
  is that digest up to the case of the letters.
\<close>

lemma finalize_accepts_iff:
  assumes "length junk = 64" and "fs path = Some (Regular c)" and "\<forall>s. k_fault K s path = None"
  shows "engine_finalize K junk path sz dg fs = 0 \<longleftrightarrow>
    (sz \<noteq> 0 \<longrightarrow> of_nat (length c) = sz) \<and>
    (case dg of None \<Rightarrow> True
     | Some h \<Rightarrow> h = [] \<or> map to_lower (sha256_to_hex (sha256_reference c)) = map to_lower h)"
  using assms sha256_streaming_reference [OF assms(1)]
  by (auto simp: engine_finalize_def compute_sha256_hex_def file_get_size_def sha.absorb_pieces
      concat_read_pieces hex_equals_ci_iff split: option.splits)

text \<open>
  C27: The streaming SHA-256 does not depend on how the message is cut into pieces nor on the
  uninitialised buffer: it is the padded block-wise hash of the concatenation, 32 bytes long and 64
  hexadecimal digits as text.
\<close>

theorem sha256_streams:
  assumes "length junk = 64"
  shows "sha256_final (foldl sha256_update (sha256_init junk) pieces) = sha256_reference (concat pieces) \<and>
    length (sha256_final (foldl sha256_update (sha256_init junk) pieces)) = 32 \<and>
    length (sha256_to_hex (sha256_final (foldl sha256_update (sha256_init junk) pieces))) = 64"
  using sha256_streaming_reference [OF assms, of "concat pieces"]
  by (simp add: sha.absorb_pieces length_reference length_to_hex)

theorem sha256_streams_witness:
  "sha256_final (foldl sha256_update (sha256_init (replicate 64 9)) [[1], [2, 3]]) = sha256_reference [1, 2, 3]"
  using sha256_streams [of "replicate 64 9" "[[1], [2, 3]]"] by simp

end
