(* ===== verification/Curl_Client.thy ===== *)
theory Curl_Client
  imports Cdm_Prelude
begin

text \<open>
  \<open>src/platform/curl_client.c\<close>: the HEAD request that asks for size and range support, and the
  list of extra request headers. libcurl is a parameter: a HEAD exchange is the header lines it
  hands to the callback, the result code, the status and the content length.
\<close>

record file_info =
  fi_total_size :: u64
  fi_supports_ranges :: bool

text \<open>\<open>strncasecmp(a, b, n) == 0\<close> on strings of at least \<open>n\<close> characters.\<close>

definition strncaseeq :: "string \<Rightarrow> string \<Rightarrow> nat \<Rightarrow> bool" where
  "strncaseeq a b n \<longleftrightarrow> map to_lower (take n a) = map to_lower (take n b)"

definition head_header_callback :: "string \<Rightarrow> file_info \<Rightarrow> file_info" where
  "head_header_callback line info =
     (if length line \<ge> 19 \<and> strncaseeq line ''Accept-Ranges: bytes'' 19
      then info\<lparr>fi_supports_ranges := True\<rparr> else info)"

record head_exchange =
  h_init :: bool
  h_lines :: "string list"
  h_ok :: bool
  h_status :: int
  h_content_length :: int

definition curl_client_head :: "head_exchange \<Rightarrow> int \<times> file_info" where
  "curl_client_head h =
     (let zero = \<lparr>fi_total_size = 0, fi_supports_ranges = False\<rparr>
      in if \<not> h_init h then (-1, zero)
         else let info = fold head_header_callback (h_lines h) zero;
                  good = (h_ok h \<and> 200 \<le> h_status h \<and> h_status h < 300)
              in if good
                 then (0, info\<lparr>fi_total_size := (if h_content_length h > 0 then word_of_int (h_content_length h) else 0)\<rparr>)
                 else (-1, info))"

text \<open>\<open>strtok_r(buf, "\n")\<close>: the non-empty pieces between newlines.\<close>

fun split_lines :: "string \<Rightarrow> string list" where
  "split_lines [] = [[]]"
| "split_lines (c # cs) =
     (if c = CHR 10 then [] # split_lines cs
      else (case split_lines cs of l # ls \<Rightarrow> (c # l) # ls | [] \<Rightarrow> [[c]]))"

definition tokens :: "string \<Rightarrow> string list" where
  "tokens s = filter (\<lambda>l. l \<noteq> []) (split_lines s)"

definition strip_cr :: "string \<Rightarrow> string" where
  "strip_cr line = (if line \<noteq> [] \<and> last line = CHR 13 then butlast line else line)"

definition curl_client_build_headers :: "string \<Rightarrow> string list" where
  "curl_client_build_headers extra =
     (if extra = [] then []
      else filter (\<lambda>l. l \<noteq> []) (map strip_cr (tokens (strncpy_buf 4096 extra))))"

section \<open>Lemmas\<close>

lemma split_lines_ne: "split_lines s \<noteq> []"
  by (induction s) (auto split: list.splits)

lemma split_lines_no_newline: "l \<in> set (split_lines s) \<Longrightarrow> CHR 10 \<notin> set l"
  by (induction s arbitrary: l) (auto split: if_splits list.splits)

lemma head_lines_size [simp]: "fi_total_size (fold head_header_callback ls info) = fi_total_size info"
  by (induction ls arbitrary: info) (simp_all add: head_header_callback_def)

text \<open>No header line carries a line break into the request.\<close>

lemma build_headers_lines:
  "h \<in> set (curl_client_build_headers extra) \<Longrightarrow> h \<noteq> [] \<and> CHR 10 \<notin> set h"
  by (auto simp: curl_client_build_headers_def tokens_def strip_cr_def split: if_splits
      dest: split_lines_no_newline in_set_butlastD)

section \<open>Properties\<close>

text \<open>
  The extra headers of a request are non-empty lines without line breaks, so the stored text
  cannot split a header line in two; and a HEAD answer outside 2xx, or a failed exchange, is an
  error.
\<close>

lemma request_metadata_is_clean:
  "(h \<in> set (curl_client_build_headers extra) \<longrightarrow> h \<noteq> [] \<and> CHR 10 \<notin> set h) \<and>
   (fst (curl_client_head e) = 0 \<longleftrightarrow> h_init e \<and> h_ok e \<and> 200 \<le> h_status e \<and> h_status e < 300)"
  using build_headers_lines by (auto simp: curl_client_head_def Let_def)

end
