(* ===== verification/Queue_Manager.thy ===== *)
theory Queue_Manager
  imports Os_Model Segmenter
begin

text \<open>
  \<open>src/core/queue_manager.c\<close> and \<open>queue_manager.h\<close>: the in-memory download queue. The
  linked list \<open>g_head\<close> is a list, newest entry first; every function that takes
  \<open>g_mutex\<close> is one atomic operation on the state. A \<open>Download *\<close> handed out to a worker is
  followed through its id: a write through the pointer is an update of the first entry with that
  id. The theory holds the data model, the operations, the check of the destination path, the
  invariant of the queue along every sequence of operations, and the choice of the next download.
\<close>

section \<open>Data\<close>

record request_options =
  ro_cookie :: string
  ro_referrer :: string
  ro_extra_headers :: string
  ro_expected_sha256 :: string
  ro_speed_limit_bps :: u64

record download_chunk =
  range_start :: u64
  range_end :: u64          \<comment> \<open>inclusive\<close>
  bytes_done :: u64

datatype download_status =
    DOWNLOAD_QUEUED | DOWNLOAD_ACTIVE | DOWNLOAD_PAUSED | DOWNLOAD_DONE | DOWNLOAD_ERROR
  | DOWNLOAD_CANCELED

definition QM_MAX_CHUNKS :: nat where
  "QM_MAX_CHUNKS = 8"

record download =
  dl_id :: u32
  dl_url :: string
  dl_dest_path :: string
  dl_total_size :: u64
  dl_status :: download_status
  dl_priority :: int
  dl_progress :: rat
  dl_cancel_requested :: bool
  dl_pause_requested :: bool
  dl_bytes_downloaded :: u64
  dl_chunk_live_bytes :: "u64 list"       \<comment> \<open>\<open>QM_MAX_CHUNKS\<close> entries\<close>
  dl_chunks :: "download_chunk list"      \<comment> \<open>\<open>QM_MAX_CHUNKS\<close> entries\<close>
  dl_chunk_count :: nat
  dl_reserved_file :: bool
  dl_retry_count :: int
  dl_next_retry_at :: int
  dl_request :: "request_options option"

record qm_state =
  g_head :: "download list"
  g_next_id :: u32

definition qm_init :: qm_state where
  "qm_init = \<lparr>g_head = [], g_next_id = 1\<rparr>"

definition zero_chunk :: download_chunk where
  "zero_chunk = \<lparr>range_start = 0, range_end = 0, bytes_done = 0\<rparr>"

text \<open>\<open>calloc(1, sizeof(Download))\<close>.\<close>

definition zero_download :: download where
  "zero_download =
     \<lparr>dl_id = 0, dl_url = [], dl_dest_path = [], dl_total_size = 0, dl_status = DOWNLOAD_QUEUED,
      dl_priority = 0, dl_progress = 0, dl_cancel_requested = False, dl_pause_requested = False,
      dl_bytes_downloaded = 0, dl_chunk_live_bytes = replicate QM_MAX_CHUNKS 0,
      dl_chunks = replicate QM_MAX_CHUNKS zero_chunk, dl_chunk_count = 0,
      dl_reserved_file = False, dl_retry_count = 0, dl_next_retry_at = 0, dl_request = None\<rparr>"

definition request_options_present :: "request_options option \<Rightarrow> bool" where
  "request_options_present opts \<longleftrightarrow>
     (case opts of
        None \<Rightarrow> False
      | Some r \<Rightarrow> ro_cookie r \<noteq> [] \<or> ro_referrer r \<noteq> [] \<or> ro_extra_headers r \<noteq> [] \<or>
                  ro_expected_sha256 r \<noteq> [] \<or> ro_speed_limit_bps r \<noteq> 0)"

section \<open>Destination paths\<close>

definition get_allowed_root :: "kernel \<Rightarrow> string" where
  "get_allowed_root K =
     (case k_getenv K ''DOWNLOADMGR_ROOT'' of
        Some configured \<Rightarrow> configured
      | None \<Rightarrow> (case k_getenv K ''HOME'' of Some home \<Rightarrow> home | None \<Rightarrow> ''/tmp''))"

text \<open>
  The loop \<open>while (realpath(temp_dir, resolved_dir) == NULL)\<close>. \<open>temp'\<close> is the buffer after
  \<open>dirname(temp_dir)\<close>: the comparison \<open>strcmp(parent, temp_dir)\<close> reads the modified buffer.
\<close>

function resolve_existing :: "kernel \<Rightarrow> string \<Rightarrow> string option" where
  "resolve_existing K temp =
     (case k_realpath K temp of
        Inr resolved \<Rightarrow> Some resolved
      | Inl e \<Rightarrow>
          if e \<noteq> ENOENT then None
          else let (temp', parent) = dirname_inplace temp
               in if parent = temp' \<or> parent = ''.'' \<or> parent = ''/'' then None
                  else resolve_existing K (strncpy_buf 1024 (strncpy_buf 1024 parent)))"
  by pat_completeness auto
termination
  by (relation "{}") (auto dest: dirname_inplace_cases sym)

declare resolve_existing.simps [simp del]

definition is_safe_dest_path :: "kernel \<Rightarrow> string \<Rightarrow> bool" where
  "is_safe_dest_path K path \<longleftrightarrow>
     path \<noteq> [] \<and> length path < 900 \<and>
     (let dir = snd (dirname_inplace (strncpy_buf 1024 path))
      in case resolve_existing K (strncpy_buf 1024 dir) of
           None \<Rightarrow> False
         | Some resolved_dir \<Rightarrow>
             (case k_realpath K (get_allowed_root K) of
                Inl _ \<Rightarrow> False
              | Inr resolved_root \<Rightarrow>
                  starts_with resolved_root resolved_dir \<and>
                  (length resolved_dir = length resolved_root \<or>
                   resolved_dir ! length resolved_root = CHR ''/'') \<and>
                  (let base = basename_of_path (strncpy_buf 1024 path)
                   in CHR ''/'' \<notin> set base \<and> base \<noteq> ''..'' \<and> base \<noteq> ''.'')))"

section \<open>Operations\<close>

abbreviation has_id :: "u32 \<Rightarrow> download \<Rightarrow> bool" where
  "has_id i d \<equiv> dl_id d = i"

text \<open>Change the entry with a given id (the \<open>for ... if (cur->id == id) ... break\<close> loops).\<close>

definition qm_update :: "u32 \<Rightarrow> (download \<Rightarrow> download) \<Rightarrow> qm_state \<Rightarrow> qm_state" where
  "qm_update i f s = s\<lparr>g_head := upd_first (has_id i) f (g_head s)\<rparr>"

definition queue_manager_add ::
  "kernel \<Rightarrow> string \<Rightarrow> string \<Rightarrow> request_options option \<Rightarrow> qm_state \<Rightarrow> u32 \<times> qm_state" where
  "queue_manager_add K url dest_path opts s =
     (if \<not> is_safe_dest_path K dest_path then (0, s)
      else if \<not> k_alloc K ''Download'' then (0, s)
      else if request_options_present opts \<and> \<not> k_alloc K ''RequestOptions'' then (0, s)
      else let d = zero_download\<lparr>dl_url := strncpy_buf 2048 url,
                     dl_dest_path := strncpy_buf 1024 dest_path,
                     dl_request := (if request_options_present opts then opts else None),
                     dl_status := DOWNLOAD_QUEUED, dl_priority := 0, dl_id := g_next_id s\<rparr>
           in (g_next_id s, s\<lparr>g_next_id := g_next_id s + 1, g_head := d # g_head s\<rparr>))"

definition queue_manager_add_existing :: "download \<Rightarrow> qm_state \<Rightarrow> qm_state" where
  "queue_manager_add_existing d s =
     s\<lparr>g_next_id := (if dl_id d \<ge> g_next_id s then dl_id d + 1 else g_next_id s),
       g_head := d # g_head s\<rparr>"

definition queue_manager_seed_next_id :: "u32 \<Rightarrow> qm_state \<Rightarrow> qm_state" where
  "queue_manager_seed_next_id min_next_id s =
     s\<lparr>g_next_id := (if min_next_id > g_next_id s then min_next_id else g_next_id s)\<rparr>"

definition queue_manager_remove :: "kernel \<Rightarrow> u32 \<Rightarrow> qm_state \<Rightarrow> fs \<Rightarrow> qm_state \<times> fs" where
  "queue_manager_remove K i s fs =
     (case find (has_id i) (g_head s) of
        None \<Rightarrow> (s, fs)
      | Some cur \<Rightarrow>
          if dl_status cur = DOWNLOAD_ACTIVE
          then (qm_update i (\<lambda>d. d\<lparr>dl_cancel_requested := True\<rparr>) s, fs)
          else (s\<lparr>g_head := del_first (has_id i) (g_head s)\<rparr>,
                if dl_dest_path cur \<noteq> [] then sys_unlink K (dl_dest_path cur) fs else fs))"

definition queue_manager_find_by_id :: "u32 \<Rightarrow> qm_state \<Rightarrow> download option" where
  "queue_manager_find_by_id i s = find (has_id i) (g_head s)"

text \<open>One iteration of the loop of \<open>queue_manager_find_next_queued\<close>.\<close>

definition next_queued_step :: "int \<Rightarrow> download option \<Rightarrow> download \<Rightarrow> download option" where
  "next_queued_step now best cur =
     (if dl_status cur \<noteq> DOWNLOAD_QUEUED then best
      else if dl_next_retry_at cur \<noteq> 0 \<and> dl_next_retry_at cur > now then best
      else case best of
             None \<Rightarrow> Some cur
           | Some b \<Rightarrow> if dl_priority cur > dl_priority b then Some cur else best)"

definition queue_manager_find_next_queued :: "int \<Rightarrow> qm_state \<Rightarrow> download option" where
  "queue_manager_find_next_queued now s = foldl (next_queued_step now) None (g_head s)"

definition queue_manager_count_by_status :: "download_status \<Rightarrow> qm_state \<Rightarrow> nat" where
  "queue_manager_count_by_status st s =
     foldl (\<lambda>count cur. if dl_status cur = st then Suc count else count) 0 (g_head s)"

definition queue_manager_get_status :: "u32 \<Rightarrow> qm_state \<Rightarrow> download_status option" where
  "queue_manager_get_status i s = map_option dl_status (find (has_id i) (g_head s))"

record runtime_snapshot =
  rs_status :: download_status
  rs_total_size :: u64
  rs_bytes_downloaded :: u64
  rs_dest_path :: string
  rs_chunk_count :: nat
  rs_chunks :: "download_chunk list"

definition queue_manager_get_runtime_snapshot :: "u32 \<Rightarrow> qm_state \<Rightarrow> runtime_snapshot option" where
  "queue_manager_get_runtime_snapshot i s =
     (case find (has_id i) (g_head s) of
        None \<Rightarrow> None
      | Some cur \<Rightarrow>
          let n = (if dl_chunk_count cur > QM_MAX_CHUNKS then QM_MAX_CHUNKS
                   else dl_chunk_count cur)
          in Some \<lparr>rs_status = dl_status cur, rs_total_size = dl_total_size cur,
                   rs_bytes_downloaded = dl_bytes_downloaded cur,
                   rs_dest_path = dl_dest_path cur, rs_chunk_count = n,
                   rs_chunks = take n (dl_chunks cur)\<rparr>)"

text \<open>The two snapshot loops: \<open>room\<close> is \<open>max - n\<close>.\<close>

fun snapshot_active_loop :: "nat \<Rightarrow> download list \<Rightarrow> (u32 \<times> u64 \<times> u64) list" where
  "snapshot_active_loop room [] = []"
| "snapshot_active_loop room (cur # rest) =
     (if room = 0 then []
      else if dl_status cur = DOWNLOAD_ACTIVE
      then (dl_id cur, dl_bytes_downloaded cur, dl_total_size cur)
           # snapshot_active_loop (room - 1) rest
      else snapshot_active_loop room rest)"

definition queue_manager_snapshot_active_progress :: "nat \<Rightarrow> qm_state \<Rightarrow> (u32 \<times> u64 \<times> u64) list" where
  "queue_manager_snapshot_active_progress max_n s = snapshot_active_loop max_n (g_head s)"

definition chunk_snapshots :: "download \<Rightarrow> (u32 \<times> u64 \<times> u64) list" where
  "chunk_snapshots cur =
     map (\<lambda>j. (dl_id cur, range_start (dl_chunks cur ! j), dl_chunk_live_bytes cur ! j))
         [0..<dl_chunk_count cur]"

fun snapshot_chunk_loop :: "nat \<Rightarrow> download list \<Rightarrow> (u32 \<times> u64 \<times> u64) list" where
  "snapshot_chunk_loop room [] = []"
| "snapshot_chunk_loop room (cur # rest) =
     (if room = 0 then []
      else if dl_status cur \<noteq> DOWNLOAD_ACTIVE then snapshot_chunk_loop room rest
      else let here = take room (chunk_snapshots cur)
           in here @ snapshot_chunk_loop (room - length here) rest)"

definition queue_manager_snapshot_chunk_progress :: "nat \<Rightarrow> qm_state \<Rightarrow> (u32 \<times> u64 \<times> u64) list" where
  "queue_manager_snapshot_chunk_progress max_n s = snapshot_chunk_loop max_n (g_head s)"

definition queue_manager_update_status :: "u32 \<Rightarrow> download_status \<Rightarrow> qm_state \<Rightarrow> qm_state" where
  "queue_manager_update_status i st s = qm_update i (\<lambda>d. d\<lparr>dl_status := st\<rparr>) s"

definition queue_manager_cancel :: "u32 \<Rightarrow> qm_state \<Rightarrow> bool \<times> qm_state" where
  "queue_manager_cancel i s =
     (case find (has_id i) (g_head s) of
        None \<Rightarrow> (False, s)
      | Some cur \<Rightarrow>
          if dl_status cur = DOWNLOAD_ACTIVE
          then (True, qm_update i (\<lambda>d. d\<lparr>dl_cancel_requested := True\<rparr>) s)
          else (False, qm_update i (\<lambda>d. d\<lparr>dl_status := DOWNLOAD_CANCELED\<rparr>) s))"

definition clear_resume :: "download \<Rightarrow> download" where
  "clear_resume d =
     d\<lparr>dl_chunks := replicate QM_MAX_CHUNKS zero_chunk, dl_chunk_count := 0, dl_total_size := 0,
       dl_progress := 0, dl_retry_count := 0, dl_next_retry_at := 0, dl_bytes_downloaded := 0,
       dl_chunk_live_bytes := replicate QM_MAX_CHUNKS 0\<rparr>"

definition queue_manager_clear_resume_state :: "u32 \<Rightarrow> qm_state \<Rightarrow> qm_state" where
  "queue_manager_clear_resume_state i s = qm_update i clear_resume s"

definition queue_manager_pause :: "u32 \<Rightarrow> qm_state \<Rightarrow> bool \<times> qm_state" where
  "queue_manager_pause i s =
     (case find (has_id i) (g_head s) of
        None \<Rightarrow> (False, s)
      | Some cur \<Rightarrow>
          if dl_status cur = DOWNLOAD_ACTIVE
          then (True, qm_update i (\<lambda>d. d\<lparr>dl_pause_requested := True\<rparr>) s)
          else if dl_status cur = DOWNLOAD_QUEUED
          then (False, qm_update i (\<lambda>d. d\<lparr>dl_status := DOWNLOAD_PAUSED\<rparr>) s)
          else (False, s))"

definition queue_manager_resume :: "u32 \<Rightarrow> qm_state \<Rightarrow> bool \<times> qm_state" where
  "queue_manager_resume i s =
     (case find (has_id i) (g_head s) of
        None \<Rightarrow> (False, s)
      | Some cur \<Rightarrow>
          if dl_status cur = DOWNLOAD_PAUSED \<or> dl_status cur = DOWNLOAD_ERROR
          then (True, qm_update i (\<lambda>d. d\<lparr>dl_pause_requested := False, dl_cancel_requested := False,
                        dl_retry_count := 0, dl_next_retry_at := 0,
                        dl_status := DOWNLOAD_QUEUED\<rparr>) s)
          else (False, s))"

section \<open>The interface to the worker threads and the IPC layer\<close>

text \<open>
  What the clients of the queue rely on: an entry is looked up by its id, and an update through an
  id changes that entry and no other. The scheduler, the engine and the IPC layer all work
  through this interface.
\<close>

locale id_store =
  fixes lookup :: "'s \<Rightarrow> 'k \<Rightarrow> 'a option"
    and update :: "'k \<Rightarrow> ('a \<Rightarrow> 'a) \<Rightarrow> 's \<Rightarrow> 's"
    and key :: "'a \<Rightarrow> 'k"
  assumes lookup_key: "lookup s k = Some x \<Longrightarrow> key x = k"
    and lookup_update: "(\<And>x. key (f x) = key x) \<Longrightarrow>
      lookup (update k f s) j = (if j = k then map_option f (lookup s k) else lookup s j)"
begin

lemma lookup_update_fuse:
  assumes "\<And>x. key (f x) = key x" and "\<And>x. key (g x) = key x"
  shows "lookup (update k f (update k g s)) j = lookup (update k (f \<circ> g) s) j"
proof -
  have "\<And>x. key ((f \<circ> g) x) = key x" using assms by simp
  then show ?thesis
    using assms by (simp add: lookup_update option.map_comp)
qed

lemma lookup_update_None_iff:
  assumes "\<And>x. key (f x) = key x"
  shows "lookup (update k f s) j = None \<longleftrightarrow> lookup s j = None"
  using assms by (simp add: lookup_update)

text \<open>A field the update does not write is the same for every id afterwards.\<close>

lemma lookup_update_field:
  assumes "\<And>x. key (f x) = key x" and "\<And>x. p (f x) = p x"
  shows "map_option p (lookup (update k f s) j) = map_option p (lookup s j)"
  using assms by (simp add: lookup_update option.map_comp comp_def)

lemma lookup_update_set:
  assumes "\<And>x. key (f x) = key x" and "\<And>x. p (f x) = c" and "lookup s k \<noteq> None"
  shows "map_option p (lookup (update k f s) k) = Some c"
  using assms by (auto simp: lookup_update)

end

lemma find_qm_update:
  assumes "\<And>d. dl_id (f d) = dl_id d"
  shows "find (has_id j) (g_head (qm_update i f s)) =
     (if j = i then map_option f (find (has_id i) (g_head s)) else find (has_id j) (g_head s))"
proof (cases "j = i")
  case True
  then show ?thesis
    using find_upd_first_same [of "has_id i" f] by (simp add: qm_update_def assms)
next
  case False
  then show ?thesis
    using find_upd_first_other [of "has_id i" "has_id j" f] by (simp add: qm_update_def assms)
qed

interpretation qs: id_store "\<lambda>s i. queue_manager_find_by_id i s" qm_update dl_id
proof unfold_locales
  fix s k x assume "queue_manager_find_by_id k s = Some x"
  then show "dl_id x = k" unfolding queue_manager_find_by_id_def by (auto dest: find_SomeD)
next
  fix f :: "download \<Rightarrow> download" and k s j assume "\<And>x. dl_id (f x) = dl_id x"
  then show "queue_manager_find_by_id j (qm_update k f s) =
    (if j = k then map_option f (queue_manager_find_by_id k s) else queue_manager_find_by_id j s)"
    unfolding queue_manager_find_by_id_def by (rule find_qm_update)
qed

lemma g_next_id_update [simp]: "g_next_id (qm_update i f s) = g_next_id s"
  by (simp add: qm_update_def)

lemma get_status_find: "queue_manager_get_status i s = map_option dl_status (queue_manager_find_by_id i s)"
  by (simp add: queue_manager_get_status_def queue_manager_find_by_id_def)

lemma get_status_update:
  assumes "\<And>x. dl_id (f x) = dl_id x"
  shows "queue_manager_get_status j (qm_update i f s) =
    (if j = i then map_option (dl_status \<circ> f) (queue_manager_find_by_id i s)
     else queue_manager_get_status j s)"
  using assms by (simp add: get_status_find qs.lookup_update option.map_comp)

section \<open>Pause, resume and cancel\<close>

lemma cancel_status:
  "queue_manager_get_status j (snd (queue_manager_cancel i s)) =
     (if j = i \<and> queue_manager_get_status i s \<notin> {None, Some DOWNLOAD_ACTIVE}
      then Some DOWNLOAD_CANCELED else queue_manager_get_status j s)"
  by (auto simp: queue_manager_cancel_def get_status_update split: option.splits)
     (auto simp: get_status_find queue_manager_find_by_id_def)

lemma pause_status:
  "queue_manager_get_status j (snd (queue_manager_pause i s)) =
     (if j = i \<and> queue_manager_get_status i s = Some DOWNLOAD_QUEUED
      then Some DOWNLOAD_PAUSED else queue_manager_get_status j s)"
  by (auto simp: queue_manager_pause_def get_status_update split: option.splits)
     (auto simp: get_status_find queue_manager_find_by_id_def)

lemma resume_status:
  "queue_manager_get_status j (snd (queue_manager_resume i s)) =
     (if j = i \<and> queue_manager_get_status i s \<in> {Some DOWNLOAD_PAUSED, Some DOWNLOAD_ERROR}
      then Some DOWNLOAD_QUEUED else queue_manager_get_status j s)"
  by (auto simp: queue_manager_resume_def get_status_update split: option.splits)
     (auto simp: get_status_find queue_manager_find_by_id_def)

lemma cancel_result:
  "fst (queue_manager_cancel i s) \<longleftrightarrow> queue_manager_get_status i s = Some DOWNLOAD_ACTIVE"
  by (auto simp: queue_manager_cancel_def queue_manager_get_status_def split: option.splits)

lemma pause_result:
  "fst (queue_manager_pause i s) \<longleftrightarrow> queue_manager_get_status i s = Some DOWNLOAD_ACTIVE"
  by (auto simp: queue_manager_pause_def queue_manager_get_status_def split: option.splits)

lemma resume_result:
  "fst (queue_manager_resume i s) \<longleftrightarrow>
     queue_manager_get_status i s \<in> {Some DOWNLOAD_PAUSED, Some DOWNLOAD_ERROR}"
  by (auto simp: queue_manager_resume_def queue_manager_get_status_def split: option.splits)

section \<open>The next download to run\<close>

definition eligible :: "int \<Rightarrow> download \<Rightarrow> bool" where
  "eligible now d \<longleftrightarrow>
     dl_status d = DOWNLOAD_QUEUED \<and> (dl_next_retry_at d = 0 \<or> dl_next_retry_at d \<le> now)"

lemma next_queued_step_eligible:
  "next_queued_step now best cur =
     (if eligible now cur
      then (case best of None \<Rightarrow> Some cur
            | Some b \<Rightarrow> if dl_priority cur > dl_priority b then Some cur else best)
      else best)"
  by (auto simp: next_queued_step_def eligible_def)

text \<open>
  The specification of the choice: the first entry of the list among the eligible ones of the
  highest priority.
\<close>

definition best_of :: "int \<Rightarrow> download list \<Rightarrow> download option \<Rightarrow> bool" where
  "best_of now ds r \<longleftrightarrow>
     (case r of
        None \<Rightarrow> \<forall>d\<in>set ds. \<not> eligible now d
      | Some b \<Rightarrow> \<exists>ys zs. ds = ys @ b # zs \<and> eligible now b \<and>
                    (\<forall>d\<in>set ys. eligible now d \<longrightarrow> dl_priority d < dl_priority b) \<and>
                    (\<forall>d\<in>set zs. eligible now d \<longrightarrow> dl_priority d \<le> dl_priority b))"

lemma best_of_SomeI:
  "ds = ys @ b # zs \<Longrightarrow> eligible now b \<Longrightarrow>
   (\<And>d. d \<in> set ys \<Longrightarrow> eligible now d \<Longrightarrow> dl_priority d < dl_priority b) \<Longrightarrow>
   (\<And>d. d \<in> set zs \<Longrightarrow> eligible now d \<Longrightarrow> dl_priority d \<le> dl_priority b) \<Longrightarrow> best_of now ds (Some b)"
  unfolding best_of_def by auto

lemma best_of_snoc:
  assumes "best_of now ds r"
  shows "best_of now (ds @ [d]) (next_queued_step now r d)"
proof (cases "eligible now d")
  case False
  show ?thesis
  proof (cases r)
    case None
    with assms False show ?thesis by (simp add: best_of_def next_queued_step_eligible)
  next
    case (Some b)
    then obtain ys zs where "ds = ys @ b # zs" "eligible now b"
      "\<forall>d\<in>set ys. eligible now d \<longrightarrow> dl_priority d < dl_priority b"
      "\<forall>d\<in>set zs. eligible now d \<longrightarrow> dl_priority d \<le> dl_priority b"
      using assms by (auto simp: best_of_def)
    with False Some show ?thesis
      by (auto simp: next_queued_step_eligible intro!: best_of_SomeI [of _ ys b "zs @ [d]"])
  qed
next
  case True
  show ?thesis
  proof (cases r)
    case None
    with assms True show ?thesis
      by (auto simp: best_of_def [of now ds] next_queued_step_eligible
          intro!: best_of_SomeI [of _ ds d "[]"])
  next
    case (Some b)
    then obtain ys zs where *: "ds = ys @ b # zs" "eligible now b"
      "\<forall>d\<in>set ys. eligible now d \<longrightarrow> dl_priority d < dl_priority b"
      "\<forall>d\<in>set zs. eligible now d \<longrightarrow> dl_priority d \<le> dl_priority b"
      using assms by (auto simp: best_of_def)
    show ?thesis
    proof (cases "dl_priority d > dl_priority b")
      case False
      with * True Some show ?thesis
        by (auto simp: next_queued_step_eligible intro!: best_of_SomeI [of _ ys b "zs @ [d]"])
    next
      case better: True
      have "\<forall>e\<in>set ds. eligible now e \<longrightarrow> dl_priority e < dl_priority d"
        using * better by force
      with True Some better show ?thesis
        by (auto simp: next_queued_step_eligible intro!: best_of_SomeI [of _ ds d "[]"])
    qed
  qed
qed

lemma best_of_foldl: "best_of now ds (foldl (next_queued_step now) None ds)"
proof (induction ds rule: rev_induct)
  case Nil
  then show ?case by (simp add: best_of_def)
next
  case (snoc d ds)
  then show ?case by (simp add: best_of_snoc)
qed

lemma find_next_queued_best: "best_of now (g_head s) (queue_manager_find_next_queued now s)"
  unfolding queue_manager_find_next_queued_def by (rule best_of_foldl)

lemma find_next_queued_SomeD:
  assumes "queue_manager_find_next_queued now s = Some d"
  shows "d \<in> set (g_head s)" and "eligible now d"
  using find_next_queued_best [of now s] assms by (auto simp: best_of_def)

section \<open>Counting and snapshots\<close>

lemma count_foldl:
  "foldl (\<lambda>count cur. if P cur then Suc count else count) n xs = n + length (filter P xs)"
  by (induction xs arbitrary: n) auto

lemma count_by_status_filter:
  "queue_manager_count_by_status st s = length (filter (\<lambda>d. dl_status d = st) (g_head s))"
  by (simp add: queue_manager_count_by_status_def count_foldl)

lemma snapshot_active_take:
  "snapshot_active_loop room ds =
     take room (map (\<lambda>d. (dl_id d, dl_bytes_downloaded d, dl_total_size d))
                  (filter (\<lambda>d. dl_status d = DOWNLOAD_ACTIVE) ds))"
  by (induction room ds rule: snapshot_active_loop.induct) (auto simp: take_Cons' gr0_conv_Suc)

lemma snapshot_chunk_take:
  "snapshot_chunk_loop room ds =
     take room (concat (map chunk_snapshots (filter (\<lambda>d. dl_status d = DOWNLOAD_ACTIVE) ds)))"
  by (induction room ds rule: snapshot_chunk_loop.induct) (auto simp: Let_def min_def)

section \<open>Invariant of the queue\<close>

definition wf_download :: "download \<Rightarrow> bool" where
  "wf_download d \<longleftrightarrow>
     length (dl_chunks d) = QM_MAX_CHUNKS \<and> length (dl_chunk_live_bytes d) = QM_MAX_CHUNKS \<and>
     dl_chunk_count d \<le> QM_MAX_CHUNKS \<and> length (dl_url d) < 2048 \<and> length (dl_dest_path d) < 1024"

definition qm_inv :: "qm_state \<Rightarrow> bool" where
  "qm_inv s \<longleftrightarrow> 0 < g_next_id s \<and> distinct (map dl_id (g_head s)) \<and>
     (\<forall>d\<in>set (g_head s). 0 < dl_id d \<and> dl_id d < g_next_id s \<and> wf_download d)"

text \<open>
  One operation of the queue, as issued by the daemon, the IPC layer, the scheduler or a worker.
  The id counter is 32 bits wide and is not protected against wrapping, so the steps that hand
  out an id carry that as a guard; a restored entry has an id the queue does not hold; a worker
  writes through its pointer without changing the id.
\<close>

inductive qm_step :: "kernel \<Rightarrow> qm_state \<times> fs \<Rightarrow> qm_state \<times> fs \<Rightarrow> bool" for K where
  add: "g_next_id s \<noteq> - 1 \<Longrightarrow> qm_step K (s, fs) (snd (queue_manager_add K url dest opts s), fs)"
| add_existing: "wf_download d \<Longrightarrow> 0 < dl_id d \<Longrightarrow> dl_id d \<noteq> - 1 \<Longrightarrow>
    dl_id d \<notin> dl_id ` set (g_head s) \<Longrightarrow> qm_step K (s, fs) (queue_manager_add_existing d s, fs)"
| seed: "qm_step K (s, fs) (queue_manager_seed_next_id n s, fs)"
| remove: "qm_step K (s, fs) (queue_manager_remove K i s fs)"
| update_status: "qm_step K (s, fs) (queue_manager_update_status i st s, fs)"
| cancel: "qm_step K (s, fs) (snd (queue_manager_cancel i s), fs)"
| clear_resume: "qm_step K (s, fs) (queue_manager_clear_resume_state i s, fs)"
| pause: "qm_step K (s, fs) (snd (queue_manager_pause i s), fs)"
| resume: "qm_step K (s, fs) (snd (queue_manager_resume i s), fs)"
| worker: "(\<And>d. dl_id (f d) = dl_id d) \<Longrightarrow> (\<And>d. wf_download d \<Longrightarrow> wf_download (f d)) \<Longrightarrow>
    qm_step K (s, fs) (qm_update i f s, fs')"

inductive qm_reachable :: "kernel \<Rightarrow> qm_state \<times> fs \<Rightarrow> bool" for K where
  start: "qm_reachable K (qm_init, fs)"
| move: "qm_reachable K x \<Longrightarrow> qm_step K x y \<Longrightarrow> qm_reachable K y"

inductive_cases qm_stepE: "qm_step K (s, fs) y"

lemma wf_zero_download [simp]: "wf_download zero_download"
  by (simp add: wf_download_def zero_download_def)

lemma qm_inv_update [inv_intros]:
  assumes "qm_inv s" and "\<And>d. dl_id (f d) = dl_id d"
    and "\<And>d. wf_download d \<Longrightarrow> wf_download (f d)"
  shows "qm_inv (qm_update i f s)"
proof -
  let ?R = "\<lambda>d. 0 < dl_id d \<and> dl_id d < g_next_id s \<and> wf_download d"
  have "map dl_id (upd_first (has_id i) f (g_head s)) = map dl_id (g_head s)"
    by (rule map_upd_first) (simp add: assms(2))
  moreover have "?R d" if "d \<in> set (upd_first (has_id i) f (g_head s))" for d
    using that assms by (intro upd_first_pred [of "g_head s" ?R f d "has_id i"]) (auto simp: qm_inv_def)
  ultimately show ?thesis using assms(1) by (auto simp: qm_inv_def qm_update_def)
qed

lemma wf_download_simps [simp]:
  "wf_download (d\<lparr>dl_status := a\<rparr>) = wf_download d"
  "wf_download (d\<lparr>dl_cancel_requested := c\<rparr>) = wf_download d"
  "wf_download (d\<lparr>dl_pause_requested := c\<rparr>) = wf_download d"
  "wf_download (d\<lparr>dl_retry_count := n\<rparr>) = wf_download d"
  "wf_download (d\<lparr>dl_next_retry_at := n\<rparr>) = wf_download d"
  "wf_download (d\<lparr>dl_request := r\<rparr>) = wf_download d"
  "wf_download (d\<lparr>dl_total_size := t\<rparr>) = wf_download d"
  "wf_download (d\<lparr>dl_reserved_file := b\<rparr>) = wf_download d"
  "wf_download (d\<lparr>dl_bytes_downloaded := t\<rparr>) = wf_download d"
  "wf_download (d\<lparr>dl_id := j\<rparr>) = wf_download d"
  by (simp_all add: wf_download_def)

lemma wf_clear_resume [simp]: "wf_download d \<Longrightarrow> wf_download (clear_resume d)"
  by (simp add: wf_download_def clear_resume_def)

lemma self_less_plus_one: "(b :: u32) \<noteq> - 1 \<Longrightarrow> b < b + 1"
  using unatSuc [of b] by (simp add: word_less_nat_alt add.commute add_eq_0_iff)

lemma less_plus_one: "(a :: u32) < b \<Longrightarrow> b \<noteq> - 1 \<Longrightarrow> a < b + 1"
  using self_less_plus_one order_less_trans by blast

lemma qm_inv_add [inv_intros]:
  assumes "qm_inv s" and "g_next_id s \<noteq> - 1"
  shows "qm_inv (snd (queue_manager_add K url dest opts s))"
proof -
  let ?n = "g_next_id s"
  have old: "d \<in> set (g_head s) \<Longrightarrow> 0 < dl_id d \<and> dl_id d < ?n \<and> dl_id d < ?n + 1 \<and> wf_download d" for d
    using assms less_plus_one by (auto simp: qm_inv_def)
  have "?n \<notin> dl_id ` set (g_head s)" using old by force
  moreover have "wf_download (zero_download\<lparr>dl_url := strncpy_buf 2048 url,
      dl_dest_path := strncpy_buf 1024 dest, dl_request := r, dl_status := DOWNLOAD_QUEUED,
      dl_priority := 0\<rparr>)" for r
    by (simp add: wf_download_def zero_download_def length_strncpy_buf)
  moreover have "0 < ?n + 1" using assms(1) self_less_plus_one [OF assms(2)]
    by (auto simp: qm_inv_def intro: order_less_trans)
  ultimately show ?thesis
    using assms old self_less_plus_one [of ?n]
    by (auto simp: queue_manager_add_def qm_inv_def Let_def)
qed

lemma qm_inv_add_existing [inv_intros]:
  assumes inv: "qm_inv s" and d: "wf_download d" "0 < dl_id d" "dl_id d \<noteq> - 1"
    and fresh: "dl_id d \<notin> dl_id ` set (g_head s)"
  shows "qm_inv (queue_manager_add_existing d s)"
proof -
  let ?n = "if dl_id d \<ge> g_next_id s then dl_id d + 1 else g_next_id s"
  have n: "g_next_id s \<le> ?n" "dl_id d < ?n"
    using self_less_plus_one [OF d(3)] by (auto simp: not_le)
  then have "e \<in> set (g_head s) \<Longrightarrow> dl_id e < ?n" for e
    using inv by (meson order_less_le_trans qm_inv_def)
  moreover have "0 < ?n" using d(2) n(2) by (rule order_less_trans)
  ultimately show ?thesis
    using inv d fresh n unfolding queue_manager_add_existing_def qm_inv_def
    by (simp del: if_split)
qed

lemma qm_inv_seed [inv_intros]: "qm_inv s \<Longrightarrow> qm_inv (queue_manager_seed_next_id n s)"
  by (auto simp: qm_inv_def queue_manager_seed_next_id_def intro: order_less_trans)

lemma qm_inv_remove [inv_intros]: "qm_inv s \<Longrightarrow> qm_inv (fst (queue_manager_remove K i s fs))"
proof -
  assume inv: "qm_inv s"
  then have "qm_inv (s\<lparr>g_head := del_first (has_id i) (g_head s)\<rparr>)"
    using set_del_first_subset [of "has_id i" "g_head s"]
    by (auto simp: qm_inv_def intro: distinct_map_del_first)
  moreover have "qm_inv (qm_update i (\<lambda>d. d\<lparr>dl_cancel_requested := True\<rparr>) s)"
    using inv by (rule qm_inv_update) auto
  ultimately show ?thesis
    using inv by (auto simp: queue_manager_remove_def split: option.splits)
qed

lemma qm_inv_control [inv_intros]:
  assumes "qm_inv s"
  shows "qm_inv (queue_manager_update_status i st s)"
    and "qm_inv (snd (queue_manager_cancel i s))"
    and "qm_inv (snd (queue_manager_pause i s))"
    and "qm_inv (snd (queue_manager_resume i s))"
    and "qm_inv (queue_manager_clear_resume_state i s)"
  using assms
  by (auto simp: queue_manager_update_status_def queue_manager_cancel_def queue_manager_pause_def
      queue_manager_resume_def queue_manager_clear_resume_state_def clear_resume_def
      intro!: qm_inv_update split: option.splits simp: wf_download_def)

lemma qm_inv_step: "qm_step K x y \<Longrightarrow> qm_inv (fst x) \<Longrightarrow> qm_inv (fst y)"
  by (induction rule: qm_step.induct) (auto intro: inv_intros)

lemma qm_inv_init: "qm_inv qm_init"
  by (simp add: qm_inv_def qm_init_def)

lemma qm_inv_reachable: "qm_reachable K x \<Longrightarrow> qm_inv (fst x)"
  by (induction rule: qm_reachable.induct) (auto simp: qm_inv_init intro: qm_inv_step)

text \<open>An entry removed from the queue is gone, the others stay, and only its file is deleted.\<close>

lemma remove_spec:
  assumes "qm_inv s" and "queue_manager_get_status i s \<noteq> Some DOWNLOAD_ACTIVE"
    and "queue_manager_remove K i s fs = (s', fs')"
  shows "queue_manager_find_by_id i s' = None"
    and "j \<noteq> i \<Longrightarrow> queue_manager_find_by_id j s' = queue_manager_find_by_id j s"
proof -
  have "distinct (map dl_id (g_head s))" using assms(1) by (simp add: qm_inv_def)
  from find_del_first_same [OF this, of i]
  show "queue_manager_find_by_id i s' = None"
    using assms(2,3) by (auto simp: queue_manager_remove_def queue_manager_find_by_id_def
        queue_manager_get_status_def split: option.splits if_splits)
  show "j \<noteq> i \<Longrightarrow> queue_manager_find_by_id j s' = queue_manager_find_by_id j s"
    using assms(2,3) find_del_first_other [of "has_id i" "has_id j"]
    by (auto simp: queue_manager_remove_def queue_manager_find_by_id_def
        queue_manager_get_status_def split: option.splits if_splits)
qed

section \<open>Soundness of the path check\<close>

text \<open>
  Since glibc's \<open>dirname\<close> returns its own argument buffer, the test
  \<open>strcmp(parent, temp_dir) == 0\<close> always succeeds and the loop never climbs: the directory
  itself has to exist.
\<close>

lemma resolve_existing_realpath:
  "resolve_existing K temp = (case k_realpath K temp of Inr r \<Rightarrow> Some r | Inl e \<Rightarrow> None)"
  by (subst resolve_existing.simps)
     (auto split: sum.splits prod.splits dest: dirname_inplace_cases)

definition inside :: "string \<Rightarrow> string \<Rightarrow> bool" where
  "inside rt p \<longleftrightarrow> p = rt \<or> starts_with (rt @ ''/'') p"

lemma inside_conv:
  "inside rt p \<longleftrightarrow> starts_with rt p \<and> (length p = length rt \<or> p ! length rt = CHR ''/'')"
proof
  assume "inside rt p"
  then show "starts_with rt p \<and> (length p = length rt \<or> p ! length rt = CHR ''/'')"
    by (auto simp: inside_def starts_with_conv nth_append)
next
  assume a: "starts_with rt p \<and> (length p = length rt \<or> p ! length rt = CHR ''/'')"
  then obtain t where t: "p = rt @ t" by (auto simp: starts_with_conv)
  show "inside rt p"
  proof (cases t)
    case Nil
    with t show ?thesis by (simp add: inside_def)
  next
    case (Cons c u)
    with a t have "c = CHR ''/''" by (simp add: nth_append)
    with t Cons show ?thesis by (simp add: inside_def starts_with_conv)
  qed
qed

lemma is_safe_dest_path_conv:
  "is_safe_dest_path K path \<longleftrightarrow>
     path \<noteq> [] \<and> length path < 900 \<and>
     (\<exists>d r. k_realpath K (strncpy_buf 1024 (snd (dirname_inplace path))) = Inr d \<and>
            k_realpath K (get_allowed_root K) = Inr r \<and> inside r d) \<and>
     CHR ''/'' \<notin> set (basename_of_path path) \<and>
     basename_of_path path \<noteq> ''..'' \<and> basename_of_path path \<noteq> ''.''"
  by (cases "length path < 900")
     (auto simp: is_safe_dest_path_def resolve_existing_realpath inside_conv Let_def split: sum.splits)

lemma add_result:
  assumes "queue_manager_add K url dest opts s = (i, s')"
  shows "(i = 0 \<and> s' = s) \<or>
    (is_safe_dest_path K dest \<and> i = g_next_id s \<and> g_next_id s' = g_next_id s + 1 \<and>
     (\<exists>d. g_head s' = d # g_head s \<and> dl_id d = i \<and> dl_status d = DOWNLOAD_QUEUED \<and>
          dl_url d = strncpy_buf 2048 url \<and> dl_dest_path d = dest \<and>
          dl_request d = (if request_options_present opts then opts else None)))"
proof -
  have "is_safe_dest_path K dest \<Longrightarrow> strncpy_buf 1024 dest = dest"
    by (simp add: is_safe_dest_path_def)
  then show ?thesis
    using assms by (auto simp: queue_manager_add_def Let_def split: if_splits)
qed

section \<open>Properties\<close>



text \<open>
  C30: The scheduler is offered the right download: \<open>queue_manager_find_next_queued\<close> returns nothing
  only if no entry is queued with its backoff elapsed, and otherwise the first entry of the list
  among those of the highest priority (the most recently added one, since entries are prepended).
\<close>

theorem next_queued_is_best:
  "case queue_manager_find_next_queued now s of
     None \<Rightarrow> \<forall>d\<in>set (g_head s). \<not> eligible now d
   | Some b \<Rightarrow> \<exists>ys zs. g_head s = ys @ b # zs \<and> eligible now b \<and>
       (\<forall>d\<in>set ys. eligible now d \<longrightarrow> dl_priority d < dl_priority b) \<and>
       (\<forall>d\<in>set zs. eligible now d \<longrightarrow> dl_priority d \<le> dl_priority b)"
  using find_next_queued_best [of now s] unfolding best_of_def .

theorem next_queued_is_best_witness:
  "\<exists>b. queue_manager_find_next_queued 10
         \<lparr>g_head = [zero_download\<lparr>dl_id := 3, dl_next_retry_at := 99, dl_priority := 9\<rparr>,
                   zero_download\<lparr>dl_id := 2, dl_priority := 5\<rparr>, zero_download\<lparr>dl_id := 1\<rparr>],
          g_next_id = 4\<rparr> = Some b \<and> dl_id b = 2 \<and> eligible 10 b"
proof -
  let ?b = "zero_download\<lparr>dl_id := 2, dl_priority := 5\<rparr>"
  let ?s = "\<lparr>g_head = [zero_download\<lparr>dl_id := 3, dl_next_retry_at := 99, dl_priority := 9\<rparr>,
      ?b, zero_download\<lparr>dl_id := 1\<rparr>], g_next_id = 4\<rparr>"
  have e: "queue_manager_find_next_queued 10 ?s = Some ?b"
    by (simp add: queue_manager_find_next_queued_def next_queued_step_def zero_download_def)
  then have "eligible 10 ?b" using next_queued_is_best [of ?s 10] by auto
  with e show ?thesis by simp
qed


text \<open>
  The walk up to an existing parent directory never happens: a destination whose directory does
  not exist yet is refused, whatever its parents are, and the queue is unchanged.
\<close>

lemma missing_directory_refused:
  assumes "k_realpath K (strncpy_buf 1024 (snd (dirname_inplace dest))) = Inl ENOENT"
  shows "queue_manager_add K url dest opts s = (0, s)"
  using assms by (simp add: queue_manager_add_def is_safe_dest_path_conv)

text \<open>
  What the control requests do to the status of every entry. Pause acts on a queued entry and
  flags an active one, cancel acts on every entry that is not active, resume acts on paused and
  failed ones; no request touches another entry; and the result reports whether an active entry was
  flagged (pause, cancel) or an entry was put back in the queue (resume), not whether one was found.
\<close>

lemma control_requests:
  "queue_manager_get_status j (snd (queue_manager_pause i s)) =
     (if j = i \<and> queue_manager_get_status i s = Some DOWNLOAD_QUEUED then Some DOWNLOAD_PAUSED
      else queue_manager_get_status j s) \<and>
   queue_manager_get_status j (snd (queue_manager_cancel i s)) =
     (if j = i \<and> queue_manager_get_status i s \<notin> {None, Some DOWNLOAD_ACTIVE} then Some DOWNLOAD_CANCELED
      else queue_manager_get_status j s) \<and>
   queue_manager_get_status j (snd (queue_manager_resume i s)) =
     (if j = i \<and> queue_manager_get_status i s \<in> {Some DOWNLOAD_PAUSED, Some DOWNLOAD_ERROR}
      then Some DOWNLOAD_QUEUED else queue_manager_get_status j s) \<and>
   fst (queue_manager_pause i s) = (queue_manager_get_status i s = Some DOWNLOAD_ACTIVE) \<and>
   fst (queue_manager_cancel i s) = (queue_manager_get_status i s = Some DOWNLOAD_ACTIVE) \<and>
   fst (queue_manager_resume i s) = (queue_manager_get_status i s \<in> {Some DOWNLOAD_PAUSED, Some DOWNLOAD_ERROR})"
  by (intro conjI pause_status cancel_status resume_status pause_result cancel_result resume_result)

end
