(* ===== verification/Db.thy ===== *)
theory Db
  imports Queue_Manager "HOL-Library.Multiset"
begin

text \<open>
  \<open>src/persistence/db.c\<close>: the SQLite store of downloads and chunks. The SQL text of every
  statement is in the source; a statement is modelled by what that text means on the two tables
  (\<open>PRAGMA foreign_keys = ON\<close>: a chunk needs its download, and replacing a download cascades to
  its chunks). A table is the list of its rows in storage order; the \<open>downloads\<close> table is keyed
  and stored by its \<open>INTEGER PRIMARY KEY\<close>. Whether SQLite prepares and runs a statement is a
  parameter of every operation.
\<close>

section \<open>Tables\<close>

record db_row =
  row_id :: int
  row_url :: string
  row_dest_path :: string
  row_total_size :: int
  row_status :: string
  row_priority :: int
  row_created_at :: int
  row_cookie :: string
  row_referrer :: string
  row_extra_headers :: string
  row_expected_sha256 :: string
  row_speed_limit_bps :: int
  row_reserved_file :: int

record chunk_row =
  ch_download_id :: int
  ch_range_start :: int
  ch_range_end :: int
  ch_bytes_done :: int

record database =
  db_ready :: bool                \<comment> \<open>\<open>g_db != NULL\<close>\<close>
  db_columns :: "string list"     \<comment> \<open>of \<open>downloads\<close>; empty when the table does not exist\<close>
  t_downloads :: "db_row list"
  t_chunks :: "chunk_row list"

text \<open>How SQLite answers: a read whose step fails has delivered some rows before.\<close>

datatype sql_outcome = PrepareFails | StepFailsAfter nat | Runs

datatype stmt =
    StOpen | StForeignKeys | StSchema | StBegin | StAlter string | StCommit
  | StInsertDownload | StDestinationExists | StUpdateStatus | StUpdateTotalSize | StInsertChunk
  | StUpdateChunkProgress | StUpdateChunkRange | StDeleteChunks | StLoadChunks | StList | StCount
  | StDetails | StMaxId | StRestore

type_synonym sql = "stmt \<Rightarrow> sql_outcome"

definition rows_of :: "sql_outcome \<Rightarrow> 'a list \<Rightarrow> 'a list" where
  "rows_of oc rows =
     (case oc of PrepareFails \<Rightarrow> [] | StepFailsAfter k \<Rightarrow> take k rows | Runs \<Rightarrow> rows)"

text \<open>A write runs completely or not at all, and reports \<open>0\<close> or \<open>-1\<close>.\<close>

definition exec_write :: "sql \<Rightarrow> stmt \<Rightarrow> (database \<Rightarrow> database) \<Rightarrow> database \<Rightarrow> int \<times> database" where
  "exec_write Q st f db =
     (if \<not> db_ready db then (-1, db)
      else if Q st \<noteq> Runs then (-1, db) else (0, f db))"

definition update_rows :: "int \<Rightarrow> (db_row \<Rightarrow> db_row) \<Rightarrow> database \<Rightarrow> database" where
  "update_rows k f db =
     db\<lparr>t_downloads := map (\<lambda>r. if row_id r = k then f r else r) (t_downloads db)\<rparr>"

definition find_row :: "database \<Rightarrow> int \<Rightarrow> db_row option" where
  "find_row db k = find (\<lambda>r. row_id r = k) (t_downloads db)"

section \<open>Opening\<close>

definition base_columns :: "string list" where
  "base_columns = [''id'', ''url'', ''dest_path'', ''total_size'', ''status'', ''priority'', ''created_at'']"

definition migration_names :: "string list" where
  "migration_names = [''cookie'', ''referrer'', ''extra_headers'', ''expected_sha256'',
     ''speed_limit_bps'', ''reserved_file'']"

definition db_close :: "database \<Rightarrow> database" where
  "db_close db = db\<lparr>db_ready := False\<rparr>"

text \<open>The migration loop: \<open>None\<close> when an ALTER TABLE fails (the code then rolls back).\<close>

fun migrate :: "sql \<Rightarrow> string list \<Rightarrow> string list \<Rightarrow> string list option" where
  "migrate Q [] cols = Some cols"
| "migrate Q (n # ns) cols =
     (if n \<in> set cols then migrate Q ns cols
      else if Q (StAlter n) \<noteq> Runs then None
      else migrate Q ns (cols @ [n]))"

text \<open>
  \<open>db_init\<close>: \<open>disk\<close> is the database at \<open>db_path\<close> (without columns when the file is new). A
  column that a row did not have reads as its default, which is what the row record holds.
\<close>

definition db_init :: "sql \<Rightarrow> string \<Rightarrow> database \<Rightarrow> database \<Rightarrow> int \<times> database" where
  "db_init Q db_path disk db =
     (if db_path = [] then (-1, db)
      else if Q StOpen \<noteq> Runs then (-1, db_close db)
      else let closed = db_close disk
           in if Q StForeignKeys \<noteq> Runs then (-1, closed)
              else if Q StSchema \<noteq> Runs then (-1, closed)
              else let created = (if db_columns disk = []
                                  then closed\<lparr>db_columns := base_columns @ migration_names\<rparr>
                                  else closed)
                   in if Q StBegin \<noteq> Runs then (-1, created)
                      else case migrate Q migration_names (db_columns created) of
                             None \<Rightarrow> (-1, created)
                           | Some cols \<Rightarrow>
                               if Q StCommit \<noteq> Runs then (-1, created)
                               else (0, created\<lparr>db_columns := cols, db_ready := True\<rparr>))"

section \<open>Writes\<close>

definition new_row :: "u32 \<Rightarrow> string \<Rightarrow> string \<Rightarrow> request_options option \<Rightarrow> bool \<Rightarrow> int \<Rightarrow> db_row" where
  "new_row i url dest opts reserved now =
     \<lparr>row_id = sint i, row_url = url, row_dest_path = dest, row_total_size = 0,
      row_status = ''QUEUED'', row_priority = 0, row_created_at = now,
      row_cookie = (case opts of Some r \<Rightarrow> ro_cookie r | None \<Rightarrow> []),
      row_referrer = (case opts of Some r \<Rightarrow> ro_referrer r | None \<Rightarrow> []),
      row_extra_headers = (case opts of Some r \<Rightarrow> ro_extra_headers r | None \<Rightarrow> []),
      row_expected_sha256 = (case opts of Some r \<Rightarrow> ro_expected_sha256 r | None \<Rightarrow> []),
      row_speed_limit_bps = sint (case opts of Some r \<Rightarrow> ro_speed_limit_bps r | None \<Rightarrow> 0),
      row_reserved_file = (if reserved then 1 else 0)\<rparr>"

text \<open>INSERT OR REPLACE: the old row and, by the foreign key, its chunks are deleted first.\<close>

definition replace_row :: "db_row \<Rightarrow> database \<Rightarrow> database" where
  "replace_row r db =
     (let old = (\<exists>q\<in>set (t_downloads db). row_id q = row_id r)
      in db\<lparr>t_downloads := insort_key row_id r (filter (\<lambda>q. row_id q \<noteq> row_id r) (t_downloads db)),
            t_chunks := (if old then filter (\<lambda>c. ch_download_id c \<noteq> row_id r) (t_chunks db)
                         else t_chunks db)\<rparr>)"

definition insert_download ::
  "sql \<Rightarrow> u32 \<Rightarrow> string \<Rightarrow> string \<Rightarrow> request_options option \<Rightarrow> bool \<Rightarrow> int \<Rightarrow> database \<Rightarrow> int \<times> database"
where
  "insert_download Q i url dest opts reserved now db =
     exec_write Q StInsertDownload (replace_row (new_row i url dest opts reserved now)) db"

definition db_insert_download ::
  "sql \<Rightarrow> u32 \<Rightarrow> string \<Rightarrow> string \<Rightarrow> request_options option \<Rightarrow> int \<Rightarrow> database \<Rightarrow> int \<times> database" where
  "db_insert_download Q i url dest opts now db = insert_download Q i url dest opts False now db"

definition db_insert_reserved_download ::
  "sql \<Rightarrow> u32 \<Rightarrow> string \<Rightarrow> string \<Rightarrow> request_options option \<Rightarrow> int \<Rightarrow> database \<Rightarrow> int \<times> database" where
  "db_insert_reserved_download Q i url dest opts now db =
     insert_download Q i url dest opts True now db"

definition db_destination_exists :: "sql \<Rightarrow> string \<Rightarrow> database \<Rightarrow> bool" where
  "db_destination_exists Q dest db \<longleftrightarrow>
     db_ready db \<and>
     rows_of (Q StDestinationExists)
       (take 1 (filter (\<lambda>r. row_dest_path r = dest) (t_downloads db))) \<noteq> []"

definition db_update_status :: "sql \<Rightarrow> u32 \<Rightarrow> string \<Rightarrow> database \<Rightarrow> int \<times> database" where
  "db_update_status Q i status db =
     exec_write Q StUpdateStatus (update_rows (sint i) (\<lambda>r. r\<lparr>row_status := status\<rparr>)) db"

definition db_update_total_size :: "sql \<Rightarrow> u32 \<Rightarrow> u64 \<Rightarrow> database \<Rightarrow> int \<times> database" where
  "db_update_total_size Q i total_size db =
     exec_write Q StUpdateTotalSize (update_rows (sint i) (\<lambda>r. r\<lparr>row_total_size := sint total_size\<rparr>)) db"

text \<open>A chunk of a download that is not in the table violates the foreign key.\<close>

definition db_insert_chunk :: "sql \<Rightarrow> u32 \<Rightarrow> u64 \<Rightarrow> u64 \<Rightarrow> database \<Rightarrow> int \<times> database" where
  "db_insert_chunk Q i rstart rend db =
     (if db_ready db \<and> find_row db (sint i) = None then (-1, db)
      else exec_write Q StInsertChunk
             (\<lambda>db. db\<lparr>t_chunks := t_chunks db @
                       [\<lparr>ch_download_id = sint i, ch_range_start = sint rstart,
                         ch_range_end = sint rend, ch_bytes_done = 0\<rparr>]\<rparr>) db)"

definition update_chunks ::
  "u32 \<Rightarrow> u64 \<Rightarrow> (chunk_row \<Rightarrow> chunk_row) \<Rightarrow> database \<Rightarrow> database" where
  "update_chunks i rstart f db =
     db\<lparr>t_chunks := map (\<lambda>c. if ch_download_id c = sint i \<and> ch_range_start c = sint rstart
                             then f c else c) (t_chunks db)\<rparr>"

definition db_update_chunk_progress :: "sql \<Rightarrow> u32 \<Rightarrow> u64 \<Rightarrow> u64 \<Rightarrow> database \<Rightarrow> int \<times> database" where
  "db_update_chunk_progress Q i rstart done db =
     exec_write Q StUpdateChunkProgress
       (update_chunks i rstart (\<lambda>c. c\<lparr>ch_bytes_done := sint done\<rparr>)) db"

definition db_update_chunk_range :: "sql \<Rightarrow> u32 \<Rightarrow> u64 \<Rightarrow> u64 \<Rightarrow> database \<Rightarrow> int \<times> database" where
  "db_update_chunk_range Q i rstart new_end db =
     exec_write Q StUpdateChunkRange
       (update_chunks i rstart (\<lambda>c. c\<lparr>ch_range_end := sint new_end\<rparr>)) db"

definition db_delete_chunks :: "sql \<Rightarrow> u32 \<Rightarrow> database \<Rightarrow> int \<times> database" where
  "db_delete_chunks Q i db =
     exec_write Q StDeleteChunks
       (\<lambda>db. db\<lparr>t_chunks := filter (\<lambda>c. ch_download_id c \<noteq> sint i) (t_chunks db)\<rparr>) db"

section \<open>Queries\<close>

definition chunk_of_row :: "chunk_row \<Rightarrow> download_chunk" where
  "chunk_of_row c =
     \<lparr>range_start = word_of_int (ch_range_start c), range_end = word_of_int (ch_range_end c),
      bytes_done = word_of_int (ch_bytes_done c)\<rparr>"

definition db_load_chunks :: "sql \<Rightarrow> u32 \<Rightarrow> int \<Rightarrow> database \<Rightarrow> download_chunk list" where
  "db_load_chunks Q i max_n db =
     (if \<not> db_ready db \<or> max_n \<le> 0 then []
      else take (nat max_n)
             (rows_of (Q StLoadChunks)
                (map chunk_of_row
                   (sort_key ch_range_start (filter (\<lambda>c. ch_download_id c = sint i) (t_chunks db))))))"

record list_record =
  lr_id :: u32
  lr_url :: string
  lr_dest_path :: string
  lr_status :: string

definition list_row :: "db_row \<Rightarrow> list_record" where
  "list_row r =
     \<lparr>lr_id = word_of_int (row_id r), lr_url = strncpy_buf 2048 (row_url r),
      lr_dest_path = strncpy_buf 1024 (row_dest_path r), lr_status = strncpy_buf 16 (row_status r)\<rparr>"

text \<open>\<open>SELECT ... ORDER BY id DESC LIMIT max\<close>: the table is stored by id.\<close>

definition db_list_all_downloads :: "sql \<Rightarrow> int \<Rightarrow> database \<Rightarrow> list_record list" where
  "db_list_all_downloads Q max_n db =
     (if \<not> db_ready db \<or> max_n \<le> 0 then []
      else rows_of (Q StList) (map list_row (take (nat max_n) (rev (t_downloads db)))))"

definition db_count_downloads :: "sql \<Rightarrow> int \<Rightarrow> database \<Rightarrow> int" where
  "db_count_downloads Q max_n db =
     (if \<not> db_ready db \<or> max_n < 0 then -1
      else case rows_of (Q StCount) [int (length (t_downloads db))] of
             [] \<Rightarrow> -1
           | n # _ \<Rightarrow> if n > max_n then max_n else as_int n)"

text \<open>\<open>db_visit_downloads\<close>: the visitor changes its context and stops the scan with a non-zero.\<close>

fun visit_loop :: "(list_record \<Rightarrow> 'c \<Rightarrow> int \<times> 'c) \<Rightarrow> list_record list \<Rightarrow> int \<Rightarrow> 'c \<Rightarrow> int \<times> 'c" where
  "visit_loop visitor [] visited ctx = (visited, ctx)"
| "visit_loop visitor (r # rs) visited ctx =
     (case visitor r ctx of
        (rc, ctx') \<Rightarrow> if rc \<noteq> 0 then (visited, ctx')
                      else visit_loop visitor rs (visited + 1) ctx')"

definition db_visit_downloads ::
  "sql \<Rightarrow> (list_record \<Rightarrow> 'c \<Rightarrow> int \<times> 'c) \<Rightarrow> 'c \<Rightarrow> int \<Rightarrow> database \<Rightarrow> int \<times> 'c" where
  "db_visit_downloads Q visitor ctx max_n db =
     (if \<not> db_ready db \<or> max_n \<le> 0 \<or> Q StList = PrepareFails then (-1, ctx)
      else visit_loop visitor
             (rows_of (Q StList) (map list_row (take (nat max_n) (rev (t_downloads db))))) 0 ctx)"

definition row_options :: "db_row \<Rightarrow> request_options" where
  "row_options r =
     \<lparr>ro_cookie = strncpy_buf 1024 (row_cookie r), ro_referrer = strncpy_buf 2048 (row_referrer r),
      ro_extra_headers = strncpy_buf 4096 (row_extra_headers r),
      ro_expected_sha256 = strncpy_buf 65 (row_expected_sha256 r),
      ro_speed_limit_bps = word_of_int (row_speed_limit_bps r)\<rparr>"

definition db_get_download_details :: "sql \<Rightarrow> u32 \<Rightarrow> database \<Rightarrow> request_options option" where
  "db_get_download_details Q i db =
     (if \<not> db_ready db then None
      else case rows_of (Q StDetails) (filter (\<lambda>r. row_id r = sint i) (t_downloads db)) of
             [] \<Rightarrow> None
           | r # _ \<Rightarrow> Some (row_options r))"

text \<open>\<open>MAX(id)\<close> of an empty table is NULL, which reads as 0.\<close>

definition db_get_max_id :: "sql \<Rightarrow> database \<Rightarrow> u32" where
  "db_get_max_id Q db =
     (if \<not> db_ready db then 0
      else case rows_of (Q StMaxId)
                  [if t_downloads db = [] then 0 else Max (row_id ` set (t_downloads db))] of
             [] \<Rightarrow> 0
           | m # _ \<Rightarrow> word_of_int m)"

definition status_of_text :: "string \<Rightarrow> download_status" where
  "status_of_text stat =
     (if stat = ''QUEUED'' then DOWNLOAD_QUEUED
      else if stat = ''ACTIVE'' then DOWNLOAD_QUEUED
      else if stat = ''PAUSED'' then DOWNLOAD_PAUSED
      else if stat = ''ERROR'' then DOWNLOAD_ERROR
      else if stat = ''CANCELED'' then DOWNLOAD_CANCELED
      else DOWNLOAD_QUEUED)"

text \<open>One row of the restore: \<open>None\<close> when an allocation fails and the row is skipped.\<close>

definition restore_row :: "sql \<Rightarrow> kernel \<Rightarrow> database \<Rightarrow> db_row \<Rightarrow> download option" where
  "restore_row Q K db r =
     (if \<not> k_alloc K ''Download'' then None
      else let opts = row_options r;
               present = request_options_present (Some opts);
               i = word_of_int (row_id r) :: u32;
               rows = db_load_chunks Q i (int QM_MAX_CHUNKS) db
           in if present \<and> \<not> k_alloc K ''RequestOptions'' then None
              else Some (zero_download\<lparr>dl_id := i, dl_total_size := word_of_int (row_total_size r),
                     dl_priority := as_int (row_priority r),
                     dl_reserved_file := (as_int (row_reserved_file r) \<noteq> 0),
                     dl_url := strncpy_buf 2048 (row_url r),
                     dl_dest_path := strncpy_buf 1024 (row_dest_path r),
                     dl_request := (if present then Some opts else None),
                     dl_status := status_of_text (row_status r),
                     dl_chunks := rows @ drop (length rows) (dl_chunks zero_download),
                     dl_chunk_count := length rows\<rparr>))"

fun restore_loop :: "sql \<Rightarrow> kernel \<Rightarrow> database \<Rightarrow> db_row list \<Rightarrow> qm_state \<Rightarrow> qm_state" where
  "restore_loop Q K db [] s = s"
| "restore_loop Q K db (r # rs) s =
     (case restore_row Q K db r of
        None \<Rightarrow> restore_loop Q K db rs s
      | Some d \<Rightarrow> restore_loop Q K db rs (queue_manager_add_existing d s))"

definition db_restore_queue :: "sql \<Rightarrow> kernel \<Rightarrow> database \<Rightarrow> qm_state \<Rightarrow> int \<times> qm_state" where
  "db_restore_queue Q K db s =
     (if \<not> db_ready db \<or> Q StRestore = PrepareFails then (-1, s)
      else (0, restore_loop Q K db
                 (rows_of (Q StRestore) (filter (\<lambda>r. row_status r \<noteq> ''DONE'') (t_downloads db))) s))"

section \<open>Rows by id\<close>

lemma find_map_keyed:
  assumes "\<And>x. k (f x) = k x"
  shows "find (\<lambda>x. k x = j) (map (\<lambda>x. if k x = i then f x else x) xs) =
     (if j = i then map_option f (find (\<lambda>x. k x = i) xs) else find (\<lambda>x. k x = j) xs)"
  by (induction xs) (auto simp: assms)

interpretation ds: id_store find_row update_rows row_id
proof unfold_locales
  fix db k r assume "find_row db k = Some r"
  then show "row_id r = k" unfolding find_row_def by (auto dest: find_SomeD)
next
  fix f :: "db_row \<Rightarrow> db_row" and k db j assume "\<And>r. row_id (f r) = row_id r"
  then show "find_row (update_rows k f db) j =
      (if j = k then map_option f (find_row db k) else find_row db j)"
    unfolding find_row_def update_rows_def by (simp add: find_map_keyed [of row_id])
qed

text \<open>Ids of C \<open>uint32_t\<close> and the signed ids of the table correspond one to one.\<close>

lemma sint_word_of_int: "- (2 ^ 31) \<le> k \<Longrightarrow> k < 2 ^ 31 \<Longrightarrow> sint (word_of_int k :: u32) = k"
  using as_int_id [of k] by (simp add: as_int_def)

lemma sint_eq_iff [simp]: "sint a = sint b \<longleftrightarrow> a = b" for a b :: "'a::len word"
  by (auto dest: arg_cong [where f = "of_int :: int \<Rightarrow> 'a word"])

lemma uint_eq_sint: "0 \<le> sint w \<Longrightarrow> uint w = sint w" for w :: u32
proof -
  assume "0 \<le> sint w"
  then have "sint w mod 2 ^ 32 = sint w"
    using sint_lt [of w] by (intro mod_pos_pos_trivial) simp_all
  then have "uint (word_of_int (sint w) :: u32) = sint w" by (simp only: uint_word_of_int) simp
  then show "uint w = sint w" by simp
qed

section \<open>Invariant of the tables\<close>

definition db_inv :: "database \<Rightarrow> bool" where
  "db_inv db \<longleftrightarrow>
     sorted_wrt (<) (map row_id (t_downloads db)) \<and>
     row_id ` set (t_downloads db) \<subseteq> {- (2 ^ 31)..<2 ^ 31} \<and>
     ch_download_id ` set (t_chunks db) \<subseteq> row_id ` set (t_downloads db)"

lemma db_inv_distinct: "db_inv db \<Longrightarrow> distinct (map row_id (t_downloads db))"
  unfolding db_inv_def by (simp add: strict_sorted_iff)

lemma find_row_None: "find_row db k = None \<longleftrightarrow> k \<notin> row_id ` set (t_downloads db)"
  by (auto simp: find_row_def find_None_iff)

lemma find_row_mem:
  "db_inv db \<Longrightarrow> r \<in> set (t_downloads db) \<Longrightarrow> find_row db (row_id r) = Some r"
  unfolding find_row_def by (rule find_key_unique) (auto dest: db_inv_distinct)

lemma find_row_SomeD: "find_row db k = Some r \<Longrightarrow> r \<in> set (t_downloads db) \<and> row_id r = k"
  unfolding find_row_def by (rule find_SomeD)

lemma db_inv_exec [inv_intros]:
  assumes "db_inv db" and "\<And>db. db_inv db \<Longrightarrow> db_inv (f db)"
  shows "db_inv (snd (exec_write Q st f db))"
  using assms by (simp add: exec_write_def)

lemma db_inv_update_rows [inv_intros]:
  assumes "db_inv db" and "\<And>r. row_id (f r) = row_id r"
  shows "db_inv (update_rows k f db)"
proof -
  let ?g = "\<lambda>r. if row_id r = k then f r else r"
  have "row_id \<circ> ?g = row_id" by (rule ext) (simp add: assms(2))
  then have "map row_id (map ?g (t_downloads db)) = map row_id (t_downloads db)"
    unfolding map_map by (rule arg_cong)
  then have "map row_id (t_downloads (update_rows k f db)) = map row_id (t_downloads db)"
    unfolding update_rows_def by simp
  moreover from this have "row_id ` set (t_downloads (update_rows k f db)) = row_id ` set (t_downloads db)"
    unfolding set_map [symmetric] by (rule arg_cong)
  moreover have "t_chunks (update_rows k f db) = t_chunks db" by (simp add: update_rows_def)
  ultimately show ?thesis using assms(1) unfolding db_inv_def by (simp only:)
qed

lemma sorted_insort_strict:
  assumes "sorted_wrt (<) (map row_id rs)"
  shows "sorted_wrt (<) (map row_id (insort_key row_id r (filter (\<lambda>q. row_id q \<noteq> row_id r) rs)))"
proof -
  let ?rs = "filter (\<lambda>q. row_id q \<noteq> row_id r) rs"
  have s: "sorted (map row_id ?rs)" "distinct (map row_id ?rs)"
    using assms by (auto simp: strict_sorted_iff intro: sorted_filter distinct_map_filter)
  then have "sorted (map row_id (insort_key row_id r ?rs))" by (simp add: sorted_insort_key)
  moreover have "distinct (map row_id (insort_key row_id r ?rs))"
  proof -
    have "mset (map row_id (insort_key row_id r ?rs)) = mset (map row_id (r # ?rs))"
      by (simp add: mset_map)
    moreover have "distinct (map row_id (r # ?rs))" using s(2) by auto
    ultimately show ?thesis using mset_eq_imp_distinct_iff by blast
  qed
  ultimately show ?thesis by (simp add: strict_sorted_iff)
qed

lemma db_inv_replace_row [inv_intros]:
  assumes "db_inv db" and "- (2 ^ 31) \<le> row_id r" and "row_id r < 2 ^ 31"
  shows "db_inv (replace_row r db)"
proof -
  have ids: "row_id ` set (t_downloads (replace_row r db)) = insert (row_id r) (row_id ` set (t_downloads db))"
    by (auto simp: replace_row_def Let_def set_insort_key)
  have "ch_download_id ` set (t_chunks (replace_row r db)) \<subseteq> ch_download_id ` set (t_chunks db)"
    by (auto simp: replace_row_def Let_def)
  also have "\<dots> \<subseteq> insert (row_id r) (row_id ` set (t_downloads db))"
    using assms(1) unfolding db_inv_def by blast
  finally have "ch_download_id ` set (t_chunks (replace_row r db)) \<subseteq> row_id ` set (t_downloads (replace_row r db))"
    unfolding ids .
  moreover have "sorted_wrt (<) (map row_id (t_downloads (replace_row r db)))"
    using assms(1) sorted_insort_strict [of "t_downloads db" r]
    by (auto simp: replace_row_def Let_def db_inv_def)
  ultimately show ?thesis using assms ids unfolding db_inv_def by auto
qed

lemma db_inv_chunks [inv_intros]:
  assumes "db_inv db" and "ch_download_id ` set cs \<subseteq> ch_download_id ` set (t_chunks db)"
  shows "db_inv (db\<lparr>t_chunks := cs\<rparr>)"
  using assms unfolding db_inv_def by (auto simp: image_subset_iff)

lemma ids_update_chunks:
  assumes "\<And>c. ch_download_id (f c) = ch_download_id c"
  shows "ch_download_id ` set (t_chunks (update_chunks i a f db)) = ch_download_id ` set (t_chunks db)"
proof -
  have "map ch_download_id (t_chunks (update_chunks i a f db)) = map ch_download_id (t_chunks db)"
    using assms by (simp add: update_chunks_def)
  then show ?thesis unfolding set_map [symmetric] by (rule arg_cong)
qed

lemma db_inv_update_chunks [inv_intros]:
  assumes "db_inv db" and "\<And>c. ch_download_id (f c) = ch_download_id c"
  shows "db_inv (update_chunks i a f db)"
  using assms ids_update_chunks [of f i a db, OF assms(2)]
  unfolding db_inv_def by (simp add: update_chunks_def)

lemma db_inv_writes [inv_intros]:
  assumes "db_inv db"
  shows "db_inv (snd (insert_download Q i url dest opts rsv now db))"
    and "db_inv (snd (db_update_status Q i st db))"
    and "db_inv (snd (db_update_total_size Q i sz db))"
    and "db_inv (snd (db_insert_chunk Q i a b db))"
    and "db_inv (snd (db_update_chunk_progress Q i a n db))"
    and "db_inv (snd (db_update_chunk_range Q i a b db))"
    and "db_inv (snd (db_delete_chunks Q i db))"
proof -
  show "db_inv (snd (insert_download Q i url dest opts rsv now db))"
    unfolding insert_download_def
    using sint_ge [of i] sint_lt [of i]
    by (intro db_inv_exec [OF assms] db_inv_replace_row) (auto simp: new_row_def)
  show "db_inv (snd (db_update_status Q i st db))" "db_inv (snd (db_update_total_size Q i sz db))"
    unfolding db_update_status_def db_update_total_size_def
    by (auto intro!: db_inv_exec [OF assms] db_inv_update_rows)
  show "db_inv (snd (db_update_chunk_progress Q i a n db))"
    "db_inv (snd (db_update_chunk_range Q i a b db))" "db_inv (snd (db_delete_chunks Q i db))"
    unfolding db_update_chunk_progress_def db_update_chunk_range_def db_delete_chunks_def
    by (auto intro!: db_inv_exec [OF assms] db_inv_chunks db_inv_update_chunks)
  show "db_inv (snd (db_insert_chunk Q i a b db))"
    using assms unfolding db_insert_chunk_def exec_write_def db_inv_def
    by (auto simp: find_row_None)
qed

section \<open>Reading back what was written\<close>

lemma find_row_replace:
  assumes "db_inv db" and "- (2 ^ 31) \<le> row_id r" and "row_id r < 2 ^ 31"
  shows "find_row (replace_row r db) k = (if k = row_id r then Some r else find_row db k)"
proof -
  have inv: "db_inv (replace_row r db)" using assms by (rule db_inv_replace_row)
  have mem: "q \<in> set (t_downloads (replace_row r db)) \<longleftrightarrow>
      q = r \<or> (q \<in> set (t_downloads db) \<and> row_id q \<noteq> row_id r)" for q
    by (auto simp: replace_row_def Let_def set_insort_key)
  show ?thesis
  proof (cases "k = row_id r")
    case True
    then show ?thesis using find_row_mem [OF inv] mem by auto
  next
    case False
    show ?thesis
    proof (cases "find_row db k")
      case None
      with False mem have "k \<notin> row_id ` set (t_downloads (replace_row r db))"
        by (auto simp: find_row_None)
      then have "find_row (replace_row r db) k = None" unfolding find_row_None .
      with None False show ?thesis by simp
    next
      case (Some q)
      then have q: "q \<in> set (t_downloads db)" "row_id q = k" by (auto dest: find_row_SomeD)
      with False mem have "q \<in> set (t_downloads (replace_row r db))" by auto
      with q find_row_mem [OF inv] False Some show ?thesis by auto
    qed
  qed
qed

lemma chunks_replace_row:
  assumes "db_inv db"
  shows "filter (\<lambda>c. ch_download_id c = row_id r) (t_chunks (replace_row r db)) = []"
proof (cases "\<exists>q\<in>set (t_downloads db). row_id q = row_id r")
  case True
  then show ?thesis by (auto simp: replace_row_def Let_def filter_empty_conv)
next
  case False
  with assms have "row_id r \<notin> ch_download_id ` set (t_chunks db)" unfolding db_inv_def by force
  with False show ?thesis by (auto simp: replace_row_def Let_def filter_empty_conv image_iff)
qed

lemma exec_write_runs [simp]:
  "db_ready db \<Longrightarrow> Q st = Runs \<Longrightarrow> exec_write Q st f db = (0, f db)"
  by (simp add: exec_write_def)

lemma exec_write_ok:
  "exec_write Q st f db = (0, db') \<Longrightarrow> db_ready db \<and> Q st = Runs \<and> db' = f db"
  by (auto simp: exec_write_def split: if_splits)

text \<open>The chunks of a plan, inserted one by one, are loaded back in file order.\<close>

fun insert_chunks :: "sql \<Rightarrow> u32 \<Rightarrow> (u64 \<times> u64) list \<Rightarrow> database \<Rightarrow> database" where
  "insert_chunks Q i [] db = db"
| "insert_chunks Q i ((a, b) # cs) db = insert_chunks Q i cs (snd (db_insert_chunk Q i a b db))"

lemma insert_chunks_table:
  assumes "db_ready db" "Q StInsertChunk = Runs" "find_row db (sint i) \<noteq> None"
  shows "t_chunks (insert_chunks Q i cs db) = t_chunks db @
    map (\<lambda>(a, b). \<lparr>ch_download_id = sint i, ch_range_start = sint a, ch_range_end = sint b,
                   ch_bytes_done = 0\<rparr>) cs \<and>
    db_ready (insert_chunks Q i cs db) \<and> t_downloads (insert_chunks Q i cs db) = t_downloads db"
  using assms
proof (induction cs arbitrary: db)
  case Nil
  then show ?case by simp
next
  case (Cons c cs)
  obtain a b where c: "c = (a, b)" by fastforce
  let ?db = "snd (db_insert_chunk Q i a b db)"
  have db: "?db = db\<lparr>t_chunks := t_chunks db @ [\<lparr>ch_download_id = sint i, ch_range_start = sint a,
      ch_range_end = sint b, ch_bytes_done = 0\<rparr>]\<rparr>"
    using Cons.prems by (simp add: db_insert_chunk_def)
  have "db_ready ?db" "find_row ?db (sint i) \<noteq> None"
    using Cons.prems unfolding db find_row_def by simp_all
  from Cons.IH [OF this(1) Cons.prems(2) this(2)] show ?case unfolding c by (simp add: db)
qed

lemma load_inserted_chunks:
  assumes run: "db_ready db" "Q StInsertChunk = Runs" "Q StLoadChunks = Runs"
    and row: "find_row db (sint i) \<noteq> None"
    and none: "filter (\<lambda>c. ch_download_id c = sint i) (t_chunks db) = []"
    and few: "length cs \<le> QM_MAX_CHUNKS"
    and asc: "sorted (map (\<lambda>(a, b). sint a) cs)"
  shows "db_load_chunks Q i (int QM_MAX_CHUNKS) (insert_chunks Q i cs db) =
     map (\<lambda>(a, b). \<lparr>range_start = a, range_end = b, bytes_done = 0\<rparr>) cs"
proof -
  let ?row = "\<lambda>(a, b). \<lparr>ch_download_id = sint i, ch_range_start = sint a, ch_range_end = sint b,
      ch_bytes_done = 0\<rparr>"
  let ?db = "insert_chunks Q i cs db"
  have t: "t_chunks ?db = t_chunks db @ map ?row cs" and r: "db_ready ?db"
    using insert_chunks_table [of db Q i cs] run row by auto
  have "filter (\<lambda>c. ch_download_id c = sint i) (map ?row cs) = map ?row cs"
    by (rule filter_True) auto
  then have f: "filter (\<lambda>c. ch_download_id c = sint i) (t_chunks ?db) = map ?row cs"
    using none t by simp
  have "map ch_range_start (map ?row cs) = map (\<lambda>(a, b). sint a) cs" by auto
  then have "sort_key ch_range_start (map ?row cs) = map ?row cs"
    using asc by (intro sort_key_id_if_sorted) (simp only:)
  with f r run few show ?thesis
    by (auto simp: db_load_chunks_def rows_of_def chunk_of_row_def QM_MAX_CHUNKS_def)
qed

section \<open>Restoring the queue\<close>

lemma restore_row_fields:
  assumes "restore_row Q K db r = Some d"
  shows "dl_id d = word_of_int (row_id r)" and "dl_url d = strncpy_buf 2048 (row_url r)"
    and "dl_dest_path d = strncpy_buf 1024 (row_dest_path r)"
    and "dl_status d = status_of_text (row_status r)"
    and "dl_chunk_count d = length (db_load_chunks Q (word_of_int (row_id r)) (int QM_MAX_CHUNKS) db)"
    and "take (dl_chunk_count d) (dl_chunks d) =
         db_load_chunks Q (word_of_int (row_id r)) (int QM_MAX_CHUNKS) db"
    and "dl_request d = (if request_options_present (Some (row_options r))
                         then Some (row_options r) else None)"
    and "dl_reserved_file d \<longleftrightarrow> as_int (row_reserved_file r) \<noteq> 0"
  using assms by (auto simp: restore_row_def Let_def split: if_splits)

lemma length_db_load_chunks: "length (db_load_chunks Q i (int n) db) \<le> n"
  by (simp add: db_load_chunks_def)

lemma restore_row_wf: "restore_row Q K db r = Some d \<Longrightarrow> wf_download d"
  using length_db_load_chunks [of Q "word_of_int (row_id r)" QM_MAX_CHUNKS db]
  by (auto simp: restore_row_def Let_def wf_download_def zero_download_def length_strncpy_buf
      split: if_splits)

lemma restore_row_Some:
  "(\<And>site. k_alloc K site) \<Longrightarrow> \<exists>d. restore_row Q K db r = Some d"
  by (simp add: restore_row_def Let_def)

lemma find_add_existing:
  "queue_manager_find_by_id i (queue_manager_add_existing d s) =
     (if dl_id d = i then Some d else queue_manager_find_by_id i s)"
  by (simp add: queue_manager_find_by_id_def queue_manager_add_existing_def)

lemma word_of_row_id:
  "- (2 ^ 31) \<le> row_id r \<Longrightarrow> row_id r < 2 ^ 31 \<Longrightarrow>
   (word_of_int (row_id r) :: u32) = i \<longleftrightarrow> row_id r = sint i"
  using sint_word_of_int [of "row_id r"] by auto

lemma restore_loop_lookup:
  assumes "distinct (map row_id rs)" and "row_id ` set rs \<subseteq> {- (2 ^ 31)..<2 ^ 31}"
    and alloc: "\<And>site. k_alloc K site"
  shows "queue_manager_find_by_id i (restore_loop Q K db rs s) =
     (case find (\<lambda>r. row_id r = sint i) rs of
        Some r \<Rightarrow> restore_row Q K db r
      | None \<Rightarrow> queue_manager_find_by_id i s)"
  using assms(1,2)
proof (induction rs arbitrary: s)
  case Nil
  then show ?case by simp
next
  case (Cons r rs)
  obtain d where d: "restore_row Q K db r = Some d" using restore_row_Some alloc by blast
  have w: "dl_id d = i \<longleftrightarrow> row_id r = sint i"
    using word_of_row_id [of r i] Cons.prems restore_row_fields(1) [OF d] by auto
  have n: "row_id r = sint i \<Longrightarrow> find (\<lambda>r. row_id r = sint i) rs = None"
    using Cons.prems(1) by (simp add: find_None_key)
  from Cons d w n show ?case by (auto simp: find_add_existing split: option.splits)
qed

lemma find_filter_status:
  assumes "distinct (map row_id rs)"
  shows "find (\<lambda>r. row_id r = k) (filter P rs) =
     (case find (\<lambda>r. row_id r = k) rs of Some r \<Rightarrow> if P r then Some r else None | None \<Rightarrow> None)"
  using assms
proof (induction rs)
  case Nil
  then show ?case by simp
next
  case (Cons r rs)
  have "row_id r = k \<Longrightarrow> find (\<lambda>r. row_id r = k) rs = None"
    using Cons.prems by (simp add: find_None_key)
  then show ?case using Cons by (cases "P r") auto
qed

text \<open>A started daemon holds exactly the unfinished rows, each as \<open>restore_row\<close> reads it.\<close>

lemma restore_queue_lookup:
  assumes inv: "db_inv db" and "db_ready db" and "Q StRestore = Runs"
    and "\<And>site. k_alloc K site"
  shows "queue_manager_find_by_id i (snd (db_restore_queue Q K db qm_init)) =
     (case find_row db (sint i) of
        Some r \<Rightarrow> if row_status r \<noteq> ''DONE'' then restore_row Q K db r else None
      | None \<Rightarrow> None)"
proof -
  let ?rs = "filter (\<lambda>r. row_status r \<noteq> ''DONE'') (t_downloads db)"
  have dist: "distinct (map row_id (t_downloads db))" using inv by (rule db_inv_distinct)
  then have "distinct (map row_id ?rs)" by (rule distinct_map_filter)
  moreover have "row_id ` set ?rs \<subseteq> {- (2 ^ 31)..<2 ^ 31}" using inv unfolding db_inv_def by auto
  ultimately have "queue_manager_find_by_id i (restore_loop Q K db ?rs qm_init) =
     (case find (\<lambda>r. row_id r = sint i) ?rs of Some r \<Rightarrow> restore_row Q K db r
      | None \<Rightarrow> queue_manager_find_by_id i qm_init)"
    using assms(4) by (rule restore_loop_lookup)
  then show ?thesis
    using assms(2,3) find_filter_status [OF dist, of "sint i"]
    by (auto simp: db_restore_queue_def rows_of_def find_row_def queue_manager_find_by_id_def
        qm_init_def split: option.splits)
qed

section \<open>Ids after a restart\<close>

definition positive_ids :: "database \<Rightarrow> bool" where
  "positive_ids db \<longleftrightarrow> (\<forall>r\<in>set (t_downloads db). 0 < row_id r)"

lemma max_id_bounds_rows:
  assumes "db_inv db" "db_ready db" "positive_ids db" "Q StMaxId = Runs" "r \<in> set (t_downloads db)"
  shows "row_id r \<le> uint (db_get_max_id Q db)" and "uint (db_get_max_id Q db) < 2 ^ 31"
proof -
  let ?ids = "row_id ` set (t_downloads db)"
  have ne: "t_downloads db \<noteq> []" "?ids \<noteq> {}" "finite ?ids" using assms(5) by auto
  then have m: "Max ?ids \<in> ?ids" by (intro Max_in) auto
  then have rng: "0 < Max ?ids" "Max ?ids < 2 ^ 31"
    using assms(1,3) unfolding db_inv_def positive_ids_def by auto
  then have "Max ?ids mod 2 ^ 32 = Max ?ids" by (intro mod_pos_pos_trivial) simp_all
  then have u: "uint (db_get_max_id Q db) = Max ?ids"
    using assms(2,4) ne by (simp add: db_get_max_id_def rows_of_def uint_word_of_int)
  show "row_id r \<le> uint (db_get_max_id Q db)" unfolding u using assms(5) ne by (intro Max_ge) auto
  show "uint (db_get_max_id Q db) < 2 ^ 31" unfolding u by (rule rng(2))
qed

section \<open>What a crash would restore\<close>

text \<open>The status an entry comes back with: a running download is queued again.\<close>

definition crash_image :: "download_status \<Rightarrow> download_status" where
  "crash_image s = (if s = DOWNLOAD_ACTIVE then DOWNLOAD_QUEUED else s)"

text \<open>The stored text \<open>t\<close> restores an entry of status \<open>s\<close> (\<open>None\<close>: no such entry or row).\<close>

definition status_agrees :: "download_status option \<Rightarrow> string option \<Rightarrow> bool" where
  "status_agrees so to =
     (case so of
        None \<Rightarrow> True
      | Some s \<Rightarrow>
          (case to of
             None \<Rightarrow> False
           | Some t \<Rightarrow> (s = DOWNLOAD_DONE \<longleftrightarrow> t = ''DONE'') \<and>
                       (s \<noteq> DOWNLOAD_DONE \<longrightarrow> status_of_text t = crash_image s)))"

definition in_store :: "qm_state \<Rightarrow> database \<Rightarrow> u32 \<Rightarrow> bool" where
  "in_store q db i \<longleftrightarrow>
     status_agrees (queue_manager_get_status i q) (map_option row_status (find_row db (sint i)))"

lemma find_row_chunks [simp]: "find_row (db\<lparr>t_chunks := cs\<rparr>) k = find_row db k"
  by (simp add: find_row_def)

lemma row_status_update:
  assumes "db_ready db" and "Q StUpdateStatus = Runs"
  shows "map_option row_status (find_row (snd (db_update_status Q i t db)) (sint j)) =
     (if j = i then map_option (\<lambda>_. t) (find_row db (sint i)) else map_option row_status (find_row db (sint j)))"
  using assms by (simp add: db_update_status_def ds.lookup_update option.map_comp comp_def)

lemma row_status_other_writes:
  "map_option row_status (find_row (snd (db_delete_chunks Q i db)) k) = map_option row_status (find_row db k)"
  "map_option row_status (find_row (snd (db_update_total_size Q i n db)) k) = map_option row_status (find_row db k)"
  "map_option (\<lambda>_. c) (find_row (snd (db_delete_chunks Q i db)) k) = map_option (\<lambda>_. c) (find_row db k)"
  "map_option (\<lambda>_. c) (find_row (snd (db_update_total_size Q i n db)) k) = map_option (\<lambda>_. c) (find_row db k)"
  by (simp_all add: db_delete_chunks_def db_update_total_size_def exec_write_def ds.lookup_update_field)

lemma db_ready_writes [simp]:
  "db_ready (snd (db_delete_chunks Q i db)) = db_ready db"
  "db_ready (snd (db_update_total_size Q i n db)) = db_ready db"
  "db_ready (snd (db_update_status Q i t db)) = db_ready db"
  by (simp_all add: db_delete_chunks_def db_update_total_size_def db_update_status_def exec_write_def
      update_rows_def)

section \<open>Properties\<close>

text \<open>The option strings fit the buffers of \<open>RequestOptions\<close>.\<close>

definition options_fit :: "request_options option \<Rightarrow> bool" where
  "options_fit opts \<longleftrightarrow>
     (case opts of None \<Rightarrow> True
      | Some r \<Rightarrow> length (ro_cookie r) < 1024 \<and> length (ro_referrer r) < 2048 \<and>
                  length (ro_extra_headers r) < 4096 \<and> length (ro_expected_sha256 r) < 65)"

lemma row_options_new_row:
  assumes "options_fit opts"
  shows "(if request_options_present (Some (row_options (new_row i url dest opts rsv now)))
          then Some (row_options (new_row i url dest opts rsv now)) else None) =
         (if request_options_present opts then opts else None)"
  using assms
  by (cases opts) (auto simp: row_options_def new_row_def options_fit_def request_options_present_def)

text \<open>
  C5: A download that was stored survives a restart: after a successful insert, the queue restored
  from the store holds an entry with that id, the same URL, destination, options and reservation
  flag, queued and without resume data, even when a download with that id was stored before.
\<close>

theorem stored_download_is_restored:
  assumes "db_inv db" and "insert_download Q i url dest opts rsv now db = (0, db')"
    and "Q StRestore = Runs" and "Q StLoadChunks = Runs" and "\<forall>site. k_alloc K site"
    and "length url < 2048" and "length dest < 1024" and "options_fit opts"
  shows "\<exists>d. queue_manager_find_by_id i (snd (db_restore_queue Q K db' qm_init)) = Some d \<and>
    dl_url d = url \<and> dl_dest_path d = dest \<and> dl_status d = DOWNLOAD_QUEUED \<and>
    dl_request d = (if request_options_present opts then opts else None) \<and>
    dl_reserved_file d = rsv \<and> dl_chunk_count d = 0"
proof -
  let ?r = "new_row i url dest opts rsv now"
  have id: "row_id ?r = sint i" by (simp add: new_row_def)
  have rng: "- (2 ^ 31) \<le> row_id ?r" "row_id ?r < 2 ^ 31"
    using sint_ge [of i] sint_lt [of i] by (simp_all add: id)
  have w: "db_ready db" "db' = replace_row ?r db"
    using exec_write_ok assms(2) unfolding insert_download_def by blast+
  have inv: "db_inv db'" unfolding w using assms(1) rng by (rule db_inv_replace_row)
  have rdy: "db_ready db'" using w by (simp add: replace_row_def Let_def)
  have row: "find_row db' (sint i) = Some ?r"
    unfolding w using find_row_replace [OF assms(1) rng, of "sint i"] id by simp
  obtain d where d: "restore_row Q K db' ?r = Some d" using restore_row_Some assms(5) by blast
  have ch: "filter (\<lambda>c. ch_download_id c = sint i) (t_chunks db') = []"
    using chunks_replace_row [OF assms(1), of ?r] by (simp add: w id)
  have "db_load_chunks Q i (int QM_MAX_CHUNKS) db' = []"
    unfolding db_load_chunks_def ch by (simp add: rows_of_def split: sql_outcome.splits)
  moreover have "word_of_int (row_id ?r) = i" by (simp add: id)
  moreover have "queue_manager_find_by_id i (snd (db_restore_queue Q K db' qm_init)) = Some d"
    using restore_queue_lookup [of db' Q K i] inv rdy assms(3,5) row d by (simp add: new_row_def)
  moreover have "as_int (row_reserved_file ?r) \<noteq> 0 \<longleftrightarrow> rsv" by (simp add: new_row_def as_int_def)
  ultimately show ?thesis
    using restore_row_fields [OF d] assms(6,7) row_options_new_row [OF assms(8)]
    by (intro exI [of _ d]) (simp add: new_row_def status_of_text_def)
qed

theorem stored_download_is_restored_witness:
  "\<exists>d. queue_manager_find_by_id 7 (snd (db_restore_queue (\<lambda>_. Runs) good_kernel
          (snd (insert_download (\<lambda>_. Runs) 7 ''http://h/f'' ''/tmp/f'' None True 5
             \<lparr>db_ready = True, db_columns = [], t_downloads = [], t_chunks = []\<rparr>)) qm_init)) = Some d \<and>
       dl_dest_path d = ''/tmp/f'' \<and> dl_reserved_file d"
proof -
  let ?db = "\<lparr>db_ready = True, db_columns = [], t_downloads = [], t_chunks = []\<rparr>"
  have "db_inv ?db" by (simp add: db_inv_def)
  moreover obtain db' where "insert_download (\<lambda>_. Runs) 7 ''http://h/f'' ''/tmp/f'' None True 5 ?db = (0, db')"
    by (simp add: insert_download_def)
  ultimately show ?thesis
    using stored_download_is_restored [of ?db "\<lambda>_. Runs" 7 "''http://h/f''" "''/tmp/f''" None True 5 db' good_kernel]
    by (auto simp: options_fit_def)
qed

text \<open>
  The resume information of a fresh plan is stored faithfully: the chunks of a plan for a file
  below \<open>2^63\<close> bytes, inserted for a stored download without chunks, are loaded back complete, in
  file order, with no byte marked done.
\<close>

lemma stored_plan_is_loaded:
  assumes "db_ready db" and "Q StInsertChunk = Runs" and "Q StLoadChunks = Runs"
    and "find_row db (sint i) \<noteq> None"
    and "filter (\<lambda>c. ch_download_id c = sint i) (t_chunks db) = []"
    and "total_size \<noteq> 0" and "unat total_size < 2 ^ 63"
  shows "db_load_chunks Q i (int QM_MAX_CHUNKS) (insert_chunks Q i
      (map (\<lambda>r. (r_start r, r_end r)) (segmenter_plan total_size (choose_worker_count total_size))) db) =
    map (\<lambda>r. \<lparr>range_start = r_start r, range_end = r_end r, bytes_done = 0\<rparr>)
      (segmenter_plan total_size (choose_worker_count total_size))"
proof -
  let ?n = "choose_worker_count total_size"
  let ?plan = "segmenter_plan total_size ?n"
  have n: "0 < ?n" "nat ?n \<le> 8" using choose_worker_count_range [of total_size] by auto
  have t: "tiles 0 ?plan (unat total_size)" using assms(6) n(1) by (rule segmenter_plan_tiles)
  note st = tiles_starts [OF t]
  have "sint (r_start r) = int (unat (r_start r))" if "r \<in> set ?plan" for r
  proof -
    have "unat (r_start r) < 2 ^ 63" using st that assms(7) by fastforce
    then show ?thesis by (rule sint_small)
  qed
  then have "map (\<lambda>(a, b). sint a) (map (\<lambda>r. (r_start r, r_end r)) ?plan) =
      map int (map (\<lambda>r. unat (r_start r)) ?plan)" by simp
  moreover have "sorted (map int (map (\<lambda>r. unat (r_start r)) ?plan))"
    using st by (simp only: sorted_map sorted_wrt_map of_nat_le_iff)
  ultimately have "sorted (map (\<lambda>(a, b). sint a) (map (\<lambda>r. (r_start r, r_end r)) ?plan))" by (simp only:)
  moreover have "length (map (\<lambda>r. (r_start r, r_end r)) ?plan) \<le> QM_MAX_CHUNKS"
    using n by (simp add: length_segmenter_plan QM_MAX_CHUNKS_def)
  ultimately show ?thesis
    using load_inserted_chunks [of db Q i "map (\<lambda>r. (r_start r, r_end r)) ?plan"] assms(1-5)
    by (simp add: comp_def)
qed

text \<open>
  Every write of the store, successful or not, keeps the tables consistent: the ids are unique
  and in order, and no chunk refers to a download that is not stored.
\<close>

lemma store_stays_consistent:
  assumes "db_inv db"
  shows "db_inv (snd (insert_download Q i url dest opts rsv now db)) \<and>
    db_inv (snd (db_update_status Q i st db)) \<and> db_inv (snd (db_update_total_size Q i sz db)) \<and>
    db_inv (snd (db_insert_chunk Q i a b db)) \<and> db_inv (snd (db_update_chunk_progress Q i a n db)) \<and>
    db_inv (snd (db_update_chunk_range Q i a b db)) \<and> db_inv (snd (db_delete_chunks Q i db))"
  by (intro conjI db_inv_writes assms)

text \<open>
  After a restart (restore, then seeding the counter with the largest stored id plus one) the id
  given to the next download is not the id of any stored row, finished ones included, so inserting
  it cannot replace a stored download. This needs the stored ids to be positive as signed 32-bit
  numbers, which is how the store keeps them.
\<close>

lemma restart_gives_fresh_ids:
  assumes "db_inv db" and "db_ready db" and "positive_ids db" and "Q StMaxId = Runs"
    and "queue_manager_add K url dest opts
           (queue_manager_seed_next_id (db_get_max_id Q db + 1) (snd (db_restore_queue Q K db qm_init))) = (i, s')"
    and "i \<noteq> 0"
  shows "find_row db (sint i) = None"
proof (rule ccontr)
  let ?m = "db_get_max_id Q db"
  let ?s = "queue_manager_seed_next_id (?m + 1) (snd (db_restore_queue Q K db qm_init))"
  assume "find_row db (sint i) \<noteq> None"
  then obtain r where "find_row db (sint i) = Some r" by auto
  then have r: "r \<in> set (t_downloads db)" "row_id r = sint i" by (auto dest: find_row_SomeD)
  have m: "row_id r \<le> uint ?m" "uint ?m < 2 ^ 31"
    using assms(1-4) r(1) by (rule max_id_bounds_rows)+
  have "uint (?m + 1) = uint ?m + 1" using m(2) by (intro uint_add_nowrap [of _ 1, simplified]) simp
  moreover have "?m + 1 \<le> i"
    using add_result [OF assms(5)] assms(6) by (auto simp: queue_manager_seed_next_id_def)
  ultimately have "row_id r < uint i" using m(1) by (simp add: word_le_def)
  moreover have "0 < sint i" using r assms(3) by (auto simp: positive_ids_def)
  then have "uint i = sint i" by (intro uint_eq_sint) simp
  ultimately show False using r(2) by simp
qed

end
