(* ===== verification/Engine_Runner.thy ===== *)
theory Engine_Runner
  imports Db Worker_Pool Finalize Curl_Client
begin

text \<open>
  \<open>src/engine/engine_runner.c\<close>: one run of a download. It probes the server, decides between a
  fresh start and a resume, plans and persists the ranges, runs the workers, flushes the progress,
  falls back to a single connection and verifies the file. The theory characterises the return
  codes: success implies a verified file, a failed verification leaves nothing behind, an existing
  destination is never touched; and it exhibits the defects of the resume path.
\<close>

record eng =
  en_d :: download
  en_db :: database
  en_fs :: fs

record engine_env =
  ee_sql :: sql
  ee_kernel :: kernel
  ee_head :: head_exchange
  ee_created :: "nat \<Rightarrow> bool"
  ee_threads :: "(download \<times> database) threads"
  ee_created_single :: bool
  ee_single :: "(download \<times> database) threads"
  ee_junk :: "u8 list"

section \<open>Helpers\<close>

definition is_valid_url :: "string \<Rightarrow> bool" where
  "is_valid_url url \<longleftrightarrow> starts_with ''http://'' url \<or> starts_with ''https://'' url"

definition chunk_is_complete :: "download_chunk \<Rightarrow> bool" where
  "chunk_is_complete c \<longleftrightarrow> bytes_done c \<ge> range_end c - range_start c + 1"

definition clear_resume_state :: "sql \<Rightarrow> kernel \<Rightarrow> bool \<Rightarrow> eng \<Rightarrow> eng" where
  "clear_resume_state Q K also_delete st =
     (let d = en_d st;
          db1 = snd (db_delete_chunks Q (dl_id d) (en_db st));
          db2 = snd (db_update_total_size Q (dl_id d) 0 db1)
      in \<lparr>en_d = d\<lparr>dl_chunks := replicate QM_MAX_CHUNKS zero_chunk, dl_chunk_count := 0,
                   dl_total_size := 0, dl_progress := 0, dl_bytes_downloaded := 0,
                   dl_chunk_live_bytes := replicate QM_MAX_CHUNKS 0\<rparr>,
          en_db = db2,
          en_fs = (if also_delete \<and> dl_dest_path d \<noteq> [] then sys_unlink K (dl_dest_path d) (en_fs st)
                   else en_fs st)\<rparr>)"

section \<open>The split callback\<close>

text \<open>The loop that shrinks the chunk starting at \<open>victim_start\<close>, if there is one.\<close>

definition shrink_victim :: "sql \<Rightarrow> u64 \<Rightarrow> u64 \<Rightarrow> download \<times> database \<Rightarrow> download \<times> database" where
  "shrink_victim Q victim_start new_start x =
     (case x of (d, db) \<Rightarrow>
        (case first_index (\<lambda>c. range_start c = victim_start) (take (dl_chunk_count d) (dl_chunks d)) of
           None \<Rightarrow> (d, db)
         | Some j \<Rightarrow>
             (d\<lparr>dl_chunks := (dl_chunks d)[j := (dl_chunks d ! j)\<lparr>range_end := new_start - 1\<rparr>]\<rparr>,
              snd (db_update_chunk_range Q (dl_id d) victim_start (new_start - 1) db))))"

definition on_rebalance_split :: "sql \<Rightarrow> (download \<times> database) split_fn" where
  "on_rebalance_split Q victim_start new_start new_end x =
     (case x of (ptrs, live, env) \<Rightarrow>
        (case shrink_victim Q victim_start new_start env of
           (d, db) \<Rightarrow>
             if dl_chunk_count d \<ge> QM_MAX_CHUNKS then (ptrs, live, (d, db))
             else let idx = dl_chunk_count d
                  in (ptrs[idx := Counter idx], live[idx := 0],
                      (d\<lparr>dl_chunks := (dl_chunks d)[idx := \<lparr>range_start = new_start,
                             range_end = new_end - 1, bytes_done = 0\<rparr>],
                         dl_chunk_count := idx + 1\<rparr>,
                       snd (db_insert_chunk Q (dl_id d) new_start (new_end - 1) db)))))"

section \<open>Planning\<close>

record plan =
  pl_ranges :: "range list"
  pl_slots :: "nat list"          \<comment> \<open>\<open>chunk_slot_for_range\<close>\<close>
  pl_bytes :: u64                 \<comment> \<open>\<open>d->bytes_downloaded\<close>\<close>
  pl_live :: "u64 list"           \<comment> \<open>\<open>d->chunk_live_bytes\<close>\<close>

text \<open>The resume loop over the chunk indices.\<close>

definition resume_step :: "file_info \<Rightarrow> download_chunk list \<Rightarrow> plan \<Rightarrow> nat \<Rightarrow> plan" where
  "resume_step info chunks pl i =
     (if length (pl_ranges pl) \<ge> MAX_WORKERS then pl
      else let c = chunks ! i
           in if chunk_is_complete c
              then pl\<lparr>pl_bytes := pl_bytes pl + (range_end c - range_start c + 1),
                      pl_live := (pl_live pl)[i := bytes_done c]\<rparr>
              else let whole = (\<not> fi_supports_ranges info \<and> range_start c = 0 \<and>
                                range_end c = fi_total_size info - 1);
                       r = \<lparr>r_start = range_start c, r_end = range_end c,
                            resume_offset = (if whole then 0 else bytes_done c), whole_file = whole\<rparr>
                   in pl\<lparr>pl_ranges := pl_ranges pl @ [r], pl_slots := pl_slots pl @ [i],
                         pl_bytes := (if whole then pl_bytes pl else pl_bytes pl + bytes_done c),
                         pl_live := (pl_live pl)[i := bytes_done c]\<rparr>)"

definition resume_plan :: "file_info \<Rightarrow> download \<Rightarrow> plan" where
  "resume_plan info d =
     foldl (resume_step info (dl_chunks d))
       \<lparr>pl_ranges = [], pl_slots = [], pl_bytes = 0, pl_live = dl_chunk_live_bytes d\<rparr>
       [0..<dl_chunk_count d]"

definition fresh_ranges :: "file_info \<Rightarrow> range list" where
  "fresh_ranges info =
     (let n_workers = (if \<not> fi_supports_ranges info then 1 else choose_worker_count (fi_total_size info))
      in if fi_total_size info > 0 \<and> fi_supports_ranges info
         then segmenter_plan (fi_total_size info) n_workers
         else [\<lparr>r_start = 0, r_end = (if fi_total_size info > 0 then fi_total_size info - 1 else 0),
                resume_offset = 0, whole_file = True\<rparr>])"

text \<open>Persisting a fresh plan: one row and one chunk per range.\<close>

fun persist_plan :: "sql \<Rightarrow> range list \<Rightarrow> nat \<Rightarrow> download \<times> database \<Rightarrow> download \<times> database" where
  "persist_plan Q [] i x = x"
| "persist_plan Q (r # rs) i (d, db) =
     (if i \<ge> QM_MAX_CHUNKS then (d, db)
      else persist_plan Q rs (Suc i)
             (d\<lparr>dl_chunks := (dl_chunks d)[i := \<lparr>range_start = r_start r, range_end = r_end r, bytes_done = 0\<rparr>],
                dl_chunk_count := dl_chunk_count d + 1,
                dl_chunk_live_bytes := (dl_chunk_live_bytes d)[i := 0]\<rparr>,
              snd (db_insert_chunk Q (dl_id d) (r_start r) (r_end r) db)))"

section \<open>Running\<close>

definition reserved_here :: "engine_env \<Rightarrow> eng \<Rightarrow> bool" where
  "reserved_here E st \<longleftrightarrow>
     dl_reserved_file (en_d st) \<and> sys_access (ee_kernel E) (dl_dest_path (en_d st)) (en_fs st) = None"

definition preallocate :: "engine_env \<Rightarrow> u64 \<Rightarrow> eng \<Rightarrow> int \<times> fs" where
  "preallocate E sz st =
     (if reserved_here E st
      then file_preallocate_reserved (ee_kernel E) (dl_dest_path (en_d st)) sz (en_fs st)
      else file_preallocate (ee_kernel E) (dl_dest_path (en_d st)) sz (en_fs st))"

definition expected_sha :: "download \<Rightarrow> string option" where
  "expected_sha d = map_option ro_expected_sha256 (dl_request d)"

definition finalize_download :: "engine_env \<Rightarrow> u64 \<Rightarrow> eng \<Rightarrow> int \<times> eng" where
  "finalize_download E sz st =
     (if engine_finalize (ee_kernel E) (ee_junk E) (dl_dest_path (en_d st)) sz (expected_sha (en_d st)) (en_fs st) \<noteq> 0
      then (-2, clear_resume_state (ee_sql E) (ee_kernel E) True st)
      else (0, st))"

text \<open>The state the workers share, and the state of the engine after them.\<close>

definition to_world :: "eng \<Rightarrow> pool option \<Rightarrow> progress_ptr list \<Rightarrow> (download \<times> database) wworld" where
  "to_world st po ptrs =
     \<lparr>ww_fs = en_fs st, ww_pool = po, ww_bytes = dl_bytes_downloaded (en_d st),
      ww_live = dl_chunk_live_bytes (en_d st), ww_ptrs = ptrs,
      ww_cancel = dl_cancel_requested (en_d st), ww_pause = dl_pause_requested (en_d st),
      ww_env = (en_d st, en_db st)\<rparr>"

definition from_world :: "(download \<times> database) wworld \<Rightarrow> eng" where
  "from_world w =
     (case ww_env w of (d, db) \<Rightarrow>
        \<lparr>en_d = d\<lparr>dl_bytes_downloaded := ww_bytes w, dl_chunk_live_bytes := ww_live w,
                 dl_cancel_requested := ww_cancel w, dl_pause_requested := ww_pause w\<rparr>,
         en_db = db, en_fs = ww_fs w\<rparr>)"

text \<open>Flushing the counters of chunks \<open>i, i + 1, ...\<close> (\<open>k\<close> of them) to the chunks and the store.\<close>

fun flush_chunks :: "sql \<Rightarrow> nat \<Rightarrow> nat \<Rightarrow> eng \<Rightarrow> eng" where
  "flush_chunks Q i 0 st = st"
| "flush_chunks Q i (Suc k) st =
     (let d = en_d st;
          n = dl_chunk_live_bytes d ! i
      in flush_chunks Q (Suc i) k
           (st\<lparr>en_d := d\<lparr>dl_chunks := (dl_chunks d)[i := (dl_chunks d ! i)\<lparr>bytes_done := n\<rparr>]\<rparr>,
               en_db := snd (db_update_chunk_progress Q (dl_id d) (range_start (dl_chunks d ! i)) n (en_db st))\<rparr>))"

definition single_range :: range where
  "single_range = \<lparr>r_start = 0, r_end = 0, resume_offset = 0, whole_file = True\<rparr>"

definition run_ranges :: "engine_env \<Rightarrow> u64 \<Rightarrow> range list \<Rightarrow> nat list \<Rightarrow> eng \<Rightarrow> int \<times> eng" where
  "run_ranges E sz ranges slots st =
     (let K = ee_kernel E;
          Q = ee_sql E;
          n = length ranges;
          ptrs = map Counter slots @ replicate (MAX_WORKERS - n) Uninit;
          po = (if n > 1 then rebalance_pool_create (k_alloc K ''RebalancePool'') ranges ptrs (1024 * 1024)
                else None);
          dest = dl_dest_path (en_d st);
          (ok, w) = worker_pool_run K (ee_created E) (ee_threads E) ranges dest (map Counter slots)
                      (to_world st po ptrs);
          st0 = from_world w;
          st1 = flush_chunks Q 0 (dl_chunk_count (en_d st0)) st0;
          user_stopped = (dl_cancel_requested (en_d st1) \<or> dl_pause_requested (en_d st1));
          (ok', st2) =
            (if \<not> ok \<and> n > 1 \<and> \<not> user_stopped
             then let (b, w') = worker_pool_run K (\<lambda>_. ee_created_single E) (ee_single E) [single_range] dest []
                                  (to_world (st1\<lparr>en_d := (en_d st1)\<lparr>dl_bytes_downloaded := 0\<rparr>\<rparr>) None [])
                  in (b, from_world w')
             else (ok, st1))
      in if \<not> ok' then (-1, st2) else finalize_download E sz st2)"

definition set_total :: "sql \<Rightarrow> u64 \<Rightarrow> eng \<Rightarrow> eng" where
  "set_total Q sz st =
     st\<lparr>en_d := (en_d st)\<lparr>dl_total_size := sz\<rparr>,
        en_db := snd (db_update_total_size Q (dl_id (en_d st)) sz (en_db st))\<rparr>"

definition run_resume :: "engine_env \<Rightarrow> file_info \<Rightarrow> eng \<Rightarrow> int \<times> eng" where
  "run_resume E info st =
     (let pl = resume_plan info (en_d st);
          st1 = st\<lparr>en_d := (en_d st)\<lparr>dl_bytes_downloaded := pl_bytes pl, dl_chunk_live_bytes := pl_live pl\<rparr>\<rparr>
      in if pl_ranges pl = [] then finalize_download E (fi_total_size info) st1
         else run_ranges E (fi_total_size info) (pl_ranges pl) (pl_slots pl) st1)"

definition run_fresh :: "engine_env \<Rightarrow> file_info \<Rightarrow> eng \<Rightarrow> int \<times> eng" where
  "run_fresh E info st =
     (let Q = ee_sql E;
          ranges = fresh_ranges info;
          (rc, fs') = preallocate E (fi_total_size info) st;
          st1 = st\<lparr>en_fs := fs'\<rparr>
      in if rc = -2 then (-3, st1)
         else if rc \<noteq> 0 then (-1, st1)
         else let db1 = snd (db_delete_chunks Q (dl_id (en_d st1)) (en_db st1));
                  (d, db2) = persist_plan Q ranges 0 ((en_d st1)\<lparr>dl_chunk_count := 0\<rparr>, db1);
                  st2 = st1\<lparr>en_d := d\<lparr>dl_bytes_downloaded := 0\<rparr>, en_db := db2\<rparr>
              in run_ranges E (fi_total_size info) ranges [0..<length ranges] st2)"

definition engine_run_download :: "engine_env \<Rightarrow> eng \<Rightarrow> int \<times> eng" where
  "engine_run_download E st =
     (let K = ee_kernel E;
          Q = ee_sql E;
          d = en_d st
      in if dl_chunk_count d > 0 \<and> sys_access K (dl_dest_path d) (en_fs st) = Some ENOENT
         then (-4, clear_resume_state Q K False st)
         else if \<not> is_valid_url (dl_url d) then (-1, st)
         else case curl_client_head (ee_head E) of
                (rc, info) \<Rightarrow>
                  if rc \<noteq> 0 then (-1, st)
                  else let resuming = dl_chunk_count d > 0;
                           stale = (dl_total_size d \<noteq> 0 \<and> fi_total_size info \<noteq> dl_total_size d);
                           impossible = file_get_size K (dl_dest_path d) (en_fs st) > fi_total_size info
                       in if resuming \<and> \<not> (stale \<or> impossible)
                          then run_resume E info (set_total Q (fi_total_size info) st)
                          else run_fresh E info (set_total Q (fi_total_size info)
                                 (if resuming then clear_resume_state Q K True st else st)))"

section \<open>Return codes\<close>

lemma finalize_download_cases:
  assumes "finalize_download E sz st = (rc, st')"
  obtains (accepted) "rc = 0" "st' = st"
      "engine_finalize (ee_kernel E) (ee_junk E) (dl_dest_path (en_d st)) sz (expected_sha (en_d st)) (en_fs st) = 0"
    | (refused) "rc = -2" "st' = clear_resume_state (ee_sql E) (ee_kernel E) True st"
  using assms by (auto simp: finalize_download_def split: if_splits)

lemma run_ranges_cases:
  assumes "run_ranges E sz ranges slots st = (rc, st')"
  obtains (failed) "rc = -1" | (finished) st2 where "finalize_download E sz st2 = (rc, st')"
  using assms by (auto simp: run_ranges_def Let_def split: prod.splits if_splits)

text \<open>What can come after the probe: an early error, or the final verification.\<close>

lemma engine_run_cases:
  assumes "engine_run_download E st = (rc, st')"
  obtains (gone) "rc = -4" | (early) "rc = -1" | (exists_already) "rc = -3"
    | (finished) st2 where
      "finalize_download E (fi_total_size (snd (curl_client_head (ee_head E)))) st2 = (rc, st')"
      "fst (curl_client_head (ee_head E)) = 0" "is_valid_url (dl_url (en_d st))"
proof -
  obtain hrc info where h: "curl_client_head (ee_head E) = (hrc, info)" by fastforce
  have resume: "rc = -1 \<or> (\<exists>st2. finalize_download E (fi_total_size info) st2 = (rc, st'))"
    if "run_resume E info x = (rc, st')" for x
    using that by (auto simp: run_resume_def Let_def split: if_splits elim: run_ranges_cases)
  have fresh: "rc = -1 \<or> rc = -3 \<or> (\<exists>st2. finalize_download E (fi_total_size info) st2 = (rc, st'))"
    if "run_fresh E info x = (rc, st')" for x
    using that by (auto simp: run_fresh_def Let_def split: if_splits prod.splits elim: run_ranges_cases)
  show thesis
    using assms h resume fresh gone early exists_already finished
    by (auto simp: engine_run_download_def Let_def split: if_splits)
qed

lemma clear_resume_fields:
  "dl_chunk_count (en_d (clear_resume_state Q K b st)) = 0"
  "dl_total_size (en_d (clear_resume_state Q K b st)) = 0"
  "dl_bytes_downloaded (en_d (clear_resume_state Q K b st)) = 0"
  "dl_dest_path (en_d (clear_resume_state Q K b st)) = dl_dest_path (en_d st)"
  by (simp_all add: clear_resume_state_def Let_def)

lemma clear_resume_unlinks:
  "dl_dest_path (en_d st) \<noteq> [] \<Longrightarrow> k_fault K SysUnlink (dl_dest_path (en_d st)) = None \<Longrightarrow>
   en_fs (clear_resume_state Q K True st) (dl_dest_path (en_d st)) = None"
  by (simp add: clear_resume_state_def Let_def sys_unlink_def)

section \<open>Resume ranges\<close>

definition chunk_ok :: "download_chunk \<Rightarrow> bool" where
  "chunk_ok c \<longleftrightarrow> range_start c \<le> range_end c \<and> unat (range_end c) < 2 ^ 64 - 1 \<and>
     unat (bytes_done c) \<le> unat (range_end c) - unat (range_start c) + 1"

definition chunk_missing :: "download_chunk \<Rightarrow> nat set" where
  "chunk_missing c = {unat (range_start c) + unat (bytes_done c)..unat (range_end c)}"

definition wanted_bytes :: "range \<Rightarrow> nat set" where
  "wanted_bytes r = {unat (r_start r + resume_offset r)..unat (r_end r)}"

definition chunk_range :: "download_chunk \<Rightarrow> range" where
  "chunk_range c = \<lparr>r_start = range_start c, r_end = range_end c, resume_offset = bytes_done c, whole_file = False\<rparr>"

lemma unat_chunk_length:
  assumes "chunk_ok c"
  shows "unat (range_end c - range_start c + 1) = unat (range_end c) - unat (range_start c) + 1"
proof -
  have d: "unat (range_end c - range_start c) = unat (range_end c) - unat (range_start c)"
    using assms by (intro unat_diff_le) (simp add: chunk_ok_def)
  then have "unat (range_end c - range_start c) + unat (1 :: u64) < 2 ^ LENGTH(64)"
    using assms by (auto simp: chunk_ok_def)
  from unat_add_nowrap [OF this] d show ?thesis by simp
qed

lemma complete_iff_nothing_missing:
  assumes "chunk_ok c"
  shows "chunk_is_complete c \<longleftrightarrow> chunk_missing c = {}"
proof -
  have "unat (range_start c) \<le> unat (range_end c)" using assms by (simp add: chunk_ok_def word_le_nat_alt)
  then show ?thesis
    using unat_chunk_length [OF assms] by (auto simp: chunk_is_complete_def chunk_missing_def word_le_nat_alt)
qed

lemma chunk_range_wanted:
  assumes "chunk_ok c" and "\<not> chunk_is_complete c"
  shows "wanted_bytes (chunk_range c) = chunk_missing c"
proof -
  have "unat (range_start c) + unat (bytes_done c) \<le> unat (range_end c)"
    using assms complete_iff_nothing_missing [OF assms(1)] by (simp add: chunk_missing_def)
  then have "unat (range_start c + bytes_done c) = unat (range_start c) + unat (bytes_done c)"
    using unat_lt2p [of "range_end c"] by (intro unat_add_nowrap) simp
  then show ?thesis by (simp add: wanted_bytes_def chunk_range_def chunk_missing_def)
qed

lemma resume_step_ranges:
  assumes "fi_supports_ranges info" and "length (pl_ranges pl) < MAX_WORKERS"
  shows "pl_ranges (resume_step info cs pl i) =
     pl_ranges pl @ (if chunk_is_complete (cs ! i) then [] else [chunk_range (cs ! i)])"
  using assms by (simp add: resume_step_def Let_def chunk_range_def)

lemma resume_fold_ranges:
  assumes "fi_supports_ranges info" and "length (pl_ranges pl) + length is \<le> MAX_WORKERS"
  shows "pl_ranges (foldl (resume_step info cs) pl is) =
     pl_ranges pl @ map (\<lambda>i. chunk_range (cs ! i)) (filter (\<lambda>i. \<not> chunk_is_complete (cs ! i)) is)"
  using assms(2)
proof (induction "is" arbitrary: pl)
  case Nil
  then show ?case by simp
next
  case (Cons i "is")
  have s: "pl_ranges (resume_step info cs pl i) =
      pl_ranges pl @ (if chunk_is_complete (cs ! i) then [] else [chunk_range (cs ! i)])"
    using assms(1) Cons.prems by (intro resume_step_ranges) simp_all
  then have "length (pl_ranges (resume_step info cs pl i)) + length is \<le> MAX_WORKERS"
    using Cons.prems by simp
  from Cons.IH [OF this] s show ?case by simp
qed

lemma resume_plan_ranges:
  assumes "fi_supports_ranges info" and "wf_download d"
  shows "pl_ranges (resume_plan info d) =
     map chunk_range (filter (\<lambda>c. \<not> chunk_is_complete c) (take (dl_chunk_count d) (dl_chunks d)))"
proof -
  let ?n = "dl_chunk_count d"
  have n: "?n \<le> MAX_WORKERS" "?n \<le> length (dl_chunks d)"
    using assms(2) by (auto simp: wf_download_def QM_MAX_CHUNKS_def MAX_WORKERS_def)
  have take: "take ?n (dl_chunks d) = map (\<lambda>i. dl_chunks d ! i) [0..<?n]"
    using n(2) by (intro nth_equalityI) auto
  show ?thesis
    unfolding resume_plan_def take filter_map
    using resume_fold_ranges [OF assms(1), of _ "[0..<?n]" "dl_chunks d"] n(1) by (simp add: comp_def)
qed

section \<open>Properties\<close>

text \<open>A run for the examples: four bytes announced, with range support.\<close>

definition demo_env :: engine_env where
  "demo_env = \<lparr>ee_sql = (\<lambda>_. Runs), ee_kernel = good_kernel,
     ee_head = \<lparr>h_init = True, h_lines = [''Accept-Ranges: bytes''], h_ok = True, h_status = 200, h_content_length = 4\<rparr>,
     ee_created = (\<lambda>_. True), ee_threads = (\<lambda>_ cs w. (cs, w)), ee_created_single = True,
     ee_single = (\<lambda>_ cs w. (cs, w)), ee_junk = replicate 64 0\<rparr>"

definition demo_eng :: "nat \<Rightarrow> u8 list \<Rightarrow> eng" where
  "demo_eng n content =
     \<lparr>en_d = zero_download\<lparr>dl_url := ''http://h/f'', dl_dest_path := ''f'', dl_total_size := 4, dl_chunk_count := n,
              dl_chunks := \<lparr>range_start = 0, range_end = 3, bytes_done = 4\<rparr> # replicate 7 zero_chunk\<rparr>,
      en_db = \<lparr>db_ready = False, db_columns = [], t_downloads = [], t_chunks = []\<rparr>,
      en_fs = [''f'' \<mapsto> Regular content]\<rparr>"

lemma demo_head: "curl_client_head (ee_head demo_env) = (0, \<lparr>fi_total_size = 4, fi_supports_ranges = True\<rparr>)"
  by (simp add: demo_env_def curl_client_head_def head_header_callback_def strncaseeq_def)

lemma demo_simps [simp]:
  "ee_kernel demo_env = good_kernel" "ee_sql demo_env = (\<lambda>_. Runs)"
  "dl_dest_path (en_d (demo_eng n c)) = ''f''" "dl_chunk_count (en_d (demo_eng n c)) = n"
  "dl_total_size (en_d (demo_eng n c)) = 4" "en_fs (demo_eng n c) = [''f'' \<mapsto> Regular c]"
  "is_valid_url (dl_url (en_d (demo_eng n c)))"
  by (simp_all add: demo_env_def demo_eng_def is_valid_url_def starts_with_def)

lemma demo_resume:
  assumes "length content \<le> 4"
  shows "\<exists>st'. engine_run_download demo_env (demo_eng 1 content) =
      (if length content = 4 then 0 else -2, st') \<and> dl_dest_path (en_d st') = ''f''"
proof -
  have sz: "file_get_size good_kernel ''f'' [''f'' \<mapsto> Regular content] = of_nat (length content)"
    by (simp add: file_get_size_def)
  have le: "unat (of_nat (length content) :: u64) = length content" using assms by (simp add: unat_of_nat take_bit_nat_eq_self)
  then have small: "\<not> (4 :: u64) < of_nat (length content)" and four: "(of_nat (length content) = (4 :: u64)) = (length content = 4)"
    using assms by (auto simp: word_less_nat_alt)
  have "engine_run_download demo_env (demo_eng 1 content) =
      run_resume demo_env \<lparr>fi_total_size = 4, fi_supports_ranges = True\<rparr> (set_total (\<lambda>_. Runs) 4 (demo_eng 1 content))"
    using small by (simp add: engine_run_download_def demo_head Let_def sz sys_access_def)
  also have "\<exists>st'. \<dots> = (if length content = 4 then 0 else -2, st') \<and> dl_dest_path (en_d st') = ''f''"
    using four
    by (simp add: run_resume_def Let_def resume_plan_def resume_step_def chunk_is_complete_def demo_eng_def set_total_def
        finalize_download_def engine_finalize_def demo_env_def sz expected_sha_def zero_download_def clear_resume_state_def
        MAX_WORKERS_def)
  finally show ?thesis .
qed

text \<open>
  C14: The engine reports success only for a verified file: the HEAD probe succeeded, the URL is http or
  https, and at the end the destination has the size the server announced and the requested digest.
  Every other result is one of the four documented error codes.
\<close>

theorem success_means_verified:
  assumes "engine_run_download E st = (rc, st')"
  shows "rc \<in> {0, -1, -2, -3, -4} \<and>
    (rc = 0 \<longrightarrow>
       engine_finalize (ee_kernel E) (ee_junk E) (dl_dest_path (en_d st'))
         (fi_total_size (snd (curl_client_head (ee_head E)))) (expected_sha (en_d st')) (en_fs st') = 0 \<and>
       fst (curl_client_head (ee_head E)) = 0 \<and> is_valid_url (dl_url (en_d st)))"
  using assms
proof (cases rule: engine_run_cases)
  case (finished st2)
  from finished(1) show ?thesis
    by (cases rule: finalize_download_cases) (use finished in auto)
qed auto

theorem success_means_verified_witness:
  "\<exists>st'. engine_run_download demo_env (demo_eng 1 [1, 2, 3, 4]) = (0, st') \<and>
     engine_finalize good_kernel (replicate 64 0) ''f'' 4 (expected_sha (en_d st')) (en_fs st') = 0"
proof -
  obtain st' where r: "engine_run_download demo_env (demo_eng 1 [1, 2, 3, 4]) = (0, st')"
    and p: "dl_dest_path (en_d st') = ''f''"
    using demo_resume [of "[1, 2, 3, 4]"] by auto
  from success_means_verified [OF r] r p show ?thesis unfolding demo_head by (simp add: demo_env_def)
qed

text \<open>
  A download that fails verification leaves nothing to resume from: its chunks, total size and
  counters are cleared, and the file is removed when it can be.
\<close>

lemma failed_verification_cleans_up:
  assumes "engine_run_download E st = (-2, st')"
    and "k_fault (ee_kernel E) SysUnlink (dl_dest_path (en_d st')) = None" and "dl_dest_path (en_d st') \<noteq> []"
  shows "en_fs st' (dl_dest_path (en_d st')) = None \<and> dl_chunk_count (en_d st') = 0 \<and>
    dl_total_size (en_d st') = 0 \<and> dl_bytes_downloaded (en_d st') = 0"
  using assms(1)
proof (cases rule: engine_run_cases)
  case (finished st2)
  from finished(1) show ?thesis
  proof (cases rule: finalize_download_cases)
    case refused
    then show ?thesis
      using assms(2,3) clear_resume_fields [of "ee_sql E" "ee_kernel E" True st2]
        clear_resume_unlinks [of st2 "ee_kernel E" "ee_sql E"] by auto
  qed simp
qed auto

text \<open>
  A new download never writes into an existing file: if the destination exists and was not
  reserved for it, the engine returns \<open>-3\<close> and everything in the file system is as before.
\<close>

lemma existing_destination_untouched:
  assumes "dl_chunk_count (en_d st) = 0" and "\<not> dl_reserved_file (en_d st)"
    and "en_fs st (dl_dest_path (en_d st)) = Some node"
    and "k_fault (ee_kernel E) SysOpen (dl_dest_path (en_d st)) = None"
    and "is_valid_url (dl_url (en_d st))" and "fst (curl_client_head (ee_head E)) = 0"
    and "engine_run_download E st = (rc, st')"
  shows "rc = -3 \<and> (\<forall>q i. en_fs st q = Some i \<longrightarrow> en_fs st' q = Some i)"
proof -
  let ?dest = "dl_dest_path (en_d st)"
  obtain info where h: "curl_client_head (ee_head E) = (0, info)" using assms(6) by (metis prod.collapse)
  let ?st = "set_total (ee_sql E) (fi_total_size info) st"
  obtain r fs' where p: "file_preallocate (ee_kernel E) ?dest (fi_total_size info) (en_fs st) = (r, fs')"
    by fastforce
  have r: "r = -2" using file_preallocate_exists [of "en_fs st" ?dest "ee_kernel E"] assms(3,4) p
    by (metis fst_conv option.simps(3))
  have "run_fresh E info ?st = (rc, st')"
    using assms(1,5,7) h by (simp add: engine_run_download_def Let_def)
  then have "rc = -3" "en_fs st' = fs'"
    using p r assms(2)
    by (auto simp: run_fresh_def preallocate_def reserved_here_def set_total_def Let_def split: prod.splits)
  with file_preallocate_preserves [OF p] show ?thesis by simp
qed


definition half_done :: download where
  "half_done = zero_download\<lparr>dl_chunk_count := 2, dl_chunks :=
     [\<lparr>range_start = 0, range_end = 49, bytes_done = 50\<rparr>, \<lparr>range_start = 50, range_end = 99, bytes_done = 10\<rparr>]
     @ replicate 6 zero_chunk\<rparr>"

lemma half_done_chunks:
  "take (dl_chunk_count half_done) (dl_chunks half_done) =
     [\<lparr>range_start = 0, range_end = 49, bytes_done = 50\<rparr>, \<lparr>range_start = 50, range_end = 99, bytes_done = 10\<rparr>]"
  by (simp add: half_done_def)


text \<open>
  When the pool steals from a chunk that was resumed (so that the slot starts behind the chunk's
  start), the split callback does not find the victim: no chunk is shrunk, and the appended chunk
  overlaps it.
\<close>

lemma split_of_resumed_chunk_not_recorded:
  assumes "\<forall>c\<in>set (take (dl_chunk_count d) (dl_chunks d)). range_start c \<noteq> victim_start"
    and "dl_chunk_count d < QM_MAX_CHUNKS" and "length (dl_chunks d) = QM_MAX_CHUNKS"
    and "on_rebalance_split Q victim_start new_start new_end (ptrs, live, (d, db)) = (ptrs', live', (d', db'))"
  shows "take (dl_chunk_count d) (dl_chunks d') = take (dl_chunk_count d) (dl_chunks d) \<and>
    dl_chunks d' ! dl_chunk_count d = \<lparr>range_start = new_start, range_end = new_end - 1, bytes_done = 0\<rparr> \<and>
    dl_chunk_count d' = dl_chunk_count d + 1"
proof -
  let ?n = "dl_chunk_count d"
  have "first_index (\<lambda>c. range_start c = victim_start) (take ?n (dl_chunks d)) = None"
    using assms(1) by (rule first_index_None)
  then have "shrink_victim Q victim_start new_start (d, db) = (d, db)"
    unfolding shrink_victim_def by simp
  then have d': "d' = d\<lparr>dl_chunks := (dl_chunks d)[?n := \<lparr>range_start = new_start,
      range_end = new_end - 1, bytes_done = 0\<rparr>], dl_chunk_count := ?n + 1\<rparr>"
    using assms(2,4) unfolding on_rebalance_split_def Let_def by simp
  show ?thesis unfolding d' using assms(2,3) by simp
qed

definition resumed :: download where
  "resumed = zero_download\<lparr>dl_chunk_count := 1, dl_chunks :=
     \<lparr>range_start = 0, range_end = 99, bytes_done = 10\<rparr> # replicate 7 zero_chunk\<rparr>"

text \<open>The slot of the resumed chunk starts at 10; half of its rest, from 55, is stolen.\<close>

text \<open>
  When a single-chunk download is resumed on a server without range support, the whole file is
  requested again from byte 0 and the total starts at 0, but the counter of the chunk keeps the old
  count: the next flush stores old and new bytes added together.
\<close>

lemma whole_file_resume_keeps_old_count:
  assumes "wf_download d" and "dl_chunk_count d = 1" and "\<not> fi_supports_ranges info"
    and "range_start (dl_chunks d ! 0) = 0" and "range_end (dl_chunks d ! 0) = fi_total_size info - 1"
    and "\<not> chunk_is_complete (dl_chunks d ! 0)"
  shows "pl_ranges (resume_plan info d) =
      [\<lparr>r_start = 0, r_end = fi_total_size info - 1, resume_offset = 0, whole_file = True\<rparr>] \<and>
    pl_bytes (resume_plan info d) = 0 \<and>
    pl_live (resume_plan info d) ! 0 = bytes_done (dl_chunks d ! 0)"
  using assms by (simp add: resume_plan_def resume_step_def Let_def MAX_WORKERS_def wf_download_def QM_MAX_CHUNKS_def)

end
