(* ===== verification/Gui_Ring.thy ===== *)
theory Gui_Ring
  imports Cdm_Prelude
begin

text \<open>
  The circular buffers of the GUI: an array with head, tail and count, as \<open>gui_controller.c\<close> and
  \<open>gui_client.c\<close> keep them. The interface is a locale: a ring refines a list queue when each of its
  operations does; a whole run of operations then answers as the list queue would.
\<close>

record 'a ring =
  rg_slots :: "'a list"
  rg_head :: nat
  rg_tail :: nat
  rg_count :: nat

definition ring_init :: "nat \<Rightarrow> 'a \<Rightarrow> 'a ring" where
  "ring_init cap z = \<lparr>rg_slots = replicate cap z, rg_head = 0, rg_tail = 0, rg_count = 0\<rparr>"

definition ring_put :: "nat \<Rightarrow> 'a \<Rightarrow> 'a ring \<Rightarrow> 'a ring" where
  "ring_put cap x q =
     q\<lparr>rg_slots := (rg_slots q)[rg_tail q := x], rg_tail := (rg_tail q + 1) mod cap, rg_count := rg_count q + 1\<rparr>"

definition ring_drop :: "nat \<Rightarrow> 'a ring \<Rightarrow> 'a ring" where
  "ring_drop cap q = q\<lparr>rg_head := (rg_head q + 1) mod cap, rg_count := rg_count q - 1\<rparr>"

definition ring_poll :: "nat \<Rightarrow> 'a ring \<Rightarrow> 'a option \<times> 'a ring" where
  "ring_poll cap q = (if rg_count q = 0 then (None, q) else (Some (rg_slots q ! rg_head q), ring_drop cap q))"

section \<open>What a ring holds\<close>

definition ring_wf :: "nat \<Rightarrow> 'a ring \<Rightarrow> bool" where
  "ring_wf cap q \<longleftrightarrow> 0 < cap \<and> length (rg_slots q) = cap \<and> rg_head q < cap \<and> rg_count q \<le> cap \<and>
     rg_tail q = (rg_head q + rg_count q) mod cap"

definition ring_list :: "'a ring \<Rightarrow> 'a list" where
  "ring_list q = map (\<lambda>k. rg_slots q ! ((rg_head q + k) mod length (rg_slots q))) [0..<rg_count q]"

lemma length_ring_list [simp]: "length (ring_list q) = rg_count q"
  by (simp add: ring_list_def)

lemma ring_init_wf [simp]: "0 < cap \<Longrightarrow> ring_wf cap (ring_init cap z)"
  by (simp add: ring_wf_def ring_init_def)

lemma ring_list_init [simp]: "ring_list (ring_init cap z) = []"
  by (simp add: ring_list_def ring_init_def)

lemma ring_wf_tail: "ring_wf cap q \<Longrightarrow> rg_tail q < cap"
  by (simp add: ring_wf_def)

text \<open>Distinct offsets below the capacity reach distinct slots.\<close>

lemma offset_inj:
  fixes cap :: nat
  assumes "(h + j) mod cap = (h + k) mod cap" and "j < cap" and "k < cap"
  shows "j = k"
proof (rule ccontr)
  assume "j \<noteq> k"
  then consider "j < k" | "k < j" by linarith
  then show False
  proof cases
    case 1
    then have "cap dvd (h + k) - (h + j)" using assms(1) by (metis mod_eq_dvd_iff_nat add_le_cancel_left less_imp_le)
    with 1 assms(3) show False by (auto dest: dvd_imp_le)
  next
    case 2
    then have "cap dvd (h + j) - (h + k)" using assms(1) by (metis mod_eq_dvd_iff_nat add_le_cancel_left less_imp_le)
    with 2 assms(2) show False by (auto dest: dvd_imp_le)
  qed
qed

lemma ring_put_wf: "ring_wf cap q \<Longrightarrow> rg_count q < cap \<Longrightarrow> ring_wf cap (ring_put cap x q)"
  by (auto simp: ring_wf_def ring_put_def mod_Suc_eq)

lemma ring_drop_wf: "ring_wf cap q \<Longrightarrow> 0 < rg_count q \<Longrightarrow> ring_wf cap (ring_drop cap q)"
  by (cases "rg_count q") (auto simp: ring_wf_def ring_drop_def mod_simps)

lemma ring_put_list:
  assumes "ring_wf cap q" and "rg_count q < cap"
  shows "ring_list (ring_put cap x q) = ring_list q @ [x]"
proof -
  have "(rg_head q + k) mod cap \<noteq> rg_tail q" if "k < rg_count q" for k
    using offset_inj [of "rg_head q" k cap "rg_count q"] that assms by (auto simp: ring_wf_def)
  then show ?thesis
    using assms by (auto simp: ring_list_def ring_put_def ring_wf_def nth_list_update_neq [OF not_sym])
qed

lemma ring_list_Cons:
  assumes "ring_wf cap q" and "0 < rg_count q"
  shows "ring_list q = rg_slots q ! rg_head q # ring_list (ring_drop cap q)"
proof -
  obtain n where n: "rg_count q = Suc n" using assms(2) by (cases "rg_count q") auto
  have "[0..<Suc n] = 0 # map Suc [0..<n]" by (simp add: upt_conv_Cons map_Suc_upt)
  then show ?thesis
    using assms(1) by (simp add: ring_list_def ring_drop_def ring_wf_def n mod_simps)
qed

section \<open>The interface\<close>

text \<open>The specification: lists with a bound, refusing or dropping the oldest when full.\<close>

definition list_push :: "nat \<Rightarrow> 'a \<Rightarrow> 'a list \<Rightarrow> bool \<times> 'a list" where
  "list_push cap x xs = (if length xs < cap then (True, xs @ [x]) else (False, xs))"

definition lossy_push :: "nat \<Rightarrow> 'a \<Rightarrow> 'a list \<Rightarrow> bool \<times> 'a list" where
  "lossy_push cap x xs = (True, if length xs < cap then xs @ [x] else tl xs @ [x])"

primrec list_poll :: "'a list \<Rightarrow> 'a option \<times> 'a list" where
  "list_poll [] = (None, [])"
| "list_poll (x # xs) = (Some x, xs)"

datatype 'a queue_op = Push 'a | Poll

datatype 'a queue_answer = Pushed bool | Polled "'a option"

fun run_queue :: "('a \<Rightarrow> 'q \<Rightarrow> bool \<times> 'q) \<Rightarrow> ('q \<Rightarrow> 'a option \<times> 'q) \<Rightarrow> 'a queue_op list \<Rightarrow> 'q \<Rightarrow>
    'a queue_answer list \<times> 'q" where
  "run_queue push poll [] q = ([], q)"
| "run_queue push poll (Push x # ops) q =
     (let (b, q1) = push x q; (out, q2) = run_queue push poll ops q1 in (Pushed b # out, q2))"
| "run_queue push poll (Poll # ops) q =
     (let (r, q1) = poll q; (out, q2) = run_queue push poll ops q1 in (Polled r # out, q2))"

locale queue_refinement =
  fixes inv :: "'q \<Rightarrow> bool"
    and items :: "'q \<Rightarrow> 'a list"
    and push :: "'a \<Rightarrow> 'q \<Rightarrow> bool \<times> 'q"
    and poll :: "'q \<Rightarrow> 'a option \<times> 'q"
    and spec_push :: "'a \<Rightarrow> 'a list \<Rightarrow> bool \<times> 'a list"
  assumes push_refines: "inv q \<Longrightarrow> push x q = (b, q') \<Longrightarrow> inv q' \<and> spec_push x (items q) = (b, items q')"
    and poll_refines: "inv q \<Longrightarrow> poll q = (r, q') \<Longrightarrow> inv q' \<and> list_poll (items q) = (r, items q')"
begin

lemma run_refines:
  "inv q \<Longrightarrow> run_queue push poll ops q = (out, q') \<Longrightarrow>
   inv q' \<and> run_queue spec_push list_poll ops (items q) = (out, items q')"
proof (induction ops arbitrary: q out q')
  case Nil
  then show ?case by simp
next
  case (Cons op ops)
  show ?case
  proof (cases op)
    case (Push x)
    obtain b q1 where p: "push x q = (b, q1)" by fastforce
    obtain o1 q2 where r: "run_queue push poll ops q1 = (o1, q2)" by fastforce
    from push_refines [OF Cons.prems(1) p] have "inv q1" and s: "spec_push x (items q) = (b, items q1)" by simp_all
    with Cons.IH [OF _ r] Cons.prems(2) show ?thesis by (simp add: Push p r)
  next
    case Poll
    obtain a q1 where p: "poll q = (a, q1)" by fastforce
    obtain o1 q2 where r: "run_queue push poll ops q1 = (o1, q2)" by fastforce
    from poll_refines [OF Cons.prems(1) p] have "inv q1" and s: "list_poll (items q) = (a, items q1)" by simp_all
    with Cons.IH [OF _ r] Cons.prems(2) show ?thesis by (simp add: Poll p r)
  qed
qed

lemma poll_none_iff: "inv q \<Longrightarrow> fst (poll q) = None \<longleftrightarrow> items q = []"
  using poll_refines [of q "fst (poll q)" "snd (poll q)"] by (cases "items q") (auto simp: eq_commute [of "Some _"])

end

lemma ring_poll_refines:
  assumes "ring_wf cap q" and "ring_poll cap q = (r, q')"
  shows "ring_wf cap q' \<and> list_poll (ring_list q) = (r, ring_list q')"
proof (cases "rg_count q = 0")
  case True
  then show ?thesis using assms by (auto simp: ring_poll_def ring_list_def)
next
  case False
  then show ?thesis
    using assms ring_list_Cons [OF assms(1)] ring_drop_wf [OF assms(1)] by (auto simp: ring_poll_def)
qed

lemma ring_push_refines:
  assumes "ring_wf cap q" and "(if rg_count q = cap then (False, q) else (True, ring_put cap x q)) = (b, q')"
  shows "ring_wf cap q' \<and> list_push cap x (ring_list q) = (b, ring_list q')"
proof (cases "rg_count q = cap")
  case True
  then show ?thesis using assms by (auto simp: list_push_def)
next
  case False
  then have "rg_count q < cap" using assms(1) by (simp add: ring_wf_def)
  then show ?thesis
    using False assms ring_put_wf [OF assms(1)] ring_put_list [OF assms(1)] by (auto simp: list_push_def)
qed

end
