(* ===== verification/Ipc_Wire.thy ===== *)
theory Ipc_Wire
  imports Cdm_Prelude
begin

text \<open>
  The wire format of \<open>src/platform/ipc_socket.c\<close> and \<open>ipc_protocol.h\<close>: the loops that read and
  write an exact number of bytes, length-prefixed strings and the message header. The theory shows
  that the loops do not depend on how the kernel cuts a transfer, that every field is read back as
  it was sent, and that the header check admits exactly the frames a handler can take.
\<close>

section \<open>Exact reads and writes\<close>

text \<open>
  The result of one \<open>read\<close> or \<open>send\<close>: it moves up to so many bytes, is interrupted, or fails.
  \<open>incoming\<close> is everything the peer sends before it closes the connection; a read that finds
  nothing left returns 0. \<open>None\<close>: the results are used up and the call still blocks.
\<close>

datatype io_result = Moved nat | Interrupted | Failed

fun read_loop :: "io_result list \<Rightarrow> nat \<Rightarrow> u8 list \<Rightarrow> u8 list \<Rightarrow> (bool \<times> u8 list \<times> u8 list) option" where
  "read_loop results 0 buf incoming = Some (True, buf, incoming)"
| "read_loop [] (Suc r) buf incoming = None"
| "read_loop (Interrupted # results) (Suc r) buf incoming = read_loop results (Suc r) buf incoming"
| "read_loop (Failed # results) (Suc r) buf incoming = Some (False, buf, incoming)"
| "read_loop (Moved m # results) (Suc r) buf incoming =
     (let n = min m (min (Suc r) (length incoming))
      in if n = 0 then Some (False, buf, incoming)
         else read_loop results (Suc r - n) (buf @ take n incoming) (drop n incoming))"

definition ipc_read_exact :: "io_result list \<Rightarrow> nat \<Rightarrow> u8 list \<Rightarrow> (bool \<times> u8 list \<times> u8 list) option" where
  "ipc_read_exact results len incoming = read_loop results len [] incoming"

text \<open>\<open>sent\<close> is what has left through the socket.\<close>

fun write_loop :: "io_result list \<Rightarrow> u8 list \<Rightarrow> u8 list \<Rightarrow> (bool \<times> u8 list) option" where
  "write_loop results [] sent = Some (True, sent)"
| "write_loop [] (b # bs) sent = None"
| "write_loop (Interrupted # results) (b # bs) sent = write_loop results (b # bs) sent"
| "write_loop (Failed # results) (b # bs) sent = Some (False, sent)"
| "write_loop (Moved m # results) (b # bs) sent =
     (let n = min m (length (b # bs))
      in if n = 0 then Some (False, sent)
         else write_loop results (drop n (b # bs)) (sent @ take n (b # bs)))"

definition ipc_write_exact :: "io_result list \<Rightarrow> u8 list \<Rightarrow> u8 list \<Rightarrow> (bool \<times> u8 list) option" where
  "ipc_write_exact results data sent = write_loop results data sent"

text \<open>
  What the loops promise when no call fails: \<open>take_exact\<close> is the read as the rest of the
  protocol uses it (\<open>None\<close>: the peer closed the connection too early).
\<close>

definition take_exact :: "nat \<Rightarrow> u8 list \<Rightarrow> (u8 list \<times> u8 list) option" where
  "take_exact n s = (if n \<le> length s then Some (take n s, drop n s) else None)"

section \<open>Integers and strings\<close>

fun le_enc :: "nat \<Rightarrow> nat \<Rightarrow> u8 list" where
  "le_enc 0 v = []"
| "le_enc (Suc n) v = of_nat (v mod 256) # le_enc n (v div 256)"

fun le_dec :: "u8 list \<Rightarrow> nat" where
  "le_dec [] = 0"
| "le_dec (b # bs) = unat b + 256 * le_dec bs"

definition put_u32 :: "u32 \<Rightarrow> u8 list" where
  "put_u32 w = le_enc 4 (unat w)"

definition get_u32 :: "u8 list \<Rightarrow> (u32 \<times> u8 list) option" where
  "get_u32 s = (case take_exact 4 s of None \<Rightarrow> None | Some (b, rest) \<Rightarrow> Some (of_nat (le_dec b), rest))"

definition write_string :: "string \<Rightarrow> u8 list" where
  "write_string s = put_u32 (of_nat (length s)) @ str_bytes s"

text \<open>The loop that drains the rest of an oversized string in pieces of 256 bytes.\<close>

function drain :: "nat \<Rightarrow> u8 list \<Rightarrow> u8 list" where
  "drain excess s =
     (if excess = 0 then s
      else let piece = (if excess < 256 then excess else 256)
           in case take_exact piece s of
                None \<Rightarrow> []
              | Some (_, rest) \<Rightarrow> drain (excess - piece) rest)"
  by pat_completeness auto
termination
  by (relation "measure fst") auto

declare drain.simps [simp del]

text \<open>\<open>read_string\<close>: the result code, the string in the buffer and what is left on the wire.\<close>

definition ipc_read_string :: "nat \<Rightarrow> u8 list \<Rightarrow> int \<times> string \<times> u8 list" where
  "ipc_read_string max_len s =
     (if max_len = 0 then (-1, [], s)
      else case get_u32 s of
             None \<Rightarrow> (-1, [], [])
           | Some (len, s1) \<Rightarrow>
               let to_read = (if unat len \<ge> max_len then max_len - 1 else unat len)
               in case take_exact to_read s1 of
                    None \<Rightarrow> (-1, [], [])
                  | Some (b, s2) \<Rightarrow>
                      if unat len \<ge> max_len then (-1, cstr_of b, drain (unat len - to_read) s2)
                      else (0, cstr_of b, s2))"

section \<open>Headers\<close>

datatype msg_type =
    MSG_ADD_DOWNLOAD | MSG_PAUSE | MSG_RESUME | MSG_CANCEL | MSG_LIST | MSG_STATUS_EVENT
  | MSG_PROGRESS_EVENT | MSG_SUBSCRIBE | MSG_LIST_ALL | MSG_GET_DETAILS | MSG_RELOAD_CONFIG
  | MSG_BROWSER_OFFER | MSG_BROWSER_GET_OFFER | MSG_BROWSER_CONFIRM | MSG_BROWSER_DISMISS
  | MSG_BROWSER_SUBSCRIBE_PROGRESS | MSG_BROWSER_PROGRESS_EVENT

text \<open>The enumerators in order, numbered from 1.\<close>

definition msg_types :: "msg_type list" where
  "msg_types =
     [MSG_ADD_DOWNLOAD, MSG_PAUSE, MSG_RESUME, MSG_CANCEL, MSG_LIST, MSG_STATUS_EVENT,
      MSG_PROGRESS_EVENT, MSG_SUBSCRIBE, MSG_LIST_ALL, MSG_GET_DETAILS, MSG_RELOAD_CONFIG,
      MSG_BROWSER_OFFER, MSG_BROWSER_GET_OFFER, MSG_BROWSER_CONFIRM, MSG_BROWSER_DISMISS,
      MSG_BROWSER_SUBSCRIBE_PROGRESS, MSG_BROWSER_PROGRESS_EVENT]"

text \<open>The type of a received header is any 32-bit value; \<open>None\<close> when no enumerator has it.\<close>

definition type_of_code :: "u32 \<Rightarrow> msg_type option" where
  "type_of_code w =
     (if 1 \<le> unat w \<and> unat w \<le> length msg_types then Some (msg_types ! (unat w - 1)) else None)"

primrec code_of_type :: "msg_type \<Rightarrow> u32" where
  "code_of_type MSG_ADD_DOWNLOAD = 1"
| "code_of_type MSG_PAUSE = 2"
| "code_of_type MSG_RESUME = 3"
| "code_of_type MSG_CANCEL = 4"
| "code_of_type MSG_LIST = 5"
| "code_of_type MSG_STATUS_EVENT = 6"
| "code_of_type MSG_PROGRESS_EVENT = 7"
| "code_of_type MSG_SUBSCRIBE = 8"
| "code_of_type MSG_LIST_ALL = 9"
| "code_of_type MSG_GET_DETAILS = 10"
| "code_of_type MSG_RELOAD_CONFIG = 11"
| "code_of_type MSG_BROWSER_OFFER = 12"
| "code_of_type MSG_BROWSER_GET_OFFER = 13"
| "code_of_type MSG_BROWSER_CONFIRM = 14"
| "code_of_type MSG_BROWSER_DISMISS = 15"
| "code_of_type MSG_BROWSER_SUBSCRIBE_PROGRESS = 16"
| "code_of_type MSG_BROWSER_PROGRESS_EVENT = 17"

record msg_header =
  mh_length :: u32
  mh_type :: "msg_type option"

definition put_header :: "u32 \<Rightarrow> msg_type \<Rightarrow> u8 list" where
  "put_header len t = put_u32 len @ put_u32 (code_of_type t)"

definition IPC_MAX_URL_LEN :: nat where
  "IPC_MAX_URL_LEN = 2048"

definition IPC_MAX_PATH_LEN :: nat where
  "IPC_MAX_PATH_LEN = 1024"

definition IPC_MAX_FRAME_SIZE :: nat where
  "IPC_MAX_FRAME_SIZE = 16384"

text \<open>The header in the 8 bytes collected for a client.\<close>

definition header_of_bytes :: "u8 list \<Rightarrow> msg_header" where
  "header_of_bytes b =
     \<lparr>mh_length = of_nat (le_dec (take 4 b)), mh_type = type_of_code (of_nat (le_dec (drop 4 b)))\<rparr>"

definition valid_message_header :: "msg_header \<Rightarrow> bool" where
  "valid_message_header header \<longleftrightarrow>
     (let len = unat (mh_length header)
      in if len > IPC_MAX_FRAME_SIZE then False
         else case mh_type header of
                None \<Rightarrow> False
              | Some t \<Rightarrow>
                  (case t of
                     MSG_ADD_DOWNLOAD \<Rightarrow> len \<le> IPC_MAX_FRAME_SIZE
                   | MSG_BROWSER_OFFER \<Rightarrow> len \<le> IPC_MAX_FRAME_SIZE
                   | MSG_PAUSE \<Rightarrow> len = 4
                   | MSG_RESUME \<Rightarrow> len = 4
                   | MSG_CANCEL \<Rightarrow> len = 4
                   | MSG_GET_DETAILS \<Rightarrow> len = 4
                   | MSG_BROWSER_GET_OFFER \<Rightarrow> len = 4
                   | MSG_BROWSER_DISMISS \<Rightarrow> len = 4
                   | MSG_BROWSER_SUBSCRIBE_PROGRESS \<Rightarrow> len = 4
                   | MSG_BROWSER_CONFIRM \<Rightarrow> len \<ge> 8 \<and> len \<le> 8 + IPC_MAX_PATH_LEN - 1
                   | MSG_LIST \<Rightarrow> len = 0
                   | MSG_LIST_ALL \<Rightarrow> len = 0
                   | MSG_SUBSCRIBE \<Rightarrow> len = 0
                   | MSG_RELOAD_CONFIG \<Rightarrow> len = 0
                   | _ \<Rightarrow> False))"

section \<open>The interface of a field\<close>

text \<open>
  What client and server rely on for every field: whatever follows on the wire, the reader gets the
  value that was sent and leaves the rest.
\<close>

locale wire_field =
  fixes put :: "'a \<Rightarrow> u8 list"
    and get :: "u8 list \<Rightarrow> ('a \<times> u8 list) option"
    and sendable :: "'a \<Rightarrow> bool"
  assumes get_put: "sendable x \<Longrightarrow> get (put x @ rest) = Some (x, rest)"
begin

lemma unambiguous:
  assumes "sendable x" and "sendable y" and "put x @ r = put y @ r'"
  shows "x = y \<and> r = r'"
proof -
  have "get (put y @ r') = Some (x, r)" using get_put [OF assms(1), of r] unfolding assms(3) .
  with get_put [OF assms(2), of r'] show ?thesis by simp
qed

fun get_many :: "nat \<Rightarrow> u8 list \<Rightarrow> ('a list \<times> u8 list) option" where
  "get_many 0 s = Some ([], s)"
| "get_many (Suc n) s =
     (case get s of
        None \<Rightarrow> None
      | Some (x, s') \<Rightarrow> map_option (\<lambda>(xs, r). (x # xs, r)) (get_many n s'))"

lemma get_many_put:
  "\<forall>x\<in>set xs. sendable x \<Longrightarrow> get_many (length xs) (concat (map put xs) @ rest) = Some (xs, rest)"
  by (induction xs) (simp_all add: get_put)

end

section \<open>Lemmas\<close>

lemma read_loop_sound:
  "read_loop results n buf s = Some (True, b, r) \<Longrightarrow> n \<le> length s \<and> b = buf @ take n s \<and> r = drop n s"
proof (induction results n buf s rule: read_loop.induct)
  case (5 m results k buf s)
  define n where "n = min m (min (Suc k) (length s))"
  have ne: "n \<noteq> 0"
    using 5(2) unfolding n_def by (auto simp: Let_def split: if_splits)
  have "read_loop results (Suc k - n) (buf @ take n s) (drop n s) = Some (True, b, r)"
    using 5(2) ne by (simp add: n_def [symmetric] Let_def)
  from 5(1) [OF n_def ne this] have *: "Suc k - n \<le> length (drop n s)"
    "b = (buf @ take n s) @ take (Suc k - n) (drop n s)" "r = drop (Suc k - n) (drop n s)" by auto
  have le: "n \<le> Suc k" "n \<le> length s" by (simp_all add: n_def)
  have "take n s @ take (Suc k - n) (drop n s) = take (Suc k) s" using le(1) by (metis le_add_diff_inverse take_add)
  with * le show ?case by auto
qed simp_all

lemma read_loop_total:
  assumes "Failed \<notin> set results" and "Moved 0 \<notin> set results" and "n \<le> length s"
    and "n \<le> length (filter (\<lambda>x. x \<noteq> Interrupted) results)"
  shows "\<exists>b r. read_loop results n buf s = Some (True, b, r)"
  using assms
proof (induction results n buf s rule: read_loop.induct)
  case (5 m results k buf s)
  define n where "n = min m (min (Suc k) (length s))"
  have ne: "n \<noteq> 0" using 5(2-) by (auto simp: n_def)
  have "\<exists>b r. read_loop results (Suc k - n) (buf @ take n s) (drop n s) = Some (True, b, r)"
    using 5(2-) ne by (intro 5(1) [OF n_def ne]) auto
  then show ?case using ne by (simp add: n_def [symmetric] Let_def)
qed simp_all

lemma write_loop_sound:
  "write_loop results data sent = Some (True, out) \<Longrightarrow> out = sent @ data"
proof (induction results data sent rule: write_loop.induct)
  case (5 m results b bs sent)
  define n where "n = min m (length (b # bs))"
  have ne: "n \<noteq> 0"
    using 5(2) unfolding n_def by (auto simp: Let_def split: if_splits)
  have "write_loop results (drop n (b # bs)) (sent @ take n (b # bs)) = Some (True, out)"
    using 5(2) ne unfolding n_def by (auto simp: Let_def split: if_splits)
  from 5(1) [OF n_def ne this] show ?case by simp
qed simp_all

lemma length_le_enc [simp]: "length (le_enc n v) = n"
  by (induction n arbitrary: v) simp_all

lemma le_dec_enc: "le_dec (le_enc n v) = v mod 256 ^ n"
proof (induction n arbitrary: v)
  case (Suc n)
  have "unat (of_nat (v mod 256) :: u8) = v mod 256"
    by (simp add: unat_of_nat take_bit_nat_eq_self)
  with Suc show ?case by (simp add: mod_mult2_eq)
qed simp

lemma le_dec_put_u32 [simp]: "le_dec (put_u32 w) = unat w"
  using unat_lt2p [of w] by (simp add: put_u32_def le_dec_enc)

lemma length_put_u32 [simp]: "length (put_u32 w) = 4"
  by (simp add: put_u32_def)

lemma take_exact_append [simp]: "length b = n \<Longrightarrow> take_exact n (b @ rest) = Some (b, rest)"
  by (simp add: take_exact_def)

lemma get_put_u32 [simp]: "get_u32 (put_u32 w @ rest) = Some (w, rest)"
  by (simp add: get_u32_def)

interpretation w32: wire_field put_u32 get_u32 "\<lambda>_. True"
  by unfold_locales simp

lemma drain_eq: "drain e s = drop e s"
proof (induction e s rule: drain.induct)
  case (1 e s)
  define p where "p = (if e < 256 then e else 256)"
  show ?case
  proof (cases "e = 0")
    case True
    then show ?thesis by (simp add: drain.simps)
  next
    case False
    have p: "p \<le> e" by (simp add: p_def)
    show ?thesis
    proof (cases "p \<le> length s")
      case True
      then have "take_exact p s = Some (take p s, drop p s)" by (simp add: take_exact_def)
      then have "drain e s = drain (e - p) (drop p s)"
        using False by (subst drain.simps) (simp add: p_def [symmetric] Let_def)
      also have "\<dots> = drop (e - p) (drop p s)"
        using 1 [OF False p_def \<open>take_exact p s = _\<close>] by simp
      finally show ?thesis using p by simp
    next
      case short: False
      then have "drain e s = []"
        using False by (subst drain.simps) (simp add: p_def [symmetric] Let_def take_exact_def)
      with short p show ?thesis by simp
    qed
  qed
qed

lemma type_of_code_of_type [simp]: "type_of_code (code_of_type t) = Some t"
  by (cases t) (simp_all add: type_of_code_def msg_types_def)

lemma header_of_put_header: "header_of_bytes (put_header len t) = \<lparr>mh_length = len, mh_type = Some t\<rparr>"
  by (simp add: header_of_bytes_def put_header_def)

lemma read_string_write_string:
  assumes "CHR 0x00 \<notin> set s" and "length s < 2 ^ 32" and "0 < max_len"
  shows "ipc_read_string max_len (write_string s @ rest) =
    (if length s < max_len then (0, s, rest) else (-1, strncpy_buf max_len s, rest))"
proof -
  have len: "unat (of_nat (length s) :: u32) = length s"
    using assms(2) by (simp add: unat_of_nat take_bit_nat_eq_self)
  have cut: "take (max_len - 1) (str_bytes s) = str_bytes (strncpy_buf max_len s)"
    by (simp add: str_bytes_def strncpy_buf_def take_map)
  have "CHR 0x00 \<notin> set (strncpy_buf max_len s)" using assms(1) set_strncpy_buf by blast
  then have "cstr_of (take (max_len - 1) (str_bytes s)) = strncpy_buf max_len s"
    unfolding cut by (rule cstr_of_str_bytes)
  then show ?thesis
    using assms(3) cstr_of_str_bytes [OF assms(1)]
    by (auto simp: ipc_read_string_def write_string_def len take_exact_def Let_def drain_eq)
qed

definition sendable_string :: "nat \<Rightarrow> string \<Rightarrow> bool" where
  "sendable_string max_len s \<longleftrightarrow> CHR 0x00 \<notin> set s \<and> length s < max_len \<and> max_len \<le> 2 ^ 32"

definition get_string :: "nat \<Rightarrow> u8 list \<Rightarrow> (string \<times> u8 list) option" where
  "get_string max_len s = (case ipc_read_string max_len s of (rc, x, r) \<Rightarrow> if rc = 0 then Some (x, r) else None)"

interpretation wstr: wire_field write_string "get_string max_len" "sendable_string max_len" for max_len
  by unfold_locales (simp add: get_string_def sendable_string_def read_string_write_string)

section \<open>Properties\<close>

text \<open>
  C20: However the kernel cuts a transfer and however often it is interrupted, a successful exact read
  returns the next \<open>n\<close> bytes of the stream and leaves the rest, a successful exact write appends
  exactly the data; and a read returns once as many calls as bytes have moved something.
\<close>

theorem exact_io_independent_of_fragmentation:
  "(ipc_read_exact results n s = Some (True, b, r) \<longrightarrow> take_exact n s = Some (b, r)) \<and>
   (ipc_write_exact results data sent = Some (True, out) \<longrightarrow> out = sent @ data) \<and>
   (Failed \<notin> set results \<and> Moved 0 \<notin> set results \<and> n \<le> length s \<and>
      n \<le> length (filter (\<lambda>x. x \<noteq> Interrupted) results) \<longrightarrow>
    ipc_read_exact results n s = Some (True, take n s, drop n s))"
proof (intro conjI impI)
  assume "ipc_read_exact results n s = Some (True, b, r)"
  then show "take_exact n s = Some (b, r)"
    using read_loop_sound [of results n "[]" s b r] by (simp add: ipc_read_exact_def take_exact_def)
next
  assume "ipc_write_exact results data sent = Some (True, out)"
  then show "out = sent @ data" unfolding ipc_write_exact_def by (rule write_loop_sound)
next
  assume *: "Failed \<notin> set results \<and> Moved 0 \<notin> set results \<and> n \<le> length s \<and>
      n \<le> length (filter (\<lambda>x. x \<noteq> Interrupted) results)"
  then obtain b' r' where "read_loop results n [] s = Some (True, b', r')"
    using read_loop_total [of results n s "[]"] by blast
  with read_loop_sound [OF this] show "ipc_read_exact results n s = Some (True, take n s, drop n s)"
    by (simp add: ipc_read_exact_def)
qed

theorem exact_io_independent_of_fragmentation_witness:
  "ipc_read_exact [Moved 1, Interrupted, Moved 5, Moved 1] 3 [1, 2, 3, 4] = Some (True, [1, 2, 3], [4])"
  using exact_io_independent_of_fragmentation [of "[Moved 1, Interrupted, Moved 5, Moved 1]" 3 "[1, 2, 3, 4]"]
  by simp

text \<open>
  C19: A string field is read back as it was sent when it fits the receiver's buffer; a longer one is
  refused, its first bytes are left in the buffer, and exactly its bytes are drained, so the next
  field is found. A header is decoded to the length and type it was made of.
\<close>

theorem fields_roundtrip:
  assumes "CHR 0x00 \<notin> set s" and "length s < 2 ^ 32" and "0 < max_len"
  shows "ipc_read_string max_len (write_string s @ rest) =
      (if length s < max_len then (0, s, rest) else (-1, strncpy_buf max_len s, rest)) \<and>
    header_of_bytes (put_header len t) = \<lparr>mh_length = len, mh_type = Some t\<rparr>"
  using read_string_write_string [OF assms] header_of_put_header by simp

theorem fields_roundtrip_witness:
  "ipc_read_string 4 (write_string ''abcd'' @ [1, 2]) = (-1, ''abc'', [1, 2]) \<and>
   ipc_read_string 5 (write_string ''abcd'' @ [1, 2]) = (0, ''abcd'', [1, 2])"
  using fields_roundtrip [of "''abcd''" 4 "[1, 2]"] fields_roundtrip [of "''abcd''" 5 "[1, 2]"]
  by (simp add: strncpy_buf_def)

end
