(* ===== verification/Config.thy ===== *)
theory Config
  imports File_Io
begin

text \<open>
  \<open>src/utils/config.c\<close>: the settings, read from and written to a TOML file. The vendored
  parser (\<open>toml_parse_file\<close>) is a parameter \<open>parse\<close> from the opened file to a value;
  \<open>toml_get\<close> is a search of the table. The theory shows that whatever the file holds, the
  settings in force satisfy the bounds the scheduler relies on, and that saved settings are the
  ones in force afterwards.
\<close>

datatype toml_datum =
    TOML_UNKNOWN
  | TOML_STRING string
  | TOML_INT64 int
  | TOML_TABLE "(string \<times> toml_datum) list"

definition toml_get :: "toml_datum \<Rightarrow> string \<Rightarrow> toml_datum" where
  "toml_get d key =
     (case d of
        TOML_TABLE kvs \<Rightarrow> (case map_of kvs key of Some v \<Rightarrow> v | None \<Rightarrow> TOML_UNKNOWN)
      | _ \<Rightarrow> TOML_UNKNOWN)"

record config_state =
  g_max_concurrent :: int
  g_default_dir :: string
  g_retry_max_attempts :: int
  g_retry_base_delay_sec :: int
  g_retry_max_delay_sec :: int
  g_max_speed_bps :: u64

definition reset_defaults :: "config_state \<Rightarrow> config_state" where
  "reset_defaults c =
     c\<lparr>g_max_concurrent := 3, g_retry_max_attempts := 5, g_retry_base_delay_sec := 2,
       g_retry_max_delay_sec := 60, g_max_speed_bps := 0\<rparr>"

definition home_or :: "kernel \<Rightarrow> string \<Rightarrow> string" where
  "home_or K dflt = (case k_getenv K ''HOME'' of Some h \<Rightarrow> h | None \<Rightarrow> dflt)"

definition get_config_path :: "kernel \<Rightarrow> nat \<Rightarrow> string" where
  "get_config_path K out_size =
     strncpy_buf out_size (home_or K ''/tmp'' @ ''/.local/share/cdm/config.toml'')"

definition set_default_dir :: "kernel \<Rightarrow> config_state \<Rightarrow> fs \<Rightarrow> config_state \<times> fs" where
  "set_default_dir K c fs =
     (let dir = strncpy_buf 1024 (home_or K ''.'' @ ''/'' @ ''Downloads'')
      in (c\<lparr>g_default_dir := dir\<rparr>, snd (file_ensure_directory K dir fs)))"

text \<open>The readers return the old value when the table or the key is missing or of another type.\<close>

definition read_int :: "toml_datum \<Rightarrow> string \<Rightarrow> int \<Rightarrow> int" where
  "read_int tab key out = (case toml_get tab key of TOML_INT64 i \<Rightarrow> as_int i | _ \<Rightarrow> out)"

definition read_u64 :: "toml_datum \<Rightarrow> string \<Rightarrow> u64 \<Rightarrow> u64" where
  "read_u64 tab key out = (case toml_get tab key of TOML_INT64 i \<Rightarrow> word_of_int i | _ \<Rightarrow> out)"

definition read_string :: "toml_datum \<Rightarrow> string \<Rightarrow> string \<Rightarrow> nat \<Rightarrow> string" where
  "read_string tab key out out_size =
     (case toml_get tab key of TOML_STRING s \<Rightarrow> strncpy_buf out_size s | _ \<Rightarrow> out)"

definition default_dir_is_usable :: "kernel \<Rightarrow> string \<Rightarrow> fs \<Rightarrow> bool \<times> fs" where
  "default_dir_is_usable K path fs =
     (case k_getenv K ''HOME'' of
        None \<Rightarrow> (False, fs)
      | Some home \<Rightarrow>
          if path = [] \<or> home = [] then (False, fs)
          else if \<not> starts_with home path then (False, fs)
          else if length path \<noteq> length home \<and> path ! length home \<noteq> CHR ''/'' then (False, fs)
          else case file_ensure_directory K path fs of
                 (r, fs') \<Rightarrow>
                   if r \<noteq> 0 then (False, fs')
                   else (case k_realpath K path of Inl _ \<Rightarrow> False | Inr _ \<Rightarrow> True, fs'))"

text \<open>Everything after a successful parse, up to the clamps.\<close>

definition config_read ::
  "kernel \<Rightarrow> toml_datum \<Rightarrow> config_state \<Rightarrow> fs \<Rightarrow> config_state \<times> fs" where
  "config_read K doc c fs =
     (let downloads = toml_get doc ''downloads'';
          c1 = c\<lparr>g_max_concurrent := read_int downloads ''max_concurrent'' (g_max_concurrent c)\<rparr>;
          dir = read_string downloads ''default_directory'' [] 1024;
          (ok, fs1) = (if dir \<noteq> [] then default_dir_is_usable K dir fs else (False, fs));
          c2 = (if dir \<noteq> [] \<and> ok then c1\<lparr>g_default_dir := strncpy_buf 1024 dir\<rparr> else c1);
          retry = toml_get doc ''retry'';
          c3 = c2\<lparr>g_retry_max_attempts := read_int retry ''max_attempts'' (g_retry_max_attempts c2),
                  g_retry_base_delay_sec := read_int retry ''base_delay_sec'' (g_retry_base_delay_sec c2),
                  g_retry_max_delay_sec := read_int retry ''max_delay_sec'' (g_retry_max_delay_sec c2)\<rparr>;
          throttle = toml_get doc ''throttle''
      in (c3\<lparr>g_max_speed_bps := read_u64 throttle ''max_speed_bytes_per_sec'' (g_max_speed_bps c3)\<rparr>,
          fs1))"

definition config_clamp :: "config_state \<Rightarrow> config_state" where
  "config_clamp c0 =
     (let c1 = (if g_max_concurrent c0 < 1 then c0\<lparr>g_max_concurrent := 1\<rparr> else c0);
          c2 = (if g_retry_max_attempts c1 < 0 then c1\<lparr>g_retry_max_attempts := 0\<rparr> else c1);
          c3 = (if g_retry_base_delay_sec c2 < 1 then c2\<lparr>g_retry_base_delay_sec := 1\<rparr> else c2)
      in if g_retry_max_delay_sec c3 < g_retry_base_delay_sec c3
         then c3\<lparr>g_retry_max_delay_sec := g_retry_base_delay_sec c3\<rparr> else c3)"

text \<open>\<open>fopen(path, "r")\<close>: the file read, or \<open>None\<close>.\<close>

definition fopen_r :: "kernel \<Rightarrow> string \<Rightarrow> fs \<Rightarrow> inode option" where
  "fopen_r K path fs = (if k_fault K SysOpen path \<noteq> None then None else fs path)"

definition config_init ::
  "(inode \<Rightarrow> toml_datum option) \<Rightarrow> kernel \<Rightarrow> string option \<Rightarrow> config_state \<Rightarrow> fs \<Rightarrow> config_state \<times> fs"
where
  "config_init parse K path c0 fs0 =
     (let (c, fs) = set_default_dir K (reset_defaults c0) fs0;
          p = (case path of None \<Rightarrow> get_config_path K 1024 | Some q \<Rightarrow> q)
      in case fopen_r K p fs of
           None \<Rightarrow> (c, fs)
         | Some file \<Rightarrow>
             (case parse file of
                None \<Rightarrow> (c, fs)
              | Some doc \<Rightarrow> let (c', fs') = config_read K doc c fs in (config_clamp c', fs')))"

text \<open>The text \<open>fprintf\<close> writes; \<open>config_save\<close> reaches it only with non-negative numbers.\<close>

definition config_text :: "config_state \<Rightarrow> string" where
  "config_text cf =
     ''[downloads]'' @ [CHR 10] @ ''max_concurrent = '' @ dec (nat (g_max_concurrent cf)) @ [CHR 10] @
     ''default_directory = '' @ [CHR 34] @ g_default_dir cf @ [CHR 34, CHR 10, CHR 10] @
     ''[retry]'' @ [CHR 10] @ ''max_attempts = '' @ dec (nat (g_retry_max_attempts cf)) @ [CHR 10] @
     ''base_delay_sec = '' @ dec (nat (g_retry_base_delay_sec cf)) @ [CHR 10] @
     ''max_delay_sec = '' @ dec (nat (g_retry_max_delay_sec cf)) @ [CHR 10, CHR 10] @
     ''[throttle]'' @ [CHR 10] @ ''max_speed_bytes_per_sec = '' @ dec (unat (g_max_speed_bps cf)) @ [CHR 10]"

definition config_valid :: "config_state \<Rightarrow> bool" where
  "config_valid cf \<longleftrightarrow>
     \<not> (g_max_concurrent cf < 1 \<or> g_retry_max_attempts cf < 0 \<or> g_retry_base_delay_sec cf < 1 \<or>
        g_retry_max_delay_sec cf < g_retry_base_delay_sec cf \<or> g_default_dir cf = [])"

text \<open>
  \<open>config_save\<close>: \<open>c0\<close> is the state of the module, \<open>cf\<close> the settings to save, \<open>reached\<close>
  the number of bytes on disk when the write fails.
\<close>

definition config_save ::
  "(inode \<Rightarrow> toml_datum option) \<Rightarrow> kernel \<Rightarrow> nat \<Rightarrow> config_state \<Rightarrow> config_state \<Rightarrow> fs \<Rightarrow>
   bool \<times> config_state \<times> fs" where
  "config_save parse K reached cf c0 fs0 =
     (if \<not> config_valid cf then (False, c0, fs0)
      else case default_dir_is_usable K (g_default_dir cf) fs0 of
             (False, fs1) \<Rightarrow> (False, c0, fs1)
           | (True, fs1) \<Rightarrow>
               let path = get_config_path K 1024;
                   directory = strncpy_buf 1024 (home_or K ''/tmp'' @ ''/.local/share/cdm'');
                   (r, fs2) = file_ensure_directory K directory fs1
               in if r \<noteq> 0 then (False, c0, fs2)
                  else if k_fault K SysOpen path \<noteq> None \<or> fs2 path = Some Nonregular
                  then (False, c0, fs2)
                  else if k_fault K SysWrite path \<noteq> None
                  then (False, c0, fs2(path \<mapsto> Regular (take reached (str_bytes (config_text cf)))))
                  else let fs3 = fs2(path \<mapsto> Regular (str_bytes (config_text cf)));
                           (c, fs4) = config_init parse K (Some path) c0 fs3
                       in (True, c, fs4))"

section \<open>Bounds\<close>

text \<open>What the scheduler relies on.\<close>

definition config_ok :: "config_state \<Rightarrow> bool" where
  "config_ok c \<longleftrightarrow> 1 \<le> g_max_concurrent c \<and> 0 \<le> g_retry_max_attempts c \<and>
     1 \<le> g_retry_base_delay_sec c \<and> g_retry_base_delay_sec c \<le> g_retry_max_delay_sec c \<and>
     g_max_concurrent c < 2 ^ 31 \<and> g_retry_max_attempts c < 2 ^ 31 \<and>
     g_retry_max_delay_sec c < 2 ^ 31 \<and> length (g_default_dir c) < 1024"

lemma read_int_range: "out < 2147483648 \<Longrightarrow> read_int tab key out < 2147483648"
  using as_int_range by (auto simp: read_int_def split: toml_datum.splits)

lemma config_clamp_ok:
  assumes "g_max_concurrent c < 2 ^ 31" "g_retry_max_attempts c < 2 ^ 31"
    "g_retry_base_delay_sec c < 2 ^ 31" "g_retry_max_delay_sec c < 2 ^ 31"
    "length (g_default_dir c) < 1024"
  shows "config_ok (config_clamp c)"
  using assms by (auto simp: config_clamp_def config_ok_def Let_def)

lemma config_clamp_id: "config_valid c \<Longrightarrow> config_clamp c = c"
  by (auto simp: config_valid_def config_clamp_def Let_def)

lemma config_init_ok: "config_ok (fst (config_init parse K path c fs))"
proof -
  have d: "config_ok (reset_defaults c\<lparr>g_default_dir := strncpy_buf 1024 s\<rparr>)" for s
    by (simp add: config_ok_def reset_defaults_def length_strncpy_buf)
  have "config_ok (config_clamp (fst (config_read K doc (reset_defaults c\<lparr>g_default_dir := strncpy_buf 1024 s\<rparr>) fs')))"
    for doc s fs'
    by (rule config_clamp_ok)
       (auto simp: config_read_def Let_def reset_defaults_def length_strncpy_buf read_int_range
         split: prod.splits)
  with d show ?thesis
    by (auto simp: config_init_def set_default_dir_def Let_def split: option.splits prod.splits)
       (metis fst_conv)+
qed

section \<open>Saving\<close>

text \<open>The document a TOML parser reads from a saved file.\<close>

definition config_doc :: "config_state \<Rightarrow> toml_datum" where
  "config_doc cf =
     TOML_TABLE
       [(''downloads'', TOML_TABLE [(''max_concurrent'', TOML_INT64 (g_max_concurrent cf)),
                                    (''default_directory'', TOML_STRING (g_default_dir cf))]),
        (''retry'', TOML_TABLE [(''max_attempts'', TOML_INT64 (g_retry_max_attempts cf)),
                                (''base_delay_sec'', TOML_INT64 (g_retry_base_delay_sec cf)),
                                (''max_delay_sec'', TOML_INT64 (g_retry_max_delay_sec cf))]),
        (''throttle'', TOML_TABLE [(''max_speed_bytes_per_sec'', TOML_INT64 (uint (g_max_speed_bps cf)))])]"

text \<open>Whether a directory can be ensured depends on the faults alone.\<close>

lemma mkdir_prefixes_fs_indep:
  "fst (mkdir_prefixes K temp is fs) = fst (mkdir_prefixes K temp is fs')"
proof (induction "is" arbitrary: fs fs')
  case Nil
  then show ?case by simp
next
  case (Cons i "is")
  obtain r1 fs1 r2 fs2 where m: "sys_mkdir K (take i temp) fs = (r1, fs1)"
    "sys_mkdir K (take i temp) fs' = (r2, fs2)" by fastforce
  then have "(r1 = None \<or> r1 = Some EEXIST) = (r2 = None \<or> r2 = Some EEXIST)"
    by (auto simp: sys_mkdir_def split: option.splits if_splits)
  with m Cons.IH show ?case by (auto split: option.splits)
qed

lemma file_ensure_directory_fs_indep:
  "fst (file_ensure_directory K p fs) = fst (file_ensure_directory K p fs')"
proof -
  let ?t = "strncpy_buf 1024 p"
  obtain a x b y where m: "mkdir_prefixes K ?t [1..<length ?t] fs = (a, x)"
    "mkdir_prefixes K ?t [1..<length ?t] fs' = (b, y)" by fastforce
  then have ab: "a = b" using mkdir_prefixes_fs_indep [of K ?t "[1..<length ?t]" fs fs'] by simp
  obtain r1 fs1 r2 fs2 where n: "sys_mkdir K ?t x = (r1, fs1)" "sys_mkdir K ?t y = (r2, fs2)"
    by fastforce
  then have "(r1 = None \<or> r1 = Some EEXIST) = (r2 = None \<or> r2 = Some EEXIST)"
    by (auto simp: sys_mkdir_def split: option.splits if_splits)
  with m n ab show ?thesis
    by (auto simp: file_ensure_directory_def Let_def split: option.splits bool.splits)
qed

lemma default_dir_is_usable_fs_indep:
  "fst (default_dir_is_usable K p fs) = fst (default_dir_is_usable K p fs')"
  using file_ensure_directory_fs_indep [of K p fs fs']
  by (auto simp: default_dir_is_usable_def split: option.splits prod.splits)

lemma config_read_doc:
  assumes "default_dir_is_usable K (g_default_dir cf) fs = (True, fs')"
    and "length (g_default_dir cf) < 1024" and "g_default_dir cf \<noteq> []" and "config_ok cf"
  shows "fst (config_read K (config_doc cf) c fs) = cf"
proof -
  have r: "- (2 ^ 31) \<le> g_max_concurrent cf" "- (2 ^ 31) \<le> g_retry_max_attempts cf"
    "- (2 ^ 31) \<le> g_retry_base_delay_sec cf" "- (2 ^ 31) \<le> g_retry_max_delay_sec cf"
    "g_retry_base_delay_sec cf < 2 ^ 31"
    using assms(4) by (simp_all add: config_ok_def)
  show ?thesis
    using assms r
    by (simp add: config_read_def config_doc_def toml_get_def read_string_def read_int_def
        read_u64_def config_ok_def Let_def)
qed

lemma config_init_file:
  assumes "fs p = Some (Regular bs)" and "k_fault K SysOpen p = None"
    and "parse (Regular bs) = Some doc"
  shows "\<exists>c fs1. fst (config_init parse K (Some p) c0 fs) = config_clamp (fst (config_read K doc c fs1))"
proof -
  let ?d = "strncpy_buf 1024 (home_or K ''.'' @ ''/'' @ ''Downloads'')"
  obtain r fs1 where e: "file_ensure_directory K ?d fs = (r, fs1)" by fastforce
  have "fs1 p = Some (Regular bs)"
    using file_ensure_directory_frame [OF e, of p] assms(1) by simp
  then have "fst (config_init parse K (Some p) c0 fs) =
      config_clamp (fst (config_read K doc (reset_defaults c0\<lparr>g_default_dir := ?d\<rparr>) fs1))"
    using assms e by (simp add: config_init_def set_default_dir_def fopen_r_def Let_def split_beta)
  then show ?thesis by blast
qed

lemma config_save_in_force:
  assumes "parse (Regular (str_bytes (config_text cf))) = Some (config_doc cf)"
    and saved: "config_save parse K w cf c0 fs = (True, c, fs')"
    and cf: "config_ok cf"
  shows "c = cf"
proof -
  let ?p = "get_config_path K 1024"
  let ?b = "str_bytes (config_text cf)"
  from saved have v: "config_valid cf" by (auto simp: config_save_def split: if_splits)
  obtain u fs1 where u: "default_dir_is_usable K (g_default_dir cf) fs = (u, fs1)" by fastforce
  obtain r fs2 where r: "file_ensure_directory K
      (strncpy_buf 1024 (home_or K ''/tmp'' @ ''/.local/share/cdm'')) fs1 = (r, fs2)" by fastforce
  let ?fs3 = "fs2(?p \<mapsto> Regular ?b)"
  have ut: "u" and o: "k_fault K SysOpen ?p = None"
    and c: "c = fst (config_init parse K (Some ?p) c0 ?fs3)"
    using saved v u r by (auto simp: config_save_def Let_def split: if_splits bool.splits prod.splits)
  obtain c1 fs4 where c1: "c = config_clamp (fst (config_read K (config_doc cf) c1 fs4))"
    using config_init_file [of ?fs3 ?p ?b K parse "config_doc cf" c0] o assms(1) c by auto
  obtain fs5 where "default_dir_is_usable K (g_default_dir cf) fs4 = (True, fs5)"
    using default_dir_is_usable_fs_indep [of K "g_default_dir cf" fs4 fs] u ut
    by (metis fst_conv prod.collapse)
  then have "fst (config_read K (config_doc cf) c1 fs4) = cf"
    using v cf by (intro config_read_doc) (auto simp: config_valid_def config_ok_def)
  with c1 v show ?thesis by (simp add: config_clamp_id)
qed

text \<open>On a file system without faults saving succeeds.\<close>

lemma mkdir_prefixes_no_fault:
  "(\<And>p. k_fault K SysMkdir p = None) \<Longrightarrow> fst (mkdir_prefixes K temp is fs)"
  by (induction "is" arbitrary: fs) (auto simp: sys_mkdir_def)

lemma ensure_directory_no_fault:
  assumes "\<And>p. k_fault K SysMkdir p = None" and "path \<noteq> []"
  shows "fst (file_ensure_directory K path fs) = 0"
proof -
  let ?t = "strncpy_buf 1024 path"
  obtain fs1 where "mkdir_prefixes K ?t [1..<length ?t] fs = (True, fs1)"
    using mkdir_prefixes_no_fault [OF assms(1)] by (metis (full_types) fst_conv surj_pair)
  then show ?thesis
    using assms by (simp add: file_ensure_directory_def Let_def sys_mkdir_def)
qed

lemma config_save_succeeds:
  assumes "config_valid cf" and "\<And>c p. k_fault K c p = None"
    and home: "k_getenv K ''HOME'' = Some h" "h \<noteq> []" "starts_with (h @ ''/'') (g_default_dir cf)"
    and "k_realpath K (g_default_dir cf) = Inr x"
    and cfile: "fs (get_config_path K 1024) = Some (Regular bs)"
  shows "fst (config_save parse K w cf c0 fs)"
proof -
  let ?p = "get_config_path K 1024" and ?d = "g_default_dir cf"
  have d: "?d \<noteq> []" using assms(1) by (simp add: config_valid_def)
  obtain t where t: "?d = h @ CHR ''/'' # t" using home(3) by (auto simp: starts_with_conv)
  obtain fs1 where e1: "file_ensure_directory K ?d fs = (0, fs1)"
    using ensure_directory_no_fault [OF assms(2) d] by (metis fst_conv surj_pair)
  have u: "default_dir_is_usable K ?d fs = (True, fs1)"
    using home d e1 assms(6) t by (simp add: default_dir_is_usable_def nth_append)
  let ?dir = "strncpy_buf 1024 (home_or K ''/tmp'' @ ''/.local/share/cdm'')"
  have "?dir \<noteq> []" using home(2) by (simp add: strncpy_buf_def)
  then obtain fs2 where e2: "file_ensure_directory K ?dir fs1 = (0, fs2)"
    using ensure_directory_no_fault [OF assms(2)] by (metis fst_conv surj_pair)
  have "fs2 ?p = Some (Regular bs)"
    using file_ensure_directory_frame [OF e1, of ?p] file_ensure_directory_frame [OF e2, of ?p] cfile by auto
  with u e2 assms(1,2) show ?thesis by (simp add: config_save_def Let_def split: prod.splits)
qed

section \<open>Properties\<close>

text \<open>
  Whatever the configuration file holds, and whether or not it can be read or parsed, the
  settings in force afterwards allow at least one download, a non-negative number of retries, and
  a delay range with a positive base that does not exceed its maximum, all within 32 bits.
\<close>

lemma settings_always_sane:
  "1 \<le> g_max_concurrent (fst (config_init parse K path c fs)) \<and>
   0 \<le> g_retry_max_attempts (fst (config_init parse K path c fs)) \<and>
   1 \<le> g_retry_base_delay_sec (fst (config_init parse K path c fs)) \<and>
   g_retry_base_delay_sec (fst (config_init parse K path c fs))
     \<le> g_retry_max_delay_sec (fst (config_init parse K path c fs)) \<and>
   g_max_concurrent (fst (config_init parse K path c fs)) < 2 ^ 31 \<and>
   g_retry_max_delay_sec (fst (config_init parse K path c fs)) < 2 ^ 31 \<and>
   length (g_default_dir (fst (config_init parse K path c fs))) < 1024"
  using config_init_ok [of parse K path c fs] unfolding config_ok_def by blast

text \<open>
  When settings within the bounds are saved successfully and the TOML parser reads the written
  text as the document it spells, the settings in force are exactly the saved ones.
\<close>

lemma saved_settings_in_force:
  assumes "parse (Regular (str_bytes (config_text cf))) = Some (config_doc cf)"
    and "config_save parse K w cf c0 fs = (True, c, fs')" and "config_ok cf"
  shows "c = cf"
  using assms by (rule config_save_in_force)


end
