(* ===== verification/Ipc_Server.thy ===== *)
theory Ipc_Server
  imports Ipc_Wire Path_Utils Config Db
begin

text \<open>
  The server half of \<open>src/platform/ipc_socket.c\<close>: the client table, the browser offers, the
  reservation of a destination and the handler of every message, up to one round of the poll loop.
  cJSON is a parameter (a parser from text to the members of an object). A handler consumes its
  part of the client's stream and answers with a sequence of fields. The properties are in
  \<open>Ipc_Safety\<close>.
\<close>

section \<open>State\<close>

definition MAX_CLIENTS :: nat where
  "MAX_CLIENTS = 16"

definition MAX_BROWSER_OFFERS :: nat where
  "MAX_BROWSER_OFFERS = 64"

definition BROWSER_OFFER_TTL_SECONDS :: int where
  "BROWSER_OFFER_TTL_SECONDS = 600"

definition IPC_LIST_ALL_MAX :: int where
  "IPC_LIST_ALL_MAX = 200"

text \<open>One entry of the \<open>g_client_*\<close> arrays; \<open>cl_header\<close> holds the header bytes read so far.\<close>

record client =
  cl_fd :: int
  cl_subscribed :: bool
  cl_browser_download :: u32
  cl_header :: "u8 list"

datatype offer_state = IPC_BROWSER_WAITING | IPC_BROWSER_CONFIRMED | IPC_BROWSER_DISMISSED

record offer =
  of_offer_id :: u32
  of_download_id :: u32
  of_total_bytes :: u64
  of_state :: offer_state
  of_request_id :: string
  of_url :: string
  of_filename :: string
  of_mime :: string
  of_referrer :: string

record offer_slot =
  os_offer :: offer
  os_touched_at :: int

definition zero_offer :: offer where
  "zero_offer = \<lparr>of_offer_id = 0, of_download_id = 0, of_total_bytes = 0, of_state = IPC_BROWSER_WAITING,
     of_request_id = [], of_url = [], of_filename = [], of_mime = [], of_referrer = []\<rparr>"

definition zero_slot :: offer_slot where
  "zero_slot = \<lparr>os_offer = zero_offer, os_touched_at = 0\<rparr>"

text \<open>The daemon as the IPC thread sees it. \<open>ip_rx\<close>: what each client still sends.\<close>

record ipc =
  ip_listening :: bool
  ip_clients :: "client list"
  ip_offers :: "offer_slot list"
  ip_q :: qm_state
  ip_db :: database
  ip_fs :: fs
  ip_cfg :: config_state
  ip_rx :: "int \<Rightarrow> u8 list"

datatype json_value = JString string | JNumber rat | JOther

type_synonym json = "string \<Rightarrow> json_value option"

text \<open>
  What the handlers meet: kernel, SQLite, \<open>time(NULL)\<close>, the values \<open>/dev/urandom\<close> yields (0 when it
  cannot be read), \<open>cJSON_Parse\<close>, the TOML parser, what other processes do to the file system
  before attempt \<open>k\<close> opens the file, and the value of an uninitialised local variable.
\<close>

record ipc_env =
  ie_kernel :: kernel
  ie_sql :: sql
  ie_now :: int
  ie_random :: "u32 list"
  ie_json :: "string \<Rightarrow> json option"
  ie_toml :: "inode \<Rightarrow> toml_datum option"
  ie_race :: "nat \<Rightarrow> fs \<Rightarrow> fs"
  ie_stack :: u32

section \<open>Browser offers\<close>

definition expire_slot :: "int \<Rightarrow> qm_state \<Rightarrow> offer_slot \<Rightarrow> offer_slot" where
  "expire_slot now q slot =
     (if of_offer_id (os_offer slot) = 0 then slot
      else if now - os_touched_at slot \<le> BROWSER_OFFER_TTL_SECONDS then slot
      else if of_state (os_offer slot) = IPC_BROWSER_CONFIRMED \<and>
              (case queue_manager_get_status (of_download_id (os_offer slot)) q of
                 None \<Rightarrow> False
               | Some st \<Rightarrow> st \<noteq> DOWNLOAD_DONE \<and> st \<noteq> DOWNLOAD_ERROR \<and> st \<noteq> DOWNLOAD_CANCELED)
      then slot
      else zero_slot)"

definition browser_expire_offers :: "int \<Rightarrow> ipc \<Rightarrow> ipc" where
  "browser_expire_offers now st = st\<lparr>ip_offers := map (expire_slot now (ip_q st)) (ip_offers st)\<rparr>"

abbreviation slot_has_id :: "u32 \<Rightarrow> offer_slot \<Rightarrow> bool" where
  "slot_has_id i slot \<equiv> of_offer_id (os_offer slot) = i"

definition browser_find_offer :: "u32 \<Rightarrow> ipc \<Rightarrow> offer_slot option" where
  "browser_find_offer i st = (if i = 0 then None else find (slot_has_id i) (ip_offers st))"

definition browser_find_request :: "string \<Rightarrow> ipc \<Rightarrow> offer_slot option" where
  "browser_find_request req st =
     find (\<lambda>s. of_offer_id (os_offer s) \<noteq> 0 \<and> of_request_id (os_offer s) = req) (ip_offers st)"

text \<open>Writing through the pointer \<open>browser_find_offer\<close> returned.\<close>

definition touch_offer :: "u32 \<Rightarrow> int \<Rightarrow> (offer \<Rightarrow> offer) \<Rightarrow> ipc \<Rightarrow> ipc" where
  "touch_offer i now f st =
     st\<lparr>ip_offers := upd_first (slot_has_id i)
          (\<lambda>s. \<lparr>os_offer = f (os_offer s), os_touched_at = now\<rparr>) (ip_offers st)\<rparr>"

definition browser_json_string :: "json \<Rightarrow> string \<Rightarrow> nat \<Rightarrow> bool \<Rightarrow> string option" where
  "browser_json_string obj key capacity required =
     (case obj key of
        None \<Rightarrow> if required then None else Some []
      | Some (JString v) \<Rightarrow> if (required \<and> v = []) \<or> length v \<ge> capacity then None else Some v
      | Some _ \<Rightarrow> None)"

definition json_total :: "json \<Rightarrow> u64 option" where
  "json_total obj =
     (case obj ''total_bytes'' of
        None \<Rightarrow> Some 0
      | Some (JNumber v) \<Rightarrow> if v < 0 \<or> v > 9007199254740991 then None else Some (word_of_int \<lfloor>v\<rfloor>)
      | Some _ \<Rightarrow> None)"

definition plain_filename :: "string \<Rightarrow> bool" where
  "plain_filename s \<longleftrightarrow> CHR ''/'' \<notin> set s \<and> CHR 0x5C \<notin> set s \<and> s \<noteq> ''.'' \<and> s \<noteq> ''..''"

definition browser_parse_offer :: "(string \<Rightarrow> json option) \<Rightarrow> string \<Rightarrow> offer option" where
  "browser_parse_offer parse text =
     (case parse text of
        None \<Rightarrow> None
      | Some obj \<Rightarrow>
          (case (browser_json_string obj ''request_id'' 128 True, browser_json_string obj ''url'' 2048 True,
                 browser_json_string obj ''filename'' 512 False, browser_json_string obj ''mime'' 128 False,
                 browser_json_string obj ''referrer'' 2048 False, json_total obj) of
             (Some req, Some url, Some fname, Some mime, Some ref, Some n) \<Rightarrow>
               if \<not> starts_with ''https://'' url \<and> \<not> starts_with ''http://'' url then None
               else let name = (if fname = [] then path_filename_from_url url 512 else fname)
                    in if \<not> plain_filename name then None
                       else Some (zero_offer\<lparr>of_total_bytes := n, of_request_id := req, of_url := url,
                              of_filename := name, of_mime := mime, of_referrer := ref\<rparr>)
           | _ \<Rightarrow> None))"

text \<open>Up to 16 random numbers until one is non-zero and not in use.\<close>

fun pick_offer_id :: "nat \<Rightarrow> u32 list \<Rightarrow> ipc \<Rightarrow> u32" where
  "pick_offer_id 0 rs st = 0"
| "pick_offer_id (Suc k) [] st = 0"
| "pick_offer_id (Suc k) (r # rs) st =
     (if r \<noteq> 0 \<and> browser_find_offer r st = None then r else pick_offer_id k rs st)"

section \<open>Snapshots for clients\<close>

definition status_to_string :: "download_status \<Rightarrow> string" where
  "status_to_string s =
     (case s of
        DOWNLOAD_QUEUED \<Rightarrow> ''QUEUED'' | DOWNLOAD_ACTIVE \<Rightarrow> ''ACTIVE'' | DOWNLOAD_PAUSED \<Rightarrow> ''PAUSED''
      | DOWNLOAD_DONE \<Rightarrow> ''DONE'' | DOWNLOAD_ERROR \<Rightarrow> ''ERROR'' | DOWNLOAD_CANCELED \<Rightarrow> ''CANCELED'')"

text \<open>The sum over the chunks of a snapshot, in 64-bit arithmetic.\<close>

definition chunk_sum :: "runtime_snapshot \<Rightarrow> u64" where
  "chunk_sum snap = foldl (\<lambda>a c. a + bytes_done c) 0 (take (rs_chunk_count snap) (rs_chunks snap))"

text \<open>Floating-point rounding is not modelled: the fraction is an exact rational.\<close>

definition snapshot_progress :: "runtime_snapshot \<Rightarrow> rat" where
  "snapshot_progress snap =
     (if rs_total_size snap = 0 then 0
      else let got = (if rs_status snap = DOWNLOAD_ACTIVE then rs_bytes_downloaded snap else chunk_sum snap);
               fraction = of_nat (unat got) / of_nat (unat (rs_total_size snap))
           in if fraction > 1 then 1 else fraction)"

record browser_progress =
  bp_download_id :: u32
  bp_bytes_received :: u64
  bp_total_bytes :: u64
  bp_progress :: rat
  bp_status :: string
  bp_error :: string
  bp_dest_path :: string

definition browser_progress_snapshot :: "u32 \<Rightarrow> string option \<Rightarrow> qm_state \<Rightarrow> browser_progress" where
  "browser_progress_snapshot i err q =
     (case queue_manager_get_runtime_snapshot i q of
        None \<Rightarrow> \<lparr>bp_download_id = i, bp_bytes_received = 0, bp_total_bytes = 0, bp_progress = 0,
                 bp_status = ''NOT_FOUND'', bp_error = [], bp_dest_path = []\<rparr>
      | Some snap \<Rightarrow>
          \<lparr>bp_download_id = i,
           bp_bytes_received =
             (if rs_status snap = DOWNLOAD_ACTIVE then rs_bytes_downloaded snap
              else if rs_status snap = DOWNLOAD_DONE
              then (if rs_total_size snap \<noteq> 0 then rs_total_size snap else rs_bytes_downloaded snap)
              else chunk_sum snap),
           bp_total_bytes = rs_total_size snap,
           bp_progress = (if rs_status snap = DOWNLOAD_DONE then 1 else snapshot_progress snap),
           bp_status = strncpy_buf 24 (status_to_string (rs_status snap)),
           bp_error = (case err of None \<Rightarrow> [] | Some e \<Rightarrow> strncpy_buf 256 e),
           bp_dest_path = rs_dest_path snap\<rparr>)"

section \<open>Clients\<close>

definition remove_client :: "nat \<Rightarrow> ipc \<Rightarrow> ipc" where
  "remove_client i st = st\<lparr>ip_clients := take i (ip_clients st) @ drop (Suc i) (ip_clients st)\<rparr>"

definition add_client :: "int \<Rightarrow> ipc \<Rightarrow> ipc" where
  "add_client fd st =
     (if length (ip_clients st) < MAX_CLIENTS
      then st\<lparr>ip_clients := ip_clients st @
             [\<lparr>cl_fd = fd, cl_subscribed = False, cl_browser_download = 0, cl_header = []\<rparr>]\<rparr>
      else st)"

text \<open>The loop over the client table that changes the entry of a descriptor.\<close>

definition upd_client :: "int \<Rightarrow> (client \<Rightarrow> client) \<Rightarrow> ipc \<Rightarrow> ipc" where
  "upd_client fd f st = st\<lparr>ip_clients := upd_first (\<lambda>c. cl_fd c = fd) f (ip_clients st)\<rparr>"

section \<open>Replies\<close>

datatype wire_item =
  W8 u8 | W32 u32 | W64 u64 | WFloat rat | WString string | WOffer offer | WProgress browser_progress

datatype ipc_result = IPC_RESULT_OK | IPC_RESULT_NOT_FOUND | IPC_RESULT_REJECTED | IPC_RESULT_ERROR

primrec result_code :: "ipc_result \<Rightarrow> u8" where
  "result_code IPC_RESULT_OK = 0"
| "result_code IPC_RESULT_NOT_FOUND = 1"
| "result_code IPC_RESULT_REJECTED = 2"
| "result_code IPC_RESULT_ERROR = 3"

definition send_command_result :: "ipc_result \<Rightarrow> wire_item list" where
  "send_command_result r = [W8 (result_code r)]"

text \<open>The visitor of the list: it appends one row to the reply.\<close>

definition send_download_row :: "qm_state \<Rightarrow> list_record \<Rightarrow> wire_item list \<Rightarrow> int \<times> wire_item list" where
  "send_download_row q row sent =
     (let (status, progress) =
            (case queue_manager_get_runtime_snapshot (lr_id row) q of
               Some snap \<Rightarrow> (strncpy_buf 16 (status_to_string (rs_status snap)), snapshot_progress snap)
             | None \<Rightarrow> (strncpy_buf 16 (lr_status row), 0));
          progress' = (if status = ''DONE'' then 1 else progress)
      in (0, sent @ [W32 (lr_id row), WString (lr_url row), WString (lr_dest_path row), WString status,
                     WFloat progress']))"

section \<open>Reserving a destination\<close>

text \<open>The loop of \<open>reserve_download\<close> with \<open>k\<close> attempts left.\<close>

fun reserve_loop :: "ipc_env \<Rightarrow> nat \<Rightarrow> string \<Rightarrow> string \<Rightarrow> request_options \<Rightarrow> ipc \<Rightarrow> u32 \<times> ipc" where
  "reserve_loop E 0 url dest opts st = (0, st)"
| "reserve_loop E (Suc k) url dest opts st =
     (case path_make_unique (ie_kernel E) (ip_fs st) dest IPC_MAX_PATH_LEN of
        None \<Rightarrow> (0, st)
      | Some unique_dest \<Rightarrow>
          (case queue_manager_add (ie_kernel E) url unique_dest (Some opts) (ip_q st) of
             (i, q1) \<Rightarrow>
               if i = 0 then (0, st\<lparr>ip_q := q1\<rparr>)
               else (case file_preallocate (ie_kernel E) unique_dest 0 (ie_race E k (ip_fs st)) of
                       (claim, fs1) \<Rightarrow>
                         if claim = 0
                         then let q2 = qm_update i (\<lambda>d. d\<lparr>dl_reserved_file := True\<rparr>) q1
                              in (case db_insert_reserved_download (ie_sql E) i url unique_dest (Some opts) (ie_now E) (ip_db st) of
                                    (rc, db1) \<Rightarrow>
                                      if rc = 0 then (i, st\<lparr>ip_q := q2, ip_db := db1, ip_fs := fs1\<rparr>)
                                      else (case queue_manager_remove (ie_kernel E) i q2 (sys_unlink (ie_kernel E) unique_dest fs1) of
                                              (q3, fs2) \<Rightarrow> (0, st\<lparr>ip_q := q3, ip_db := db1, ip_fs := fs2\<rparr>)))
                         else (case queue_manager_remove (ie_kernel E) i q1 fs1 of
                                 (q3, fs2) \<Rightarrow>
                                   if claim \<noteq> -2 then (0, st\<lparr>ip_q := q3, ip_fs := fs2\<rparr>)
                                   else reserve_loop E k url dest opts (st\<lparr>ip_q := q3, ip_fs := fs2\<rparr>)))))"

definition reserve_download :: "ipc_env \<Rightarrow> string \<Rightarrow> string \<Rightarrow> request_options \<Rightarrow> ipc \<Rightarrow> u32 \<times> ipc" where
  "reserve_download E url dest opts st = reserve_loop E 1000000 url dest opts st"

section \<open>Handlers\<close>

text \<open>
  A handler gets the client's descriptor, the payload length of the header and the client's stream;
  it returns the reply, the rest of the stream and the new state. Writes to the client are taken
  to succeed: no handler looks at their result.
\<close>

type_synonym handler = "ipc_env \<Rightarrow> int \<Rightarrow> nat \<Rightarrow> u8 list \<Rightarrow> ipc \<Rightarrow> wire_item list \<times> u8 list \<times> ipc"

definition json_text :: "json \<Rightarrow> string \<Rightarrow> nat \<Rightarrow> string" where
  "json_text obj key size_of = (case obj key of Some (JString v) \<Rightarrow> strncpy_buf size_of v | _ \<Rightarrow> [])"

definition add_options :: "(string \<Rightarrow> json option) \<Rightarrow> string \<Rightarrow> request_options" where
  "add_options parse text =
     (case (if text = [] then None else parse text) of
        None \<Rightarrow> \<lparr>ro_cookie = [], ro_referrer = [], ro_extra_headers = [], ro_expected_sha256 = [],
                 ro_speed_limit_bps = 0\<rparr>
      | Some obj \<Rightarrow>
          \<lparr>ro_cookie = json_text obj ''cookie'' 1024, ro_referrer = json_text obj ''referrer'' 2048,
           ro_extra_headers = json_text obj ''extra_headers'' 4096,
           ro_expected_sha256 = json_text obj ''expected_sha256'' 65,
           ro_speed_limit_bps =
             (case obj ''speed_limit_bps'' of
                Some (JNumber v) \<Rightarrow> if v > 0 then word_of_int \<lfloor>v\<rfloor> else 0
              | _ \<Rightarrow> 0)\<rparr>)"

definition handle_add_download :: handler where
  "handle_add_download E fd len s st =
     (case ipc_read_string IPC_MAX_URL_LEN s of
        (rc1, url, s1) \<Rightarrow>
          if rc1 \<noteq> 0 then ([], s1, st)
          else case ipc_read_string IPC_MAX_PATH_LEN s1 of
                 (rc2, dest, s2) \<Rightarrow>
                   if rc2 \<noteq> 0 then ([], s2, st)
                   else case ipc_read_string 8192 s2 of
                          (rc3, options_json, s3) \<Rightarrow>
                            if rc3 \<noteq> 0 then ([], s3, st)
                            else case reserve_download E url dest (add_options (ie_json E) options_json) st of
                                   (i, st') \<Rightarrow> ([W32 i], s3, st'))"

text \<open>Storing a new offer in the first free slot.\<close>

definition register_offer :: "ipc_env \<Rightarrow> offer \<Rightarrow> ipc \<Rightarrow> offer \<times> ipc" where
  "register_offer E proposed st =
     (if find (slot_has_id 0) (ip_offers st) = None then (zero_offer, st)
      else let i = pick_offer_id 16 (ie_random E) st
           in if i = 0 then (zero_offer, st)
              else (proposed\<lparr>of_offer_id := i\<rparr>,
                    st\<lparr>ip_offers := upd_first (slot_has_id 0)
                         (\<lambda>_. \<lparr>os_offer = proposed\<lparr>of_offer_id := i\<rparr>, os_touched_at = ie_now E\<rparr>) (ip_offers st)\<rparr>))"

definition handle_browser_offer :: handler where
  "handle_browser_offer E fd len s st =
     (case take_exact len s of
        None \<Rightarrow> ([], [], st)
      | Some (b, s1) \<Rightarrow>
          (case browser_parse_offer (ie_json E) (cstr_of b) of
             None \<Rightarrow> ([WOffer zero_offer], s1, st)
           | Some proposed \<Rightarrow>
               (case browser_find_request (of_request_id proposed) st of
                  Some slot \<Rightarrow>
                    if of_url (os_offer slot) \<noteq> of_url proposed then ([WOffer zero_offer], s1, st)
                    else ([WOffer (os_offer slot)], s1, st)
                | None \<Rightarrow> (case register_offer E proposed st of (r, st') \<Rightarrow> ([WOffer r], s1, st')))))"

definition handle_browser_get_offer :: handler where
  "handle_browser_get_offer E fd len s st =
     (case get_u32 s of
        None \<Rightarrow> ([], [], st)
      | Some (i, s1) \<Rightarrow>
          (case browser_find_offer i st of
             None \<Rightarrow> ([WOffer zero_offer], s1, st)
           | Some slot \<Rightarrow> ([WOffer (os_offer slot)], s1, touch_offer i (ie_now E) (\<lambda>x. x) st)))"

text \<open>The confirmation proper, once the payload has been checked.\<close>

definition confirm_offer :: "ipc_env \<Rightarrow> u32 \<Rightarrow> string \<Rightarrow> ipc \<Rightarrow> u32 \<times> ipc" where
  "confirm_offer E offer_id dest st =
     (case browser_find_offer offer_id st of
        None \<Rightarrow> (0, st)
      | Some slot \<Rightarrow>
          (case of_state (os_offer slot) of
             IPC_BROWSER_CONFIRMED \<Rightarrow> (of_download_id (os_offer slot), st)
           | IPC_BROWSER_DISMISSED \<Rightarrow> (0, st)
           | IPC_BROWSER_WAITING \<Rightarrow>
               let opts = \<lparr>ro_cookie = [], ro_referrer = strncpy_buf 2048 (of_referrer (os_offer slot)),
                           ro_extra_headers = [], ro_expected_sha256 = [], ro_speed_limit_bps = 0\<rparr>
               in case reserve_download E (of_url (os_offer slot)) dest opts st of
                    (i, st') \<Rightarrow>
                      if i = 0 then (0, st')
                      else (i, touch_offer offer_id (ie_now E)
                                 (\<lambda>x. x\<lparr>of_download_id := i, of_state := IPC_BROWSER_CONFIRMED\<rparr>) st')))"

definition handle_browser_confirm :: handler where
  "handle_browser_confirm E fd len s st =
     (case take_exact len s of
        None \<Rightarrow> ([], [], st)
      | Some (b, s1) \<Rightarrow>
          let offer_id = of_nat (le_dec (take 4 b));
              path_len = le_dec (take 4 (drop 4 b));
              path = take path_len (drop 8 b)
          in if 0 < path_len \<and> path_len < IPC_MAX_PATH_LEN \<and> len = 8 + path_len \<and> 0 \<notin> set path
             then (case confirm_offer E offer_id (cstr_of path) st of (i, st') \<Rightarrow> ([W32 i], s1, st'))
             else ([W32 0], s1, st))"

definition handle_browser_dismiss :: handler where
  "handle_browser_dismiss E fd len s st =
     (case get_u32 s of
        None \<Rightarrow> ([], [], st)
      | Some (i, s1) \<Rightarrow>
          (case browser_find_offer i st of
             None \<Rightarrow> (send_command_result IPC_RESULT_NOT_FOUND, s1, st)
           | Some slot \<Rightarrow>
               (case of_state (os_offer slot) of
                  IPC_BROWSER_WAITING \<Rightarrow>
                    (send_command_result IPC_RESULT_OK, s1,
                     touch_offer i (ie_now E) (\<lambda>x. x\<lparr>of_state := IPC_BROWSER_DISMISSED\<rparr>) st)
                | IPC_BROWSER_DISMISSED \<Rightarrow> (send_command_result IPC_RESULT_OK, s1, st)
                | IPC_BROWSER_CONFIRMED \<Rightarrow> (send_command_result IPC_RESULT_REJECTED, s1, st))))"

definition handle_browser_subscribe_progress :: handler where
  "handle_browser_subscribe_progress E fd len s st =
     (case get_u32 s of
        None \<Rightarrow> ([], [], st)
      | Some (i, s1) \<Rightarrow>
          let event = browser_progress_snapshot i None (ip_q st)
          in ([WProgress event], s1,
              if bp_status event \<noteq> ''NOT_FOUND'' then upd_client fd (\<lambda>c. c\<lparr>cl_browser_download := i\<rparr>) st else st))"

definition handle_reload_config :: handler where
  "handle_reload_config E fd len s st =
     (case config_init (ie_toml E) (ie_kernel E) None (ip_cfg st) (ip_fs st) of
        (cfg, fs') \<Rightarrow> (send_command_result IPC_RESULT_OK, s, st\<lparr>ip_cfg := cfg, ip_fs := fs'\<rparr>))"

definition handle_pause :: handler where
  "handle_pause E fd len s st =
     (case get_u32 s of
        None \<Rightarrow> ([], [], st)
      | Some (i, s1) \<Rightarrow>
          (case queue_manager_get_status i (ip_q st) of
             None \<Rightarrow> (send_command_result IPC_RESULT_NOT_FOUND, s1, st)
           | Some before \<Rightarrow>
               if before \<noteq> DOWNLOAD_ACTIVE \<and> before \<noteq> DOWNLOAD_QUEUED
               then (send_command_result IPC_RESULT_REJECTED, s1, st)
               else (case queue_manager_pause i (ip_q st) of
                       (was_active, q1) \<Rightarrow>
                         (send_command_result IPC_RESULT_OK, s1,
                          st\<lparr>ip_q := q1,
                             ip_db := (if was_active then ip_db st
                                       else snd (db_update_status (ie_sql E) i ''PAUSED'' (ip_db st)))\<rparr>))))"

definition handle_resume :: handler where
  "handle_resume E fd len s st =
     (case get_u32 s of
        None \<Rightarrow> ([], [], st)
      | Some (i, s1) \<Rightarrow>
          (case queue_manager_get_status i (ip_q st) of
             None \<Rightarrow> (send_command_result IPC_RESULT_NOT_FOUND, s1, st)
           | Some before \<Rightarrow>
               (case queue_manager_resume i (ip_q st) of
                  (resumed, q1) \<Rightarrow>
                    if resumed
                    then (send_command_result IPC_RESULT_OK, s1,
                          st\<lparr>ip_q := q1, ip_db := snd (db_update_status (ie_sql E) i ''QUEUED'' (ip_db st))\<rparr>)
                    else (send_command_result IPC_RESULT_REJECTED, s1, st\<lparr>ip_q := q1\<rparr>))))"

text \<open>What follows when a download that is not running is cancelled.\<close>

definition discard_download :: "ipc_env \<Rightarrow> u32 \<Rightarrow> string \<Rightarrow> ipc \<Rightarrow> ipc" where
  "discard_download E i canceled_path st =
     (let db1 = snd (db_delete_chunks (ie_sql E) i (ip_db st));
          db2 = snd (db_update_total_size (ie_sql E) i 0 db1)
      in st\<lparr>ip_q := queue_manager_clear_resume_state i (ip_q st),
            ip_fs := (if canceled_path \<noteq> [] then sys_unlink (ie_kernel E) canceled_path (ip_fs st) else ip_fs st),
            ip_db := snd (db_update_status (ie_sql E) i ''CANCELED'' db2)\<rparr>)"

definition handle_cancel :: handler where
  "handle_cancel E fd len s st =
     (case get_u32 s of
        None \<Rightarrow> ([], [], st)
      | Some (i, s1) \<Rightarrow>
          (case queue_manager_get_status i (ip_q st) of
             None \<Rightarrow> (send_command_result IPC_RESULT_NOT_FOUND, s1, st)
           | Some before \<Rightarrow>
               if before = DOWNLOAD_DONE then (send_command_result IPC_RESULT_REJECTED, s1, st)
               else let canceled_path = (case queue_manager_find_by_id i (ip_q st) of
                                           None \<Rightarrow> []
                                         | Some d \<Rightarrow> strncpy_buf IPC_MAX_PATH_LEN (dl_dest_path d))
                    in case queue_manager_cancel i (ip_q st) of
                         (was_active, q1) \<Rightarrow>
                           (send_command_result IPC_RESULT_OK, s1,
                            if was_active then st\<lparr>ip_q := q1\<rparr>
                            else discard_download E i canceled_path (st\<lparr>ip_q := q1\<rparr>))))"

definition handle_list :: handler where
  "handle_list E fd len s st =
     ([W32 (of_nat (queue_manager_count_by_status DOWNLOAD_ACTIVE (ip_q st) +
                    queue_manager_count_by_status DOWNLOAD_QUEUED (ip_q st)))], s, st)"

definition handle_list_all :: handler where
  "handle_list_all E fd len s st =
     (let n = db_count_downloads (ie_sql E) IPC_LIST_ALL_MAX (ip_db st)
      in if n < 0 then ([W32 0], s, st)
         else (snd (db_visit_downloads (ie_sql E) (send_download_row (ip_q st)) [W32 (word_of_int n)]
                      IPC_LIST_ALL_MAX (ip_db st)), s, st))"

definition handle_get_details :: handler where
  "handle_get_details E fd len s st =
     (let (i, s1) = (case get_u32 s of None \<Rightarrow> (ie_stack E, []) | Some x \<Rightarrow> x)
      in case db_get_download_details (ie_sql E) i (ip_db st) of
           None \<Rightarrow> ([W8 0], s1, st)
         | Some d \<Rightarrow>
             ([W8 1, WString (ro_cookie d), WString (ro_referrer d), WString (ro_extra_headers d),
               WString (ro_expected_sha256 d), W64 (ro_speed_limit_bps d)], s1, st))"

definition handle_subscribe :: handler where
  "handle_subscribe E fd len s st = ([], s, upd_client fd (\<lambda>c. c\<lparr>cl_subscribed := True\<rparr>) st)"

definition handle_message :: "ipc_env \<Rightarrow> int \<Rightarrow> msg_header \<Rightarrow> u8 list \<Rightarrow> ipc \<Rightarrow> wire_item list \<times> u8 list \<times> ipc" where
  "handle_message E fd hdr s st =
     (let len = unat (mh_length hdr)
      in case mh_type hdr of
           Some MSG_ADD_DOWNLOAD \<Rightarrow> handle_add_download E fd len s st
         | Some MSG_BROWSER_OFFER \<Rightarrow> handle_browser_offer E fd len s st
         | Some MSG_BROWSER_GET_OFFER \<Rightarrow> handle_browser_get_offer E fd len s st
         | Some MSG_BROWSER_CONFIRM \<Rightarrow> handle_browser_confirm E fd len s st
         | Some MSG_BROWSER_DISMISS \<Rightarrow> handle_browser_dismiss E fd len s st
         | Some MSG_BROWSER_SUBSCRIBE_PROGRESS \<Rightarrow> handle_browser_subscribe_progress E fd len s st
         | Some MSG_RELOAD_CONFIG \<Rightarrow> handle_reload_config E fd len s st
         | Some MSG_PAUSE \<Rightarrow> handle_pause E fd len s st
         | Some MSG_RESUME \<Rightarrow> handle_resume E fd len s st
         | Some MSG_CANCEL \<Rightarrow> handle_cancel E fd len s st
         | Some MSG_LIST \<Rightarrow> handle_list E fd len s st
         | Some MSG_LIST_ALL \<Rightarrow> handle_list_all E fd len s st
         | Some MSG_GET_DETAILS \<Rightarrow> handle_get_details E fd len s st
         | Some MSG_SUBSCRIBE \<Rightarrow> handle_subscribe E fd len s st
         | _ \<Rightarrow> ([], s, st))"

section \<open>The poll loop\<close>

lemma length_upd_client [simp]: "length (ip_clients (upd_client fd f st)) = length (ip_clients st)"
  by (simp add: upd_client_def)

lemma reserve_loop_clients [simp]:
  "ip_clients (snd (reserve_loop E k url dest opts st)) = ip_clients st"
  by (induction E k url dest opts st rule: reserve_loop.induct)
     (auto simp: Let_def split: option.splits prod.splits)

lemma reserve_download_clients [simp]:
  "ip_clients (snd (reserve_download E url dest opts st)) = ip_clients st"
  by (simp add: reserve_download_def)

lemma touch_offer_clients [simp]: "ip_clients (touch_offer i now f st) = ip_clients st"
  by (simp add: touch_offer_def)

lemma discard_download_clients [simp]: "ip_clients (discard_download E i path st) = ip_clients st"
  by (simp add: discard_download_def Let_def)

lemma register_offer_clients [simp]: "ip_clients (snd (register_offer E p st)) = ip_clients st"
  by (simp add: register_offer_def Let_def)

lemma confirm_offer_clients [simp]: "ip_clients (snd (confirm_offer E i dest st)) = ip_clients st"
proof -
  have "ip_clients st' = ip_clients st" if "reserve_download E url dest opts st = (j, st')" for url opts j st'
    using reserve_download_clients [of E url dest opts st] that by simp
  then show ?thesis
    by (auto simp: confirm_offer_def Let_def split: option.splits offer_state.splits prod.splits)
qed

lemmas handler_defs =
  handle_browser_offer_def handle_browser_get_offer_def
  handle_browser_dismiss_def handle_browser_subscribe_progress_def handle_reload_config_def
  handle_pause_def handle_resume_def handle_cancel_def handle_list_def handle_list_all_def
  handle_get_details_def handle_subscribe_def

text \<open>No handler adds or removes a client, so the poll loop ends.\<close>

lemma handle_add_download_clients: "ip_clients (snd (snd (handle_add_download E fd len s st))) = ip_clients st"
proof -
  have "ip_clients st' = ip_clients st" if "reserve_download E url dest opts st = (j, st')" for url dest opts j st'
    using reserve_download_clients [of E url dest opts st] that by simp
  then show ?thesis by (auto simp: handle_add_download_def split: prod.splits)
qed

lemma handle_browser_confirm_clients: "ip_clients (snd (snd (handle_browser_confirm E fd len s st))) = ip_clients st"
proof -
  have "ip_clients st' = ip_clients st" if "confirm_offer E i dest st = (j, st')" for i dest j st'
    using confirm_offer_clients [of E i dest st] that by simp
  then show ?thesis by (auto simp: handle_browser_confirm_def Let_def split: prod.splits option.splits)
qed

lemma handle_browser_offer_clients: "ip_clients (snd (snd (handle_browser_offer E fd len s st))) = ip_clients st"
proof -
  have "ip_clients st' = ip_clients st" if "register_offer E p st = (j, st')" for p j st'
    using register_offer_clients [of E p st] that by simp
  then show ?thesis by (auto simp: handle_browser_offer_def split: prod.splits option.splits)
qed

lemma handle_message_clients:
  "length (ip_clients (snd (snd (handle_message E fd hdr s st)))) = length (ip_clients st)"
proof (cases "mh_type hdr")
  case None
  then show ?thesis by (simp add: handle_message_def)
next
  case (Some t)
  show ?thesis
    unfolding handle_message_def Some Let_def
    by (cases t)
       (simp_all add: handle_add_download_clients handle_browser_confirm_clients handle_browser_offer_clients,
        auto simp: handler_defs Let_def split: option.splits prod.splits offer_state.splits)
qed

datatype recv_result = NotReady | RecvBytes nat | RecvClosed | RecvAgain | RecvError

text \<open>
  What one round meets: whether \<open>select\<close> reports anything, the descriptor \<open>accept\<close> yields (if
  the listening socket is ready and it succeeds), and the result of \<open>recv\<close> on each client.
\<close>

record poll_env =
  pe_ready :: bool
  pe_accept :: "int option"
  pe_recv :: "int \<Rightarrow> recv_result"
  pe_ipc :: ipc_env

text \<open>Client \<open>i\<close>: whether it is to be removed, the replies it gets, and the state.\<close>

definition poll_client :: "poll_env \<Rightarrow> nat \<Rightarrow> ipc \<Rightarrow> bool \<times> wire_item list \<times> ipc" where
  "poll_client P i st =
     (let c = ip_clients st ! i;
          fd = cl_fd c
      in case pe_recv P fd of
           NotReady \<Rightarrow> (False, [], st)
         | RecvClosed \<Rightarrow> (True, [], st)
         | RecvError \<Rightarrow> (True, [], st)
         | RecvAgain \<Rightarrow> (False, [], st)
         | RecvBytes n \<Rightarrow>
             let remaining = 8 - length (cl_header c);
                 b = take (min n remaining) (ip_rx st fd);
                 header = cl_header c @ b;
                 st1 = st\<lparr>ip_rx := (ip_rx st)(fd := drop (length b) (ip_rx st fd))\<rparr>
             in if b = [] then (True, [], st)
                else if length header \<noteq> 8
                then (False, [], st1\<lparr>ip_clients := (ip_clients st)[i := c\<lparr>cl_header := header\<rparr>]\<rparr>)
                else let st2 = st1\<lparr>ip_clients := (ip_clients st)[i := c\<lparr>cl_header := []\<rparr>]\<rparr>;
                         hdr = header_of_bytes header
                     in if \<not> valid_message_header hdr then (True, [], st2)
                        else (case handle_message (pe_ipc P) fd hdr (ip_rx st2 fd) st2 of
                                (reply, rest, st3) \<Rightarrow>
                                  (False, reply, st3\<lparr>ip_rx := (ip_rx st3)(fd := rest)\<rparr>)))"

lemma poll_client_length:
  "poll_client P i st = (gone, reply, st') \<Longrightarrow> length (ip_clients st') = length (ip_clients st)"
  by (auto simp: poll_client_def Let_def split: recv_result.splits if_splits prod.splits
      dest!: arg_cong [where f = "\<lambda>x. length (ip_clients (snd (snd x)))"] simp: handle_message_clients)

function poll_loop :: "poll_env \<Rightarrow> nat \<Rightarrow> ipc \<Rightarrow> (int \<times> wire_item list) list \<times> ipc" where
  "poll_loop P i st =
     (if i \<ge> length (ip_clients st) then ([], st)
      else let fd = cl_fd (ip_clients st ! i)
           in case poll_client P i st of
                (gone, reply, st1) \<Rightarrow>
                  if gone then poll_loop P i (remove_client i st1)
                  else (case poll_loop P (Suc i) st1 of (replies, st2) \<Rightarrow> ((fd, reply) # replies, st2)))"
  by pat_completeness auto
termination
  by (relation "measure (\<lambda>(P, i, st). length (ip_clients st) - i)")
     (auto simp: remove_client_def dest!: poll_client_length [OF sym])

declare poll_loop.simps [simp del]

definition ipc_server_poll :: "poll_env \<Rightarrow> ipc \<Rightarrow> (int \<times> wire_item list) list \<times> ipc" where
  "ipc_server_poll P st =
     (let st1 = browser_expire_offers (ie_now (pe_ipc P)) st
      in if \<not> pe_ready P then ([], st1)
         else poll_loop P 0 (case pe_accept P of None \<Rightarrow> st1 | Some fd \<Rightarrow> add_client fd st1))"

section \<open>Status broadcasts\<close>

text \<open>
  \<open>delivered fd\<close>: the non-blocking \<open>send\<close> took the whole frame. The result lists the
  frames sent; a client that did not take its frame is removed.
\<close>

fun broadcast_loop ::
  "(int \<Rightarrow> bool) \<Rightarrow> u32 \<Rightarrow> wire_item list \<Rightarrow> wire_item list \<Rightarrow> client list \<Rightarrow> (int \<times> wire_item list) list \<times> client list" where
  "broadcast_loop delivered i frame browser_frame [] = ([], [])"
| "broadcast_loop delivered i frame browser_frame (c # cs) =
     (case broadcast_loop delivered i frame browser_frame cs of
        (sent, kept) \<Rightarrow>
          if \<not> cl_subscribed c \<and> cl_browser_download c \<noteq> i then (sent, c # kept)
          else if delivered (cl_fd c)
          then ((cl_fd c, if cl_browser_download c = i then browser_frame else frame) # sent, c # kept)
          else (sent, kept))"

text \<open>\<open>sizeof(IpcBrowserProgress)\<close> with the usual alignment of 64-bit fields.\<close>

definition SIZEOF_BROWSER_PROGRESS :: u32 where
  "SIZEOF_BROWSER_PROGRESS = 8 + 8 + 8 + 4 + 24 + 256 + 1024 + 4"

definition ipc_broadcast_status ::
  "(int \<Rightarrow> bool) \<Rightarrow> u32 \<Rightarrow> string \<Rightarrow> rat \<Rightarrow> ipc \<Rightarrow> (int \<times> wire_item list) list \<times> ipc" where
  "ipc_broadcast_status delivered i text progress st =
     (let payload_len = 4 + 4 + 4 + length text;
          frame = [W32 (of_nat payload_len), W32 (code_of_type MSG_STATUS_EVENT), W32 i, WFloat progress, WString text];
          event = browser_progress_snapshot i
                    (if text = ''Error'' \<or> text = ''Verification failed'' then Some text else None) (ip_q st);
          browser_frame = [W32 SIZEOF_BROWSER_PROGRESS, W32 (code_of_type MSG_BROWSER_PROGRESS_EVENT), WProgress event]
      in if payload_len > IPC_MAX_FRAME_SIZE then ([], st)
         else (case broadcast_loop delivered i frame browser_frame (ip_clients st) of
                 (sent, kept) \<Rightarrow> (sent, st\<lparr>ip_clients := kept\<rparr>)))"

section \<open>Socket and lock\<close>

definition ipc_join_path :: "nat \<Rightarrow> string \<Rightarrow> string \<Rightarrow> string option" where
  "ipc_join_path out_size base suffix =
     (if length base + length suffix + 1 > out_size then None else Some (base @ suffix))"

datatype ipc_base_kind = IPC_BASE_RUNTIME | IPC_BASE_HOME | IPC_BASE_TMP

definition home_base :: "kernel \<Rightarrow> nat \<Rightarrow> ipc_base_kind \<times> string option" where
  "home_base K size_of =
     (case k_getenv K ''HOME'' of
        Some (c # cs) \<Rightarrow>
          if c = CHR ''/'' then (IPC_BASE_HOME, ipc_join_path size_of (c # cs) ''/.local/share'')
          else (IPC_BASE_TMP, if 4 < size_of then Some ''/tmp'' else None)
      | _ \<Rightarrow> (IPC_BASE_TMP, if 4 < size_of then Some ''/tmp'' else None))"

definition get_ipc_base :: "kernel \<Rightarrow> nat \<Rightarrow> ipc_base_kind \<times> string option" where
  "get_ipc_base K size_of =
     (case k_getenv K ''XDG_RUNTIME_DIR'' of
        Some (c # cs) \<Rightarrow>
          if c = CHR ''/''
          then (IPC_BASE_RUNTIME, if length (c # cs) < size_of then Some (c # cs) else None)
          else home_base K size_of
      | _ \<Rightarrow> home_base K size_of)"

text \<open>\<open>cached\<close> is the static buffer, empty until a path has been found.\<close>

definition get_socket_path :: "kernel \<Rightarrow> u32 \<Rightarrow> string \<Rightarrow> nat \<Rightarrow> string \<times> string" where
  "get_socket_path K uid cached out_size =
     (if cached \<noteq> [] then (strncpy_buf out_size cached, cached)
      else case get_ipc_base K 1024 of
             (kind, None) \<Rightarrow> ([], cached)
           | (kind, Some base) \<Rightarrow>
               let p = (case kind of
                          IPC_BASE_RUNTIME \<Rightarrow> (case ipc_join_path 1024 base ''/cdm.sock'' of None \<Rightarrow> [] | Some x \<Rightarrow> x)
                        | IPC_BASE_HOME \<Rightarrow> (case ipc_join_path 1024 base ''/cdm/ipc.sock'' of None \<Rightarrow> [] | Some x \<Rightarrow> x)
                        | IPC_BASE_TMP \<Rightarrow> strncpy_buf 1024 (base @ ''/cdm_'' @ dec (unat uid) @ ''.sock''))
               in (strncpy_buf out_size p, p))"

text \<open>
  The daemon lock: whether the file can be opened, is a regular file of this user, what \<open>flock\<close>
  says (\<open>None\<close>: locked), and whether \<open>fchmod\<close> succeeds.
\<close>

record lock_env =
  le_open :: bool
  le_safe :: bool
  le_flock :: "errno option"
  le_fchmod :: bool

definition ipc_daemon_lock_acquire :: "kernel \<Rightarrow> lock_env \<Rightarrow> fs \<Rightarrow> int \<times> fs" where
  "ipc_daemon_lock_acquire K L fs =
     (case get_ipc_base K 1024 of
        (kind, None) \<Rightarrow> (-1, fs)
      | (kind, Some base) \<Rightarrow>
          let (r, fs1) = (if kind = IPC_BASE_HOME then file_ensure_directory K base fs else (0, fs));
              path_ok = (kind = IPC_BASE_TMP \<or> ipc_join_path 1024 base ''/cdm.lock'' \<noteq> None)
          in if r \<noteq> 0 then (-1, fs1)
             else if \<not> path_ok then (-1, fs1)
             else if \<not> le_open L then (-1, fs1)
             else if \<not> le_safe L then (-1, fs1)
             else case le_flock L of
                    Some e \<Rightarrow> (if e = EAGAIN then 1 else -1, fs1)
                  | None \<Rightarrow> (if le_fchmod L then 0 else -1, fs1))"

text \<open>Starting and stopping: \<open>se_running\<close> is the answer of \<open>ipc_server_is_running\<close>.\<close>

record start_env =
  se_running :: bool
  se_socket :: bool
  se_bind :: bool
  se_fchmod :: bool
  se_listen :: bool

definition ipc_server_start :: "kernel \<Rightarrow> start_env \<Rightarrow> string \<Rightarrow> ipc \<Rightarrow> int \<times> ipc" where
  "ipc_server_start K S socket_path st =
     (if se_running S then (-1, st)
      else let st1 = st\<lparr>ip_fs := sys_unlink K socket_path (ip_fs st)\<rparr>;
               bound = (ip_fs st1)(strncpy_buf 108 socket_path \<mapsto> Nonregular);
               failed = st1\<lparr>ip_fs := sys_unlink K socket_path bound, ip_listening := False\<rparr>
           in if \<not> se_socket S then (-1, st1\<lparr>ip_listening := False\<rparr>)
              else if \<not> se_bind S then (-1, st1\<lparr>ip_listening := False\<rparr>)
              else if \<not> se_fchmod S then (-1, failed)
              else if \<not> se_listen S then (-1, failed)
              else (0, st1\<lparr>ip_fs := bound, ip_listening := True, ip_clients := [],
                          ip_offers := replicate MAX_BROWSER_OFFERS zero_slot\<rparr>))"

definition ipc_server_stop :: "kernel \<Rightarrow> string \<Rightarrow> ipc \<Rightarrow> ipc" where
  "ipc_server_stop K socket_path st =
     st\<lparr>ip_listening := False, ip_fs := sys_unlink K socket_path (ip_fs st),
        ip_offers := replicate MAX_BROWSER_OFFERS zero_slot\<rparr>"

end
