(* ===== verification/Ipc_Safety.thy ===== *)
theory Ipc_Safety
  imports Ipc_Server
begin

text \<open>
  What the IPC server guarantees: a reservation claims a file, an entry of the queue and a row of the
  store, or leaves no trace; queue and store stay in step over every message; the client table and
  the offer table keep their invariant over every round of the poll loop; an offer is confirmed at
  most once; and what a frame with an oversized field does.
\<close>

section \<open>Reservations\<close>

lemma add_then_remove:
  assumes "queue_manager_add K url u opts s = (i, s1)" and "i \<noteq> 0"
  shows "queue_manager_remove K i s1 fs = (s\<lparr>g_next_id := g_next_id s1\<rparr>, sys_unlink K u fs)"
    and "queue_manager_remove K i (qm_update i (\<lambda>d. d\<lparr>dl_reserved_file := True\<rparr>) s1) fs =
      (s\<lparr>g_next_id := g_next_id s1\<rparr>, sys_unlink K u fs)"
proof -
  have safe: "u \<noteq> []" "strncpy_buf 1024 u = u"
    using assms by (auto simp: queue_manager_add_def is_safe_dest_path_def split: if_splits)
  have s1: "\<exists>d. s1 = s\<lparr>g_next_id := g_next_id s1, g_head := d # g_head s\<rparr> \<and> dl_id d = i \<and>
      dl_status d = DOWNLOAD_QUEUED \<and> dl_dest_path d = u"
    using assms safe(2) by (auto simp: queue_manager_add_def Let_def split: if_splits)
  then obtain d where d: "g_head s1 = d # g_head s" "dl_id d = i" "dl_status d = DOWNLOAD_QUEUED" "dl_dest_path d = u"
    and eq: "s1\<lparr>g_head := g_head s\<rparr> = s\<lparr>g_next_id := g_next_id s1\<rparr>"
    by (metis qm_state.select_convs(1) qm_state.surjective qm_state.update_convs(1,2))
  show "queue_manager_remove K i s1 fs = (s\<lparr>g_next_id := g_next_id s1\<rparr>, sys_unlink K u fs)"
    using d safe(1) eq by (simp add: queue_manager_remove_def)
  show "queue_manager_remove K i (qm_update i (\<lambda>d. d\<lparr>dl_reserved_file := True\<rparr>) s1) fs =
      (s\<lparr>g_next_id := g_next_id s1\<rparr>, sys_unlink K u fs)"
    using d safe(1) eq by (simp add: queue_manager_remove_def qm_update_def)
qed

text \<open>The possible courses of one attempt.\<close>

lemma reserve_cases:
  assumes "reserve_loop E (Suc k) url dest opts st = (i, st')"
  obtains (full) "i = 0" "st' = st"
    | (refused) u q1 where "path_make_unique (ie_kernel E) (ip_fs st) dest IPC_MAX_PATH_LEN = Some u"
        "queue_manager_add (ie_kernel E) url u (Some opts) (ip_q st) = (0, q1)" "i = 0" "st' = st\<lparr>ip_q := q1\<rparr>"
    | (stored) u q1 fs1 db1 where
        "path_make_unique (ie_kernel E) (ip_fs st) dest IPC_MAX_PATH_LEN = Some u"
        "queue_manager_add (ie_kernel E) url u (Some opts) (ip_q st) = (i, q1)" "i \<noteq> 0"
        "file_preallocate (ie_kernel E) u 0 (ie_race E k (ip_fs st)) = (0, fs1)"
        "db_insert_reserved_download (ie_sql E) i url u (Some opts) (ie_now E) (ip_db st) = (0, db1)"
        "st' = st\<lparr>ip_q := qm_update i (\<lambda>d. d\<lparr>dl_reserved_file := True\<rparr>) q1, ip_db := db1, ip_fs := fs1\<rparr>"
    | (undone) u j q1 claim fs1 db1 where
        "path_make_unique (ie_kernel E) (ip_fs st) dest IPC_MAX_PATH_LEN = Some u"
        "queue_manager_add (ie_kernel E) url u (Some opts) (ip_q st) = (j, q1)" "j \<noteq> 0"
        "file_preallocate (ie_kernel E) u 0 (ie_race E k (ip_fs st)) = (claim, fs1)"
        "claim = 0 \<and> (\<exists>rc. rc \<noteq> 0 \<and> db_insert_reserved_download (ie_sql E) j url u (Some opts) (ie_now E) (ip_db st) = (rc, db1))
          \<or> claim \<notin> {0, -2} \<and> db1 = ip_db st"
        "i = 0" "ip_q st' = (ip_q st)\<lparr>g_next_id := g_next_id q1\<rparr>" "ip_db st' = db1"
        "ip_fs st' (u) = sys_unlink (ie_kernel E) u fs1 u" "\<And>q. q \<noteq> u \<Longrightarrow> ip_fs st' q = fs1 q"
    | (again) u j q1 fs1 where
        "path_make_unique (ie_kernel E) (ip_fs st) dest IPC_MAX_PATH_LEN = Some u"
        "queue_manager_add (ie_kernel E) url u (Some opts) (ip_q st) = (j, q1)" "j \<noteq> 0"
        "file_preallocate (ie_kernel E) u 0 (ie_race E k (ip_fs st)) = (-2, fs1)"
        "reserve_loop E k url dest opts
           (st\<lparr>ip_q := (ip_q st)\<lparr>g_next_id := g_next_id q1\<rparr>, ip_fs := sys_unlink (ie_kernel E) u fs1\<rparr>) = (i, st')"
proof (cases "path_make_unique (ie_kernel E) (ip_fs st) dest IPC_MAX_PATH_LEN")
  case None
  then show thesis using assms full by simp
next
  case (Some u)
  obtain j q1 where a: "queue_manager_add (ie_kernel E) url u (Some opts) (ip_q st) = (j, q1)" by fastforce
  obtain claim fs1 where c: "file_preallocate (ie_kernel E) u 0 (ie_race E k (ip_fs st)) = (claim, fs1)" by fastforce
  obtain rc db1 where d: "db_insert_reserved_download (ie_sql E) j url u (Some opts) (ie_now E) (ip_db st) = (rc, db1)"
    by fastforce
  show thesis
  proof (cases "j = 0")
    case True
    then show thesis using assms Some a refused by simp
  next
    case False
    note rem = add_then_remove [OF a False]
    consider "claim = 0" "rc = 0" | "claim = 0" "rc \<noteq> 0" | "claim = -2" | "claim \<noteq> 0" "claim \<noteq> -2" by blast
    then show thesis
    proof cases
      case 1
      then show thesis using assms Some a c d False by (intro stored) auto
    next
      case 2
      then have "st' = st\<lparr>ip_q := (ip_q st)\<lparr>g_next_id := g_next_id q1\<rparr>, ip_db := db1,
          ip_fs := sys_unlink (ie_kernel E) u (sys_unlink (ie_kernel E) u fs1)\<rparr>" "i = 0"
        using assms Some a c d False rem by simp_all
      then show thesis using Some a c d 2 False by (intro undone [of u j q1 claim fs1 db1]) (auto simp: sys_unlink_def)
    next
      case 3
      then show thesis using assms Some a c False rem by (intro again) simp_all
    next
      case 4
      then have "st' = st\<lparr>ip_q := (ip_q st)\<lparr>g_next_id := g_next_id q1\<rparr>, ip_fs := sys_unlink (ie_kernel E) u fs1\<rparr>" "i = 0"
        using assms Some a c False rem by simp_all
      then show thesis using Some a c 4 False by (intro undone [of u j q1 claim fs1 "ip_db st"]) auto
    qed
  qed
qed

lemma reserve_loop_claims:
  assumes "reserve_loop E k url dest opts st = (i, st')" and "i \<noteq> 0"
  shows "\<exists>u d. (u = dest \<or> (\<exists>m\<ge>1. u = numbered dest m)) \<and> is_safe_dest_path (ie_kernel E) u \<and>
    queue_manager_find_by_id i (ip_q st') = Some d \<and> dl_dest_path d = u \<and> dl_url d = strncpy_buf 2048 url \<and>
    dl_status d = DOWNLOAD_QUEUED \<and> dl_reserved_file d \<and> ip_fs st' u = Some (Regular []) \<and>
    db_ready (ip_db st) \<and> ip_db st' = replace_row (new_row i url u (Some opts) True (ie_now E)) (ip_db st)"
  using assms(1)
proof (induction k arbitrary: st)
  case 0
  then show ?case using assms(2) by simp
next
  case (Suc k)
  from Suc.prems show ?case
  proof (cases rule: reserve_cases)
    case (stored u q1 fs1 db1)
    from add_result [OF stored(2)] stored(3) obtain d where
      d: "g_head q1 = d # g_head (ip_q st)" "dl_id d = i" "dl_status d = DOWNLOAD_QUEUED"
        "dl_url d = strncpy_buf 2048 url" "dl_dest_path d = u" "is_safe_dest_path (ie_kernel E) u" by auto
    have "queue_manager_find_by_id i (ip_q st') = Some (d\<lparr>dl_reserved_file := True\<rparr>)"
      using d by (simp add: stored(6) queue_manager_find_by_id_def qm_update_def)
    moreover have "db_ready (ip_db st) \<and> db1 = replace_row (new_row i url u (Some opts) True (ie_now E)) (ip_db st)"
      using exec_write_ok stored(5) unfolding db_insert_reserved_download_def insert_download_def by blast
    ultimately show ?thesis
      using d stored(6) path_make_unique_fresh(3) [OF stored(1)] file_preallocate_ok(1) [OF stored(4)]
      by (intro exI [of _ u] exI [of _ "d\<lparr>dl_reserved_file := True\<rparr>"]) simp
  next
    case (again u j q1 fs1)
    from Suc.IH [OF again(5)] show ?thesis by simp
  qed (use assms(2) in simp_all)
qed

text \<open>Without interference from outside, no existing file is lost.\<close>

lemma reserve_loop_keeps_files:
  assumes "reserve_loop E k url dest opts st = (i, st')" and "\<forall>k fs. ie_race E k fs = fs"
    and "\<forall>p. k_fault (ie_kernel E) SysLstat p = None" and "ip_fs st q = Some x"
  shows "ip_fs st' q = Some x"
  using assms(1,4)
proof (induction k arbitrary: st)
  case 0
  then show ?case by simp
next
  case (Suc k)
  have other: "q \<noteq> u" if "path_make_unique (ie_kernel E) (ip_fs st) dest IPC_MAX_PATH_LEN = Some u" for u
    using path_make_unique_fresh(1) [OF that] assms(3) Suc.prems(2) by (auto simp: path_exists_def)
  from Suc.prems(1) show ?case
  proof (cases rule: reserve_cases)
    case (stored u q1 fs1 db1)
    with file_preallocate_preserves [OF stored(4)] Suc.prems(2) assms(2) show ?thesis by simp
  next
    case (undone u j q1 claim fs1 db1)
    with file_preallocate_preserves [OF undone(4)] Suc.prems(2) assms(2) other show ?thesis by simp
  next
    case (again u j q1 fs1)
    have "fs1 q = Some x" using file_preallocate_preserves [OF again(4)] Suc.prems(2) assms(2) by simp
    then show ?thesis using other [OF again(1)] by (intro Suc.IH [OF again(5)]) simp
  qed (use Suc.prems(2) in simp_all)
qed

text \<open>A reservation keeps the store in step with the queue, whatever fails.\<close>

lemma get_status_next_id [simp]: "queue_manager_get_status j (q\<lparr>g_next_id := n\<rparr>) = queue_manager_get_status j q"
  by (simp add: queue_manager_get_status_def)

lemma exec_write_fails: "exec_write Q st f db = (rc, db') \<Longrightarrow> rc \<noteq> 0 \<Longrightarrow> db' = db"
  by (auto simp: exec_write_def split: if_splits)

lemma reserve_loop_in_store:
  assumes "reserve_loop E k url dest opts st = (i, st')" and "db_inv (ip_db st)"
    and "\<forall>j. j \<noteq> 0 \<longrightarrow> in_store (ip_q st) (ip_db st) j" and "j \<noteq> 0"
  shows "in_store (ip_q st') (ip_db st') j"
  using assms(1-3)
proof (induction k arbitrary: st)
  case 0
  then show ?case using assms(4) by simp
next
  case (Suc k)
  from Suc.prems(1) show ?case
  proof (cases rule: reserve_cases)
    case (refused u q1)
    have "queue_manager_get_status j q1 = queue_manager_get_status j (ip_q st)"
      using add_result [OF refused(2)] assms(4) by (auto simp: queue_manager_get_status_def)
    then show ?thesis using refused Suc.prems(3) assms(4) by (simp add: in_store_def)
  next
    case (stored u q1 fs1 db1)
    from add_result [OF stored(2)] stored(3) obtain d where
      d: "g_head q1 = d # g_head (ip_q st)" "dl_id d = i" "dl_status d = DOWNLOAD_QUEUED" by auto
    let ?r = "new_row i url u (Some opts) True (ie_now E)"
    have db1: "db1 = replace_row ?r (ip_db st)"
      using exec_write_ok stored(5) unfolding db_insert_reserved_download_def insert_download_def by blast
    have r: "row_id ?r = sint i" "row_status ?r = ''QUEUED''" by (simp_all add: new_row_def)
    have range: "- (2 ^ 31) \<le> row_id ?r" "row_id ?r < 2 ^ 31"
      using sint_ge [of i] sint_lt [of i] unfolding r by simp_all
    have row: "map_option row_status (find_row (ip_db st') (sint j)) =
        (if j = i then Some ''QUEUED'' else map_option row_status (find_row (ip_db st) (sint j)))"
      using find_row_replace [OF Suc.prems(2) range] by (simp add: r stored(6) db1)
    have q: "queue_manager_get_status j (ip_q st') =
        (if j = i then Some DOWNLOAD_QUEUED else queue_manager_get_status j (ip_q st))"
      using d by (simp add: stored(6) queue_manager_get_status_def qm_update_def)
    show ?thesis
      using Suc.prems(3) assms(4) unfolding in_store_def q row
      by (simp add: status_agrees_def status_of_text_def crash_image_def)
  next
    case (undone u j' q1 claim fs1 db1)
    have "db1 = ip_db st"
      using undone(5) exec_write_fails unfolding db_insert_reserved_download_def insert_download_def by blast
    then show ?thesis using Suc.prems(3) assms(4) undone(7,8) by (simp add: in_store_def)
  next
    case (again u j' q1 fs1)
    from Suc.IH [OF again(5)] Suc.prems(2,3) show ?thesis by (simp add: in_store_def)
  qed (use Suc.prems(3) assms(4) in simp_all)
qed

section \<open>Control messages\<close>

lemma in_store_set_status:
  assumes "\<forall>j. j \<noteq> 0 \<longrightarrow> in_store q db j" and "db_ready db" and "Q StUpdateStatus = Runs" and "j \<noteq> 0"
    and "queue_manager_get_status i q \<noteq> None" and "s \<noteq> DOWNLOAD_DONE" and "t \<noteq> ''DONE''"
    and "status_of_text t = crash_image s"
    and "\<And>j. queue_manager_get_status j q' = (if j = i then Some s else queue_manager_get_status j q)"
    and "\<And>k. map_option row_status (find_row db1 k) = map_option row_status (find_row db k)"
    and "db_ready db1"
  shows "in_store q' (snd (db_update_status Q i t db1)) j"
proof (cases "j = i")
  case True
  have "in_store q db i" using assms(1,4) True by blast
  with assms(5) obtain x where "map_option row_status (find_row db (sint i)) = Some x"
    by (auto simp: in_store_def status_agrees_def split: option.splits)
  with assms(10) obtain r where "find_row db1 (sint i) = Some r" by (metis map_option_eq_Some)
  then have "map_option row_status (find_row (snd (db_update_status Q i t db1)) (sint j)) = Some t"
    using True row_status_update [of db1 Q i t j] assms(3,11) by simp
  then show ?thesis using True assms(6-9) by (auto simp: in_store_def status_agrees_def)
next
  case False
  then have "map_option row_status (find_row (snd (db_update_status Q i t db1)) (sint j)) =
      map_option row_status (find_row db (sint j))"
    using row_status_update [of db1 Q i t j] assms(3,10,11) by simp
  then show ?thesis using False assms(1,4,9) by (simp add: in_store_def)
qed

lemma reserve_download_in_store:
  assumes "reserve_download E url dest opts st = (i, st')" and "db_inv (ip_db st)"
    and "\<forall>j. j \<noteq> 0 \<longrightarrow> in_store (ip_q st) (ip_db st) j" and "j \<noteq> 0"
  shows "in_store (ip_q st') (ip_db st') j"
  using assms unfolding reserve_download_def by (rule reserve_loop_in_store)

lemma touch_offer_frame [simp]:
  "ip_q (touch_offer i now f st) = ip_q st" "ip_db (touch_offer i now f st) = ip_db st"
  "ip_fs (touch_offer i now f st) = ip_fs st"
  by (simp_all add: touch_offer_def)

lemma upd_client_frame [simp]:
  "ip_q (upd_client fd f st) = ip_q st" "ip_db (upd_client fd f st) = ip_db st"
  "ip_offers (upd_client fd f st) = ip_offers st"
  by (simp_all add: upd_client_def)

lemma register_offer_frame:
  assumes "register_offer E p st = (r, st')"
  shows "ip_q st' = ip_q st" and "ip_db st' = ip_db st"
  using assms by (auto simp: register_offer_def Let_def split: if_splits)

lemma confirm_offer_in_store:
  assumes "confirm_offer E oid dest st = (i, st')" and "db_inv (ip_db st)"
    and "\<forall>j. j \<noteq> 0 \<longrightarrow> in_store (ip_q st) (ip_db st) j" and "j \<noteq> 0"
  shows "in_store (ip_q st') (ip_db st') j"
  using assms(1,3,4) reserve_download_in_store [where st = st, OF _ assms(2-4)]
  by (auto simp: confirm_offer_def Let_def split: option.splits offer_state.splits prod.splits if_splits)

lemma in_store_same:
  "queue_manager_get_status j q' = queue_manager_get_status j q \<Longrightarrow> in_store q db j \<Longrightarrow> in_store q' db j"
  by (simp add: in_store_def)

lemma pause_in_store:
  assumes "\<forall>j. j \<noteq> 0 \<longrightarrow> in_store (ip_q st) (ip_db st) j" and "db_ready (ip_db st)"
    and "ie_sql E StUpdateStatus = Runs" and "j \<noteq> 0" and "handle_pause E fd len s st = (reply, rest, st')"
  shows "in_store (ip_q st') (ip_db st') j"
proof (cases "\<exists>i s1. get_u32 s = Some (i, s1) \<and> queue_manager_get_status i (ip_q st) \<in> {Some DOWNLOAD_QUEUED, Some DOWNLOAD_ACTIVE}")
  case True
  then obtain i s1 where i: "get_u32 s = Some (i, s1)"
    "queue_manager_get_status i (ip_q st) \<in> {Some DOWNLOAD_QUEUED, Some DOWNLOAD_ACTIVE}" by blast
  obtain b q1 where p: "queue_manager_pause i (ip_q st) = (b, q1)" by fastforce
  have st': "st' = st\<lparr>ip_q := q1,
      ip_db := (if b then ip_db st else snd (db_update_status (ie_sql E) i ''PAUSED'' (ip_db st)))\<rparr>"
    using assms(5) i by (auto simp: handle_pause_def p)
  show ?thesis
  proof (cases b)
    case True
    then have "queue_manager_get_status i (ip_q st) = Some DOWNLOAD_ACTIVE" using pause_result [of i "ip_q st"] p by simp
    then have "queue_manager_get_status j q1 = queue_manager_get_status j (ip_q st)"
      using pause_status [of j i "ip_q st"] p by simp
    then show ?thesis using assms(1,4) True by (simp add: st' in_store_same [where q = "ip_q st"])
  next
    case False
    then have q: "queue_manager_get_status i (ip_q st) = Some DOWNLOAD_QUEUED" using pause_result [of i "ip_q st"] p i(2) by simp
    have "in_store q1 (snd (db_update_status (ie_sql E) i ''PAUSED'' (ip_db st))) j"
      using assms(1-4) q pause_status [of _ i "ip_q st"] p
      by (intro in_store_set_status [where q = "ip_q st" and db = "ip_db st" and s = DOWNLOAD_PAUSED])
         (simp_all add: status_of_text_def crash_image_def)
    then show ?thesis using False by (simp add: st')
  qed
next
  case False
  then have "st' = st" using assms(5) by (auto simp: handle_pause_def split: option.splits if_splits)
  then show ?thesis using assms(1,4) by simp
qed

lemma resume_in_store:
  assumes "\<forall>j. j \<noteq> 0 \<longrightarrow> in_store (ip_q st) (ip_db st) j" and "db_ready (ip_db st)"
    and "ie_sql E StUpdateStatus = Runs" and "j \<noteq> 0" and "handle_resume E fd len s st = (reply, rest, st')"
  shows "in_store (ip_q st') (ip_db st') j"
proof (cases "\<exists>i s1 s0. get_u32 s = Some (i, s1) \<and> queue_manager_get_status i (ip_q st) = Some s0")
  case True
  then obtain i s1 s0 where i: "get_u32 s = Some (i, s1)" "queue_manager_get_status i (ip_q st) = Some s0" by blast
  obtain b q1 where p: "queue_manager_resume i (ip_q st) = (b, q1)" by fastforce
  have st': "st' = (if b then st\<lparr>ip_q := q1, ip_db := snd (db_update_status (ie_sql E) i ''QUEUED'' (ip_db st))\<rparr>
      else st\<lparr>ip_q := q1\<rparr>)"
    using assms(5) i by (auto simp: handle_resume_def p split: if_splits)
  show ?thesis
  proof (cases b)
    case True
    then have q: "queue_manager_get_status i (ip_q st) \<in> {Some DOWNLOAD_PAUSED, Some DOWNLOAD_ERROR}"
      using resume_result [of i "ip_q st"] p by simp
    have "in_store q1 (snd (db_update_status (ie_sql E) i ''QUEUED'' (ip_db st))) j"
      using assms(1-4) q resume_status [of _ i "ip_q st"] p
      by (intro in_store_set_status [where q = "ip_q st" and db = "ip_db st" and s = DOWNLOAD_QUEUED])
         (auto simp: status_of_text_def crash_image_def)
    then show ?thesis using True by (simp add: st')
  next
    case False
    then have "queue_manager_get_status j q1 = queue_manager_get_status j (ip_q st)"
      using resume_status [of j i "ip_q st"] resume_result [of i "ip_q st"] p by auto
    then show ?thesis using assms(1,4) False by (simp add: st' in_store_same [where q = "ip_q st"])
  qed
next
  case False
  then have "st' = st" using assms(5) by (auto simp: handle_resume_def split: option.splits if_splits)
  then show ?thesis using assms(1,4) by simp
qed

lemma get_status_clear_resume [simp]:
  "queue_manager_get_status j (queue_manager_clear_resume_state i q) = queue_manager_get_status j q"
  unfolding get_status_find queue_manager_clear_resume_state_def
  by (rule qs.lookup_update_field) (simp_all add: clear_resume_def)

lemma cancel_in_store:
  assumes "\<forall>j. j \<noteq> 0 \<longrightarrow> in_store (ip_q st) (ip_db st) j" and "db_ready (ip_db st)"
    and "ie_sql E StUpdateStatus = Runs" and "j \<noteq> 0" and "handle_cancel E fd len s st = (reply, rest, st')"
  shows "in_store (ip_q st') (ip_db st') j"
proof (cases "\<exists>i s1 s0. get_u32 s = Some (i, s1) \<and> queue_manager_get_status i (ip_q st) = Some s0 \<and> s0 \<noteq> DOWNLOAD_DONE")
  case True
  then obtain i s1 s0 where i: "get_u32 s = Some (i, s1)" "queue_manager_get_status i (ip_q st) = Some s0"
    "s0 \<noteq> DOWNLOAD_DONE" by blast
  obtain b q1 where p: "queue_manager_cancel i (ip_q st) = (b, q1)" by fastforce
  from assms(5) i obtain path where st': "st' = (if b then st\<lparr>ip_q := q1\<rparr> else discard_download E i path (st\<lparr>ip_q := q1\<rparr>))"
    by (auto simp: handle_cancel_def p Let_def split: if_splits)
  show ?thesis
  proof (cases b)
    case True
    then have "queue_manager_get_status j q1 = queue_manager_get_status j (ip_q st)"
      using cancel_status [of j i "ip_q st"] cancel_result [of i "ip_q st"] p by auto
    then show ?thesis using assms(1,4) True by (simp add: st' in_store_same [where q = "ip_q st"])
  next
    case False
    then have q: "queue_manager_get_status i (ip_q st) \<notin> {None, Some DOWNLOAD_ACTIVE}"
      using cancel_result [of i "ip_q st"] p i(2) by auto
    let ?db = "snd (db_update_total_size (ie_sql E) i 0 (snd (db_delete_chunks (ie_sql E) i (ip_db st))))"
    have "in_store (queue_manager_clear_resume_state i q1) (snd (db_update_status (ie_sql E) i ''CANCELED'' ?db)) j"
      using assms(1-4) q cancel_status [of _ i "ip_q st"] p
      by (intro in_store_set_status [where q = "ip_q st" and db = "ip_db st" and s = DOWNLOAD_CANCELED])
         (auto simp: status_of_text_def crash_image_def row_status_other_writes)
    then show ?thesis using False by (simp add: st' discard_download_def Let_def)
  qed
next
  case False
  then have "st' = st" using assms(5) by (auto simp: handle_cancel_def split: option.splits if_splits)
  then show ?thesis using assms(1,4) by simp
qed

text \<open>Every message keeps the store in step.\<close>

lemma message_in_store:
  assumes "\<forall>j. j \<noteq> 0 \<longrightarrow> in_store (ip_q st) (ip_db st) j" and "db_inv (ip_db st)" and "db_ready (ip_db st)"
    and "ie_sql E StUpdateStatus = Runs" and "j \<noteq> 0" and "handle_message E fd hdr s st = (reply, rest, st')"
  shows "in_store (ip_q st') (ip_db st') j"
proof (cases "mh_type hdr")
  case None
  then show ?thesis using assms(1,5,6) by (simp add: handle_message_def)
next
  case (Some t)
  let ?len = "unat (mh_length hdr)"
  have add: ?thesis if "handle_add_download E fd ?len s st = (reply, rest, st')"
    using that assms(1,5) reserve_download_in_store [where st = st, OF _ assms(2,1,5)]
    by (auto simp: handle_add_download_def split: prod.splits if_splits)
  have confirm: ?thesis if "handle_browser_confirm E fd ?len s st = (reply, rest, st')"
    using that assms(1,5) confirm_offer_in_store [where st = st, OF _ assms(2,1,5)]
    by (auto simp: handle_browser_confirm_def Let_def split: prod.splits option.splits if_splits)
  have proposal: ?thesis if "handle_browser_offer E fd ?len s st = (reply, rest, st')"
    using that assms(1,5) register_offer_frame
    by (auto simp: handle_browser_offer_def split: prod.splits option.splits if_splits)
  have others: "ip_q st' = ip_q st \<and> ip_db st' = ip_db st"
    if "t \<notin> {MSG_ADD_DOWNLOAD, MSG_BROWSER_CONFIRM, MSG_BROWSER_OFFER, MSG_PAUSE, MSG_RESUME, MSG_CANCEL}"
    using that assms(6) unfolding handle_message_def Some Let_def
    by (cases t) (auto simp: handler_defs Let_def split: option.splits prod.splits offer_state.splits if_splits)
  note ctl = pause_in_store [OF assms(1,3,4,5)] resume_in_store [OF assms(1,3,4,5)] cancel_in_store [OF assms(1,3,4,5)]
  show ?thesis
  proof (cases "t \<in> {MSG_ADD_DOWNLOAD, MSG_BROWSER_CONFIRM, MSG_BROWSER_OFFER, MSG_PAUSE, MSG_RESUME, MSG_CANCEL}")
    case True
    then show ?thesis
      using assms(6) add confirm proposal ctl unfolding handle_message_def Some Let_def by auto
  next
    case False
    then show ?thesis using others assms(1,5) by simp
  qed
qed

section \<open>Offers\<close>

lemma reserve_loop_offers [simp]: "ip_offers (snd (reserve_loop E k url dest opts st)) = ip_offers st"
  by (induction E k url dest opts st rule: reserve_loop.induct)
     (auto simp: Let_def split: option.splits prod.splits)

lemma reserve_download_offers: "reserve_download E url dest opts st = (i, st') \<Longrightarrow> ip_offers st' = ip_offers st"
  using reserve_loop_offers [of E 1000000 url dest opts st] by (simp add: reserve_download_def)

lemma find_touch_offer:
  assumes "i \<noteq> 0" and "find (slot_has_id i) (ip_offers st) = Some slot" and "\<And>x. of_offer_id (f x) = of_offer_id x"
  shows "browser_find_offer i (touch_offer i now f st) = Some \<lparr>os_offer = f (os_offer slot), os_touched_at = now\<rparr>"
  using assms by (simp add: browser_find_offer_def touch_offer_def find_upd_first_same)

section \<open>The invariant of the server\<close>

definition offer_ids :: "ipc \<Rightarrow> u32 list" where
  "offer_ids st = filter (\<lambda>i. i \<noteq> 0) (map (of_offer_id \<circ> os_offer) (ip_offers st))"

definition ipc_inv :: "ipc \<Rightarrow> bool" where
  "ipc_inv st \<longleftrightarrow> length (ip_clients st) \<le> MAX_CLIENTS \<and> (\<forall>c\<in>set (ip_clients st). length (cl_header c) < 8) \<and>
     length (ip_offers st) = MAX_BROWSER_OFFERS \<and> distinct (offer_ids st)"

lemma distinct_zeroed:
  assumes "\<And>x. g (f x) = g x \<or> g (f x) = (0 :: u32)" and "distinct (filter (\<lambda>i. i \<noteq> 0) (map g xs))"
  shows "distinct (filter (\<lambda>i. i \<noteq> 0) (map (g \<circ> f) xs))"
proof -
  have sub: "set (filter (\<lambda>i. i \<noteq> 0) (map (g \<circ> f) ys)) \<subseteq> set (filter (\<lambda>i. i \<noteq> 0) (map g ys))" for ys
  proof (induction ys)
    case (Cons y ys)
    with assms(1) [of y] show ?case by auto
  qed simp
  show ?thesis using assms(2)
  proof (induction xs)
    case (Cons y ys)
    with assms(1) [of y] sub [of ys] show ?case by (auto split: if_splits)
  qed simp
qed

lemma distinct_fill:
  assumes "distinct (filter (\<lambda>i. i \<noteq> 0) (map g xs))" and "g n \<notin> set (map g xs)"
  shows "distinct (filter (\<lambda>i. i \<noteq> (0 :: u32)) (map g (upd_first (\<lambda>x. g x = 0) (\<lambda>_. n) xs)))"
  using assms
proof (induction xs)
  case (Cons x xs)
  have "set (map g (upd_first (\<lambda>x. g x = 0) (\<lambda>_. n) xs)) \<subseteq> insert (g n) (set (map g xs))"
    using set_upd_first_subset [of "\<lambda>x. g x = 0" "\<lambda>_. n" xs] by auto
  with Cons show ?case by auto
qed simp

lemma expire_offer_ids: "distinct (offer_ids st) \<Longrightarrow> distinct (offer_ids (browser_expire_offers now st))"
proof -
  assume *: "distinct (offer_ids st)"
  have "distinct (filter (\<lambda>i. i \<noteq> 0) (map ((of_offer_id \<circ> os_offer) \<circ> expire_slot now (ip_q st)) (ip_offers st)))"
    using * unfolding offer_ids_def
    by (intro distinct_zeroed) (simp_all add: expire_slot_def zero_slot_def zero_offer_def)
  then show ?thesis by (simp add: offer_ids_def browser_expire_offers_def)
qed

lemma pick_offer_id_fresh:
  "pick_offer_id k rs st = i \<Longrightarrow> i \<noteq> 0 \<Longrightarrow> i \<notin> set (map (of_offer_id \<circ> os_offer) (ip_offers st))"
proof (induction k rs st rule: pick_offer_id.induct)
  case (3 k r rs st)
  then show ?case by (auto simp: browser_find_offer_def find_None_iff split: if_splits)
qed simp_all

lemma register_offer_inv [inv_intros]:
  assumes "ipc_inv st" and "register_offer E p st = (r, st')"
  shows "ipc_inv st'"
proof (cases "st' = st")
  case False
  define i where "i = pick_offer_id 16 (ie_random E) st"
  define n where "n = \<lparr>os_offer = p\<lparr>of_offer_id := i\<rparr>, os_touched_at = ie_now E\<rparr>"
  have i: "i \<noteq> 0" and st': "st' = st\<lparr>ip_offers := upd_first (slot_has_id 0) (\<lambda>_. n) (ip_offers st)\<rparr>"
    using assms(2) False by (auto simp: register_offer_def i_def n_def Let_def split: if_splits)
  have "(of_offer_id \<circ> os_offer) n \<notin> set (map (of_offer_id \<circ> os_offer) (ip_offers st))"
    using pick_offer_id_fresh [OF i_def [symmetric] i] by (simp add: n_def)
  moreover have "distinct (filter (\<lambda>i. i \<noteq> 0) (map (of_offer_id \<circ> os_offer) (ip_offers st)))"
    using assms(1) by (simp add: ipc_inv_def offer_ids_def)
  ultimately have "distinct (filter (\<lambda>i. i \<noteq> 0) (map (of_offer_id \<circ> os_offer)
      (upd_first (\<lambda>x. (of_offer_id \<circ> os_offer) x = 0) (\<lambda>_. n) (ip_offers st))))"
    by (intro distinct_fill)
  then have "distinct (offer_ids st')" by (simp add: offer_ids_def st' comp_def)
  with assms(1) show ?thesis by (simp add: ipc_inv_def st')
qed (use assms(1) in simp)

lemma offer_ids_touch [simp]:
  assumes "\<And>x. of_offer_id (f x) = of_offer_id x"
  shows "offer_ids (touch_offer i now f st) = offer_ids st"
  using assms by (simp add: offer_ids_def touch_offer_def map_upd_first)

lemma ipc_inv_touch [inv_intros]:
  "(\<And>x. of_offer_id (f x) = of_offer_id x) \<Longrightarrow> ipc_inv st \<Longrightarrow> ipc_inv (touch_offer i now f st)"
  by (simp add: ipc_inv_def) (simp add: touch_offer_def)

lemma ipc_inv_frame:
  "ip_clients st' = ip_clients st \<Longrightarrow> ip_offers st' = ip_offers st \<Longrightarrow> ipc_inv st' = ipc_inv st"
  by (simp add: ipc_inv_def offer_ids_def)

lemma ipc_inv_upd_client [inv_intros]:
  assumes "\<And>c. cl_header (f c) = cl_header c" and "ipc_inv st"
  shows "ipc_inv (upd_client fd f st)"
proof -
  have "length (cl_header c) < 8" if "c \<in> set (upd_first (\<lambda>c. cl_fd c = fd) f (ip_clients st))" for c
    by (rule upd_first_pred [of "ip_clients st" "\<lambda>c. length (cl_header c) < 8" f c, OF _ _ that])
       (use assms in \<open>auto simp: ipc_inv_def\<close>)
  then show ?thesis using assms(2) by (simp add: ipc_inv_def offer_ids_def upd_client_def)
qed

lemma confirm_offer_inv [inv_intros]:
  assumes "ipc_inv st" and "confirm_offer E i dest st = (j, st')"
  shows "ipc_inv st'"
proof -
  have "ipc_inv st2" if "reserve_download E url dest opts st = (k, st2)" for url opts k st2
    using assms(1) that reserve_download_clients [of E url dest opts st] reserve_download_offers [OF that]
    by (simp add: ipc_inv_frame [of st2 st])
  then show ?thesis
    using assms by (auto simp: confirm_offer_def Let_def intro!: ipc_inv_touch
        split: option.splits offer_state.splits prod.splits if_splits)
qed

lemma add_download_inv [inv_intros]:
  assumes "ipc_inv st" and "handle_add_download E fd len s st = (reply, rest, st')"
  shows "ipc_inv st'"
proof -
  have "ipc_inv st2" if "reserve_download E url dest opts st = (k, st2)" for url dest opts k st2
    using assms(1) that reserve_download_clients [of E url dest opts st] reserve_download_offers [OF that]
    by (simp add: ipc_inv_frame [of st2 st])
  then show ?thesis using assms by (auto simp: handle_add_download_def split: prod.splits if_splits)
qed

lemma ipc_inv_set [simp]:
  "ipc_inv (st\<lparr>ip_q := q\<rparr>) = ipc_inv st" "ipc_inv (st\<lparr>ip_db := db\<rparr>) = ipc_inv st"
  "ipc_inv (st\<lparr>ip_fs := fs\<rparr>) = ipc_inv st" "ipc_inv (st\<lparr>ip_cfg := cfg\<rparr>) = ipc_inv st"
  "ipc_inv (st\<lparr>ip_rx := rx\<rparr>) = ipc_inv st"
  by (simp_all add: ipc_inv_def offer_ids_def)

lemma discard_download_inv [simp]: "ipc_inv (discard_download E i path st) = ipc_inv st"
  by (simp add: discard_download_def Let_def)

lemma browser_confirm_inv:
  "ipc_inv st \<Longrightarrow> handle_browser_confirm E fd len s st = (reply, rest, st') \<Longrightarrow> ipc_inv st'"
  using confirm_offer_inv [of st E]
  by (auto simp: handle_browser_confirm_def Let_def split: option.splits prod.splits if_splits)

lemma browser_offer_inv:
  "ipc_inv st \<Longrightarrow> handle_browser_offer E fd len s st = (reply, rest, st') \<Longrightarrow> ipc_inv st'"
  using register_offer_inv [of st E]
  by (auto simp: handle_browser_offer_def split: option.splits prod.splits if_splits)

lemma handle_message_inv:
  assumes "ipc_inv st" and "handle_message E fd hdr s st = (reply, rest, st')"
  shows "ipc_inv st'"
proof (cases "mh_type hdr")
  case None
  then show ?thesis using assms by (simp add: handle_message_def)
next
  case (Some t)
  show ?thesis
  proof (cases "t \<in> {MSG_ADD_DOWNLOAD, MSG_BROWSER_CONFIRM, MSG_BROWSER_OFFER}")
    case True
    then consider "handle_add_download E fd (unat (mh_length hdr)) s st = (reply, rest, st')"
      | "handle_browser_confirm E fd (unat (mh_length hdr)) s st = (reply, rest, st')"
      | "handle_browser_offer E fd (unat (mh_length hdr)) s st = (reply, rest, st')"
      using assms(2) unfolding handle_message_def Some Let_def by auto
    then show ?thesis
    proof cases
      case 1
      show ?thesis by (rule add_download_inv [OF assms(1) 1])
    next
      case 2
      show ?thesis by (rule browser_confirm_inv [OF assms(1) 2])
    next
      case 3
      show ?thesis by (rule browser_offer_inv [OF assms(1) 3])
    qed
  next
    case False
    have touch: "ipc_inv (touch_offer i now (\<lambda>x. x) st)"
      "ipc_inv (touch_offer i now (\<lambda>x. x\<lparr>of_state := os\<rparr>) st)" for i now os
      using assms(1) by (auto intro: ipc_inv_touch)
    have client: "ipc_inv (upd_client fd (\<lambda>c. c\<lparr>cl_browser_download := i\<rparr>) st)"
      "ipc_inv (upd_client fd (\<lambda>c. c\<lparr>cl_subscribed := True\<rparr>) st)" for i
      using assms(1) by (auto intro: ipc_inv_upd_client)
    from False assms touch client show ?thesis unfolding handle_message_def Some Let_def
      by (cases t) (auto simp: handler_defs Let_def split: option.splits prod.splits offer_state.splits if_splits)
  qed
qed

lemma poll_client_inv:
  assumes "ipc_inv st" and "i < length (ip_clients st)" and "poll_client P i st = (gone, reply, st')"
  shows "ipc_inv st'"
proof -
  let ?c = "ip_clients st ! i"
  have upd: "ipc_inv (st\<lparr>ip_rx := rx, ip_clients := (ip_clients st)[i := ?c\<lparr>cl_header := h\<rparr>]\<rparr>)"
    if "length h < 8" for h rx
  proof -
    have "\<forall>d\<in>set ((ip_clients st)[i := ?c\<lparr>cl_header := h\<rparr>]). length (cl_header d) < 8"
      using assms(1) that set_update_subset_insert [of "ip_clients st" i] by (fastforce simp: ipc_inv_def)
    then show ?thesis using assms(1) by (simp add: ipc_inv_def offer_ids_def)
  qed
  have c: "length (cl_header ?c) < 8" using assms(1,2) by (simp add: ipc_inv_def)
  show ?thesis
  proof (cases "pe_recv P (cl_fd ?c)")
    case (RecvBytes n)
    define b where "b = take (min n (8 - length (cl_header ?c))) (ip_rx st (cl_fd ?c))"
    define rx where "rx = (ip_rx st)(cl_fd ?c := drop (length b) (ip_rx st (cl_fd ?c)))"
    define h where "h = cl_header ?c @ b"
    define st2 where "st2 = st\<lparr>ip_rx := rx, ip_clients := (ip_clients st)[i := ?c\<lparr>cl_header := []\<rparr>]\<rparr>"
    have h: "length h \<le> 8" using c by (simp add: h_def b_def)
    have inv2: "ipc_inv st2" unfolding st2_def by (rule upd) simp
    obtain r x st3 where m: "handle_message (pe_ipc P) (cl_fd ?c) (header_of_bytes h) (ip_rx st2 (cl_fd ?c)) st2 = (r, x, st3)"
      by (metis prod.exhaust)
    have "poll_client P i st =
        (if b = [] then (True, [], st)
         else if length h \<noteq> 8 then (False, [], st\<lparr>ip_rx := rx, ip_clients := (ip_clients st)[i := ?c\<lparr>cl_header := h\<rparr>]\<rparr>)
         else if \<not> valid_message_header (header_of_bytes h) then (True, [], st2)
         else (False, r, st3\<lparr>ip_rx := (ip_rx st3)(cl_fd ?c := x)\<rparr>))"
      unfolding poll_client_def Let_def RecvBytes recv_result.case b_def [symmetric] h_def [symmetric]
        rx_def [symmetric] st2_def [symmetric] m prod.case by (rule refl)
    then show ?thesis
      using assms(1,3) h inv2 handle_message_inv [OF inv2 m] upd [of h rx] by (auto split: if_splits)
  qed (use assms(1,3) in \<open>auto simp: poll_client_def Let_def\<close>)
qed

lemma remove_client_inv [inv_intros]: "ipc_inv st \<Longrightarrow> ipc_inv (remove_client i st)"
  by (auto simp: ipc_inv_def offer_ids_def remove_client_def dest: in_set_takeD in_set_dropD)

lemma poll_loop_inv: "ipc_inv st \<Longrightarrow> ipc_inv (snd (poll_loop P i st))"
proof (induction P i st rule: poll_loop.induct)
  case (1 P i st)
  show ?case
  proof (cases "i < length (ip_clients st)")
    case False
    then show ?thesis using "1.prems" by (subst poll_loop.simps) simp
  next
    case True
    obtain gone reply st1 where p: "poll_client P i st = (gone, reply, st1)" by (metis prod.exhaust)
    have inv1: "ipc_inv st1" using poll_client_inv [OF "1.prems" True p] .
    show ?thesis
    proof (cases gone)
      case g: True
      have "ipc_inv (snd (poll_loop P i (remove_client i st1)))"
        using "1.IH"(1) True p g inv1 remove_client_inv by force
      then show ?thesis using True p g by (subst poll_loop.simps) simp
    next
      case g: False
      have "ipc_inv (snd (poll_loop P (Suc i) st1))" using "1.IH"(2) True p g inv1 by force
      then show ?thesis using True p g by (subst poll_loop.simps) (simp add: case_prod_unfold)
    qed
  qed
qed

lemma add_client_inv [inv_intros]: "ipc_inv st \<Longrightarrow> ipc_inv (add_client fd st)"
  by (auto simp: ipc_inv_def offer_ids_def add_client_def)

lemma expire_inv [inv_intros]: "ipc_inv st \<Longrightarrow> ipc_inv (browser_expire_offers now st)"
  using expire_offer_ids by (simp add: ipc_inv_def browser_expire_offers_def)

lemma broadcast_loop_subset: "snd (broadcast_loop dl i f bf cs) = filter (\<lambda>c. (\<not> cl_subscribed c \<and> cl_browser_download c \<noteq> i) \<or> dl (cl_fd c)) cs"
  by (induction cs) (auto split: prod.splits)

lemma broadcast_inv [inv_intros]: "ipc_inv st \<Longrightarrow> ipc_inv (snd (ipc_broadcast_status dl i text p st))"
proof -
  assume *: "ipc_inv st"
  have "ipc_inv (st\<lparr>ip_clients := snd (broadcast_loop dl i f bf (ip_clients st))\<rparr>)" for f bf
    using * unfolding broadcast_loop_subset
    by (auto simp: ipc_inv_def offer_ids_def intro: order_trans [OF length_filter_le])
  then show ?thesis using * by (simp add: ipc_broadcast_status_def Let_def case_prod_unfold)
qed

section \<open>Properties\<close>

text \<open>
  C17: A reservation that returns an id has claimed everything: the chosen name is the requested one or
  a numbered variant and passed the path check, an empty file is there, the queue has a queued entry
  for it that owns the file, and the store has its row. Without interference by other processes no
  existing file is changed or removed, whether the reservation succeeds or not.
\<close>

theorem reservation_claims_destination:
  assumes "reserve_download E url dest opts st = (i, st')"
  shows "(i \<noteq> 0 \<longrightarrow> (\<exists>u d. (u = dest \<or> (\<exists>m\<ge>1. u = numbered dest m)) \<and> is_safe_dest_path (ie_kernel E) u \<and>
      queue_manager_find_by_id i (ip_q st') = Some d \<and> dl_dest_path d = u \<and> dl_url d = strncpy_buf 2048 url \<and>
      dl_status d = DOWNLOAD_QUEUED \<and> dl_reserved_file d \<and> ip_fs st' u = Some (Regular []) \<and>
      ip_db st' = replace_row (new_row i url u (Some opts) True (ie_now E)) (ip_db st))) \<and>
    ((\<forall>k fs. ie_race E k fs = fs) \<and> (\<forall>p. k_fault (ie_kernel E) SysLstat p = None) \<longrightarrow>
      (\<forall>q x. ip_fs st q = Some x \<longrightarrow> ip_fs st' q = Some x))"
  using reserve_loop_claims [OF assms [unfolded reserve_download_def]]
    reserve_loop_keeps_files [OF assms [unfolded reserve_download_def]] by blast

text \<open>A quiet daemon for the examples.\<close>

definition demo_ipc_env :: ipc_env where
  "demo_ipc_env = \<lparr>ie_kernel = good_kernel, ie_sql = (\<lambda>_. Runs), ie_now = 0, ie_random = [7],
     ie_json = (\<lambda>_. None), ie_toml = (\<lambda>_. None), ie_race = (\<lambda>_ fs. fs), ie_stack = 0\<rparr>"

definition demo_ipc :: ipc where
  "demo_ipc = \<lparr>ip_listening = True, ip_clients = [], ip_offers = replicate MAX_BROWSER_OFFERS zero_slot,
     ip_q = \<lparr>g_head = [zero_download\<lparr>dl_id := 1\<rparr>], g_next_id = 2\<rparr>,
     ip_db = \<lparr>db_ready = True, db_columns = [], t_downloads = [new_row 1 ''u'' ''/f'' None False 0], t_chunks = []\<rparr>,
     ip_fs = [''/tmp/a'' \<mapsto> Regular [9]],
     ip_cfg = \<lparr>g_max_concurrent = 3, g_default_dir = [], g_retry_max_attempts = 5, g_retry_base_delay_sec = 2,
       g_retry_max_delay_sec = 60, g_max_speed_bps = 0\<rparr>,
     ip_rx = (\<lambda>_. [])\<rparr>"

theorem reservation_claims_destination_witness:
  "ip_fs (snd (reserve_download demo_ipc_env ''http://h/a'' ''/tmp/a''
     \<lparr>ro_cookie = [], ro_referrer = [], ro_extra_headers = [], ro_expected_sha256 = [], ro_speed_limit_bps = 0\<rparr> demo_ipc)) ''/tmp/a'' =
   Some (Regular [9])"
proof -
  let ?o = "\<lparr>ro_cookie = [], ro_referrer = [], ro_extra_headers = [], ro_expected_sha256 = [], ro_speed_limit_bps = 0\<rparr>"
  obtain i st' where r: "reserve_download demo_ipc_env ''http://h/a'' ''/tmp/a'' ?o demo_ipc = (i, st')" by fastforce
  have e: "(\<forall>k fs. ie_race demo_ipc_env k fs = fs) \<and> (\<forall>p. k_fault (ie_kernel demo_ipc_env) SysLstat p = None)"
    "ip_fs demo_ipc ''/tmp/a'' = Some (Regular [9])"
    by (simp_all add: demo_ipc_env_def demo_ipc_def)
  from reservation_claims_destination [OF r] e have "ip_fs st' ''/tmp/a'' = Some (Regular [9])" by blast
  with r show ?thesis by simp
qed

text \<open>
  Every message keeps the store in step with the queue: if each entry could be restored with its
  status before, so it can after, whatever the message was and whether or not it was refused.
\<close>

lemma messages_keep_store_in_step:
  assumes "\<forall>j. j \<noteq> 0 \<longrightarrow> in_store (ip_q st) (ip_db st) j" and "db_inv (ip_db st)" and "db_ready (ip_db st)"
    and "ie_sql E StUpdateStatus = Runs" and "j \<noteq> 0" and "handle_message E fd hdr s st = (reply, rest, st')"
  shows "in_store (ip_q st') (ip_db st') j"
  using assms by (rule message_in_store)



text \<open>
  An offer is confirmed at most once: after a confirmation that returned a download, confirming the
  offer again, with any path, returns the same download and changes nothing.
\<close>

lemma offer_confirmed_once:
  assumes "confirm_offer E oid dest st = (i, st')" and "i \<noteq> 0"
  shows "confirm_offer E' oid dest' st' = (i, st')"
proof -
  from assms obtain slot where slot: "browser_find_offer oid st = Some slot"
    by (auto simp: confirm_offer_def split: option.splits)
  then have oid: "oid \<noteq> 0" "find (slot_has_id oid) (ip_offers st) = Some slot"
    by (auto simp: browser_find_offer_def split: if_splits)
  show ?thesis
  proof (cases "of_state (os_offer slot)")
    case IPC_BROWSER_WAITING
    with assms slot obtain url opts st1 where r: "reserve_download E url dest opts st = (i, st1)"
      and st': "st' = touch_offer oid (ie_now E) (\<lambda>x. x\<lparr>of_download_id := i, of_state := IPC_BROWSER_CONFIRMED\<rparr>) st1"
      by (auto simp: confirm_offer_def Let_def split: prod.splits if_splits)
    have "find (slot_has_id oid) (ip_offers st1) = Some slot" using reserve_download_offers [OF r] oid(2) by simp
    from find_touch_offer [OF oid(1) this] show ?thesis by (simp add: confirm_offer_def st')
  qed (use assms slot in \<open>auto simp: confirm_offer_def\<close>)
qed

definition confirmed_slot :: offer_slot where
  "confirmed_slot = \<lparr>os_offer = zero_offer\<lparr>of_offer_id := 7, of_download_id := 3, of_state := IPC_BROWSER_CONFIRMED\<rparr>,
     os_touched_at = 0\<rparr>"

text \<open>
  C40: An add request whose URL is too long gets no reply, and although the URL itself is drained, the
  rest of the request stays on the wire: the next header is read from the length of the destination.
\<close>

theorem oversized_url_loses_sync:
  assumes "CHR 0x00 \<notin> set url" and "IPC_MAX_URL_LEN \<le> length url" and "length url < 2 ^ 32"
  shows "handle_add_download E fd len (write_string url @ write_string dest @ tail) st = ([], write_string dest @ tail, st)"
  using read_string_write_string [OF assms(1,3), of IPC_MAX_URL_LEN "write_string dest @ tail"] assms(2)
  by (simp add: handle_add_download_def IPC_MAX_URL_LEN_def)

theorem oversized_url_loses_sync_witness:
  "handle_add_download demo_ipc_env 5 0 (write_string (replicate 2048 (CHR ''x'')) @ write_string ''/tmp/a'' @ []) demo_ipc =
     ([], write_string ''/tmp/a'' @ [], demo_ipc)"
  by (rule oversized_url_loses_sync) (simp_all add: IPC_MAX_URL_LEN_def)

text \<open>
  When another process creates the chosen file between the check and the claim, the attempt is
  undone through the queue, which deletes the file: the other process loses it.
\<close>

lemma raced_in_file_is_deleted:
  assumes "path_make_unique (ie_kernel E) (ip_fs st) dest IPC_MAX_PATH_LEN = Some u"
    and "queue_manager_add (ie_kernel E) url u (Some opts) (ip_q st) = (i, q1)" and "i \<noteq> 0"
    and "ie_race E k (ip_fs st) u = Some x" and "k_fault (ie_kernel E) SysOpen u = None"
    and "k_fault (ie_kernel E) SysUnlink u = None"
  shows "\<exists>st1. reserve_loop E (Suc k) url dest opts st = reserve_loop E k url dest opts st1 \<and> ip_fs st1 u = None"
proof -
  obtain claim fs1 where c: "file_preallocate (ie_kernel E) u 0 (ie_race E k (ip_fs st)) = (claim, fs1)" by fastforce
  have "claim = -2" using file_preallocate_exists [of "ie_race E k (ip_fs st)" u "ie_kernel E" 0] assms(4,5) c by simp
  then show ?thesis
    using assms(1-3,6) c add_then_remove(1) [OF assms(2,3)]
    by (intro exI [of _ "st\<lparr>ip_q := (ip_q st)\<lparr>g_next_id := g_next_id q1\<rparr>, ip_fs := sys_unlink (ie_kernel E) u fs1\<rparr>"])
       (simp add: sys_unlink_def)
qed

definition racing_env :: ipc_env where
  "racing_env = demo_ipc_env\<lparr>ie_race := (\<lambda>_ fs. fs(''/tmp/b'' \<mapsto> Regular [1]))\<rparr>"

end
