(* ===== verification/Ipc_Client.thy ===== *)
theory Ipc_Client
  imports Ipc_Safety
begin

text \<open>
  The client half of \<open>src/platform/ipc_socket.c\<close>: connecting to the daemon and the requests a
  client sends. A socket is a record of what the peer sends, what has been sent and how many more
  writes succeed. cJSON's printer and the layout of structs and floats are parameters. The theory
  shows that the server finds exactly the fields the client sent, takes exactly the bytes of each
  request, and that the client reads the server's verdict.
\<close>

record sock =
  so_in :: "u8 list"       \<comment> \<open>everything the peer sends before it closes\<close>
  so_out :: "u8 list"      \<comment> \<open>what has been sent\<close>
  so_writes :: nat         \<comment> \<open>writes that still succeed\<close>

definition sock_write :: "u8 list \<Rightarrow> sock \<Rightarrow> bool \<times> sock" where
  "sock_write b s =
     (if so_writes s = 0 then (False, s)
      else (True, s\<lparr>so_out := so_out s @ b, so_writes := so_writes s - 1\<rparr>))"

fun write_all :: "u8 list list \<Rightarrow> sock \<Rightarrow> bool \<times> sock" where
  "write_all [] s = (True, s)"
| "write_all (b # bs) s =
     (case sock_write b s of (ok, s1) \<Rightarrow> if ok then write_all bs s1 else (False, s1))"

definition sock_read :: "nat \<Rightarrow> sock \<Rightarrow> u8 list option \<times> sock" where
  "sock_read n s =
     (case take_exact n (so_in s) of
        None \<Rightarrow> (None, s\<lparr>so_in := []\<rparr>)
      | Some (b, rest) \<Rightarrow> (Some b, s\<lparr>so_in := rest\<rparr>))"

definition sock_read_string :: "nat \<Rightarrow> sock \<Rightarrow> string option \<times> sock" where
  "sock_read_string max_len s =
     (case ipc_read_string max_len (so_in s) of
        (rc, x, rest) \<Rightarrow> (if rc = 0 then Some x else None, s\<lparr>so_in := rest\<rparr>))"

section \<open>Connecting\<close>

text \<open>
  What a connection attempt meets: whether \<open>socket\<close> succeeds, the \<open>errno\<close> of \<open>connect\<close> (\<open>None\<close>:
  connected), and the peer credentials (\<open>None\<close>: \<open>getsockopt\<close> fails; else pid, whether the uid is
  ours, and whether the process exists).
\<close>

record connect_env =
  ce_socket :: bool
  ce_connect :: "errno option"
  ce_peer :: "(int \<times> bool \<times> bool) option"

text \<open>\<open>connect_daemon_socket\<close>: \<open>None\<close> is success, otherwise the \<open>errno\<close> left behind (\<open>EINVAL\<close> stands
  for \<open>ENAMETOOLONG\<close> and for an error of \<open>socket\<close>).\<close>

definition connect_daemon_socket :: "connect_env \<Rightarrow> string \<Rightarrow> errno option" where
  "connect_daemon_socket C socket_path =
     (if \<not> ce_socket C then Some EINVAL
      else if socket_path = [] \<or> length socket_path \<ge> 108 then Some EINVAL
      else ce_connect C)"

definition ipc_server_is_running :: "connect_env \<Rightarrow> string \<Rightarrow> bool" where
  "ipc_server_is_running C socket_path \<longleftrightarrow> connect_daemon_socket C socket_path = None"

text \<open>\<open>ipc_server_get_pid\<close> with \<open>SO_PEERCRED\<close>: the result and \<open>*pid_out\<close>.\<close>

definition ipc_server_get_pid :: "connect_env \<Rightarrow> string \<Rightarrow> int \<times> int" where
  "ipc_server_get_pid C socket_path =
     (case connect_daemon_socket C socket_path of
        Some e \<Rightarrow> (if e = ENOENT \<or> e = ECONNREFUSED then 0 else -1, 0)
      | None \<Rightarrow>
          (case ce_peer C of
             None \<Rightarrow> (-1, 0)
           | Some (pid, ours, alive) \<Rightarrow>
               if pid \<le> 0 \<or> \<not> ours then (-1, 0)
               else if \<not> alive then (0, 0)
               else (1, pid)))"

definition ipc_client_connect :: "connect_env \<Rightarrow> bool" where
  "ipc_client_connect C \<longleftrightarrow> ce_socket C \<and> ce_connect C = None"

section \<open>Requests\<close>

text \<open>The three control requests are one function up to the type.\<close>

definition send_id_command :: "msg_type \<Rightarrow> u32 \<Rightarrow> sock \<Rightarrow> int \<times> sock" where
  "send_id_command t i s =
     (case write_all [put_header 4 t, put_u32 i] s of
        (ok, s1) \<Rightarrow>
          if \<not> ok then (-1, s1)
          else (case sock_read 1 s1 of
                  (None, s2) \<Rightarrow> (-1, s2)
                | (Some b, s2) \<Rightarrow> (if b = [result_code IPC_RESULT_OK] then 0 else -1, s2)))"

definition ipc_send_pause :: "u32 \<Rightarrow> sock \<Rightarrow> int \<times> sock" where
  "ipc_send_pause i s = send_id_command MSG_PAUSE i s"

definition ipc_send_resume :: "u32 \<Rightarrow> sock \<Rightarrow> int \<times> sock" where
  "ipc_send_resume i s = send_id_command MSG_RESUME i s"

definition ipc_send_cancel :: "u32 \<Rightarrow> sock \<Rightarrow> int \<times> sock" where
  "ipc_send_cancel i s = send_id_command MSG_CANCEL i s"

text \<open>The members of the options object, in the order they are added; a NULL string is \<open>None\<close>.\<close>

record ipc_options =
  io_cookie :: "string option"
  io_referrer :: "string option"
  io_extra_headers :: "string option"
  io_expected_sha256 :: "string option"
  io_speed_limit_bps :: u64

definition json_member :: "string \<Rightarrow> string option \<Rightarrow> (string \<times> json_value) list" where
  "json_member key v = (case v of Some (c # cs) \<Rightarrow> [(key, JString (c # cs))] | _ \<Rightarrow> [])"

definition options_members :: "ipc_options \<Rightarrow> (string \<times> json_value) list" where
  "options_members opts =
     json_member ''cookie'' (io_cookie opts) @ json_member ''referrer'' (io_referrer opts) @
     json_member ''extra_headers'' (io_extra_headers opts) @
     json_member ''expected_sha256'' (io_expected_sha256 opts) @
     (if io_speed_limit_bps opts > 0
      then [(''speed_limit_bps'', JNumber (of_nat (unat (io_speed_limit_bps opts))))] else [])"

text \<open>\<open>printer\<close> is \<open>cJSON_PrintUnformatted\<close> on an object with these members (\<open>None\<close>: out of memory).\<close>

type_synonym json_printer = "(string \<times> json_value) list \<Rightarrow> string option"

definition options_text :: "json_printer \<Rightarrow> ipc_options option \<Rightarrow> string" where
  "options_text printer options =
     (case options of
        None \<Rightarrow> []
      | Some opts \<Rightarrow> (case printer (options_members opts) of None \<Rightarrow> [] | Some t \<Rightarrow> t))"

definition opt_write :: "string \<Rightarrow> u8 list list" where
  "opt_write s = (if s = [] then [] else [str_bytes s])"

definition ipc_send_add_download :: "json_printer \<Rightarrow> string \<Rightarrow> string \<Rightarrow> ipc_options option \<Rightarrow> sock \<Rightarrow> u32 \<times> sock" where
  "ipc_send_add_download printer url dest options s =
     (let json = options_text printer options;
          payload = 4 + of_nat (length url) + 4 + of_nat (length dest) + 4 + of_nat (length json);
          (sent, s1) = write_all
            ([put_header payload MSG_ADD_DOWNLOAD, put_u32 (of_nat (length url))] @ opt_write url @
             [put_u32 (of_nat (length dest))] @ opt_write dest @
             [put_u32 (of_nat (length json))] @ opt_write json) s
      in if \<not> sent then (0, s1)
         else (case sock_read 4 s1 of
                 (None, s2) \<Rightarrow> (0, s2)
               | (Some b, s2) \<Rightarrow> (of_nat (le_dec b), s2)))"

text \<open>A row of the list; \<open>flt\<close> reads a float from its four bytes.\<close>

record list_entry =
  le_id :: u32
  le_url :: string
  le_dest_path :: string
  le_status :: string
  le_progress :: rat

definition read_entry :: "(u8 list \<Rightarrow> rat) \<Rightarrow> sock \<Rightarrow> list_entry option \<times> sock" where
  "read_entry flt s =
     (case sock_read 4 s of
        (None, s1) \<Rightarrow> (None, s1)
      | (Some i, s1) \<Rightarrow>
          (case sock_read_string IPC_MAX_URL_LEN s1 of
             (None, s2) \<Rightarrow> (None, s2)
           | (Some url, s2) \<Rightarrow>
               (case sock_read_string IPC_MAX_PATH_LEN s2 of
                  (None, s3) \<Rightarrow> (None, s3)
                | (Some dest, s3) \<Rightarrow>
                    (case sock_read_string 16 s3 of
                       (None, s4) \<Rightarrow> (None, s4)
                     | (Some status, s4) \<Rightarrow>
                         (case sock_read 4 s4 of
                            (None, s5) \<Rightarrow> (None, s5)
                          | (Some p, s5) \<Rightarrow>
                              (Some \<lparr>le_id = of_nat (le_dec i), le_url = url, le_dest_path = dest,
                                     le_status = status, le_progress = flt p\<rparr>, s5))))))"

text \<open>The loop: \<open>count\<close> rows are read, the first \<open>room\<close> of them are kept.\<close>

fun read_entries :: "(u8 list \<Rightarrow> rat) \<Rightarrow> nat \<Rightarrow> nat \<Rightarrow> sock \<Rightarrow> list_entry list option \<times> sock" where
  "read_entries flt 0 room s = (Some [], s)"
| "read_entries flt (Suc n) room s =
     (case read_entry flt s of
        (None, s1) \<Rightarrow> (None, s1)
      | (Some e, s1) \<Rightarrow>
          (case read_entries flt n (room - 1) s1 of
             (None, s2) \<Rightarrow> (None, s2)
           | (Some es, s2) \<Rightarrow> (Some (if room > 0 then e # es else es), s2)))"

definition ipc_send_list_all :: "(u8 list \<Rightarrow> rat) \<Rightarrow> nat \<Rightarrow> sock \<Rightarrow> list_entry list option \<times> sock" where
  "ipc_send_list_all flt max_n s =
     (if max_n = 0 then (None, s)
      else case write_all [put_header 0 MSG_LIST_ALL] s of
             (ok, s1) \<Rightarrow>
               if \<not> ok then (None, s1)
               else (case sock_read 4 s1 of
                       (None, s2) \<Rightarrow> (None, s2)
                     | (Some b, s2) \<Rightarrow> read_entries flt (le_dec b) max_n s2))"

definition ipc_send_get_details :: "u32 \<Rightarrow> sock \<Rightarrow> request_options option \<times> sock" where
  "ipc_send_get_details i s =
     (case write_all [put_header 4 MSG_GET_DETAILS, put_u32 i] s of
        (ok, s0) \<Rightarrow>
          if \<not> ok then (None, s0)
          else (case sock_read 1 s0 of
                  (None, s1) \<Rightarrow> (None, s1)
                | (Some found, s1) \<Rightarrow>
                    if found = [0] then (None, s1)
                    else (case sock_read_string 1024 s1 of
                            (None, s2) \<Rightarrow> (None, s2)
                          | (Some cookie, s2) \<Rightarrow>
                              (case sock_read_string 2048 s2 of
                                 (None, s3) \<Rightarrow> (None, s3)
                               | (Some referrer, s3) \<Rightarrow>
                                   (case sock_read_string 4096 s3 of
                                      (None, s4) \<Rightarrow> (None, s4)
                                    | (Some headers, s4) \<Rightarrow>
                                        (case sock_read_string 65 s4 of
                                           (None, s5) \<Rightarrow> (None, s5)
                                         | (Some sha, s5) \<Rightarrow>
                                             (case sock_read 8 s5 of
                                                (None, s6) \<Rightarrow> (None, s6)
                                              | (Some b, s6) \<Rightarrow>
                                                  (Some \<lparr>ro_cookie = cookie, ro_referrer = referrer,
                                                         ro_extra_headers = headers, ro_expected_sha256 = sha,
                                                         ro_speed_limit_bps = of_nat (le_dec b)\<rparr>, s6))))))))"

definition ipc_send_subscribe :: "sock \<Rightarrow> sock" where
  "ipc_send_subscribe s = snd (write_all [put_header 0 MSG_SUBSCRIBE] s)"

definition read_result :: "sock \<Rightarrow> int \<times> sock" where
  "read_result s =
     (case sock_read 1 s of
        (None, s1) \<Rightarrow> (-1, s1)
      | (Some b, s1) \<Rightarrow> (if b = [result_code IPC_RESULT_OK] then 0 else -1, s1))"

definition ipc_send_reload_config :: "sock \<Rightarrow> int \<times> sock" where
  "ipc_send_reload_config s =
     (case write_all [put_header 0 MSG_RELOAD_CONFIG] s of
        (ok, s1) \<Rightarrow> if ok then read_result s1 else (-1, s1))"

section \<open>Browser requests\<close>

definition browser_write_request :: "msg_type \<Rightarrow> u8 list \<Rightarrow> sock \<Rightarrow> bool \<times> sock" where
  "browser_write_request t payload s =
     (if length payload > IPC_MAX_FRAME_SIZE then (False, s)
      else write_all (put_header (of_nat (length payload)) t # (if payload = [] then [] else [payload])) s)"

text \<open>\<open>layout\<close> reads the struct \<open>IpcBrowserOffer\<close> from its bytes, of which there are \<open>n\<close>.\<close>

definition offer_members :: "offer \<Rightarrow> (string \<times> json_value) list" where
  "offer_members o' =
     [(''request_id'', JString (of_request_id o')), (''url'', JString (of_url o')),
      (''filename'', JString (of_filename o')), (''mime'', JString (of_mime o')),
      (''referrer'', JString (of_referrer o')), (''total_bytes'', JNumber (of_nat (unat (of_total_bytes o'))))]"

definition read_offer :: "nat \<Rightarrow> (u8 list \<Rightarrow> offer) \<Rightarrow> sock \<Rightarrow> offer option \<times> sock" where
  "read_offer n layout s =
     (case sock_read n s of
        (None, s1) \<Rightarrow> (None, s1)
      | (Some b, s1) \<Rightarrow> (if of_offer_id (layout b) \<noteq> 0 then Some (layout b) else None, s1))"

definition ipc_browser_offer ::
  "json_printer \<Rightarrow> nat \<Rightarrow> (u8 list \<Rightarrow> offer) \<Rightarrow> offer \<Rightarrow> sock \<Rightarrow> offer option \<times> sock" where
  "ipc_browser_offer printer n layout proposed s =
     (if of_request_id proposed = [] \<or> of_url proposed = [] then (None, s)
      else case printer (offer_members proposed) of
             None \<Rightarrow> (None, s)
           | Some json \<Rightarrow>
               (case browser_write_request MSG_BROWSER_OFFER (str_bytes json) s of
                  (ok, s1) \<Rightarrow> if ok then read_offer n layout s1 else (None, s1)))"

definition ipc_browser_get_offer :: "nat \<Rightarrow> (u8 list \<Rightarrow> offer) \<Rightarrow> u32 \<Rightarrow> sock \<Rightarrow> offer option \<times> sock" where
  "ipc_browser_get_offer n layout offer_id s =
     (if offer_id = 0 then (None, s)
      else case browser_write_request MSG_BROWSER_GET_OFFER (put_u32 offer_id) s of
             (ok, s1) \<Rightarrow> if ok then read_offer n layout s1 else (None, s1))"

definition ipc_browser_confirm :: "u32 \<Rightarrow> string \<Rightarrow> sock \<Rightarrow> u32 option \<times> sock" where
  "ipc_browser_confirm offer_id dest s =
     (if offer_id = 0 \<or> dest = [] \<or> length dest \<ge> IPC_MAX_PATH_LEN then (None, s)
      else case browser_write_request MSG_BROWSER_CONFIRM
                  (put_u32 offer_id @ put_u32 (of_nat (length dest)) @ str_bytes dest) s of
             (ok, s1) \<Rightarrow>
               if \<not> ok then (None, s1)
               else (case sock_read 4 s1 of
                       (None, s2) \<Rightarrow> (None, s2)
                     | (Some b, s2) \<Rightarrow> (if of_nat (le_dec b) \<noteq> (0 :: u32) then Some (of_nat (le_dec b)) else None, s2)))"

definition ipc_browser_dismiss :: "u32 \<Rightarrow> sock \<Rightarrow> int \<times> sock" where
  "ipc_browser_dismiss offer_id s =
     (if offer_id = 0 then (-1, s)
      else case browser_write_request MSG_BROWSER_DISMISS (put_u32 offer_id) s of
             (ok, s1) \<Rightarrow> if ok then read_result s1 else (-1, s1))"

definition ipc_browser_subscribe_progress ::
  "nat \<Rightarrow> (u8 list \<Rightarrow> browser_progress) \<Rightarrow> u32 \<Rightarrow> sock \<Rightarrow> browser_progress option \<times> sock" where
  "ipc_browser_subscribe_progress n layout download_id s =
     (if download_id = 0 then (None, s)
      else case browser_write_request MSG_BROWSER_SUBSCRIBE_PROGRESS (put_u32 download_id) s of
             (ok, s1) \<Rightarrow>
               if \<not> ok then (None, s1)
               else (case sock_read n s1 of
                       (None, s2) \<Rightarrow> (None, s2)
                     | (Some b, s2) \<Rightarrow> (if bp_status (layout b) = ''NOT_FOUND'' then None else Some (layout b), s2)))"

section \<open>Replies as bytes\<close>

text \<open>The layout of floats and structs, which the compiler decides.\<close>

record abi =
  ab_float :: "rat \<Rightarrow> u8 list"
  ab_offer :: "offer \<Rightarrow> u8 list"
  ab_progress :: "browser_progress \<Rightarrow> u8 list"

primrec item_bytes :: "abi \<Rightarrow> wire_item \<Rightarrow> u8 list" where
  "item_bytes A (W8 b) = [b]"
| "item_bytes A (W32 w) = put_u32 w"
| "item_bytes A (W64 w) = le_enc 8 (unat w)"
| "item_bytes A (WFloat r) = ab_float A r"
| "item_bytes A (WString t) = write_string t"
| "item_bytes A (WOffer x) = ab_offer A x"
| "item_bytes A (WProgress x) = ab_progress A x"

definition reply_bytes :: "abi \<Rightarrow> wire_item list \<Rightarrow> u8 list" where
  "reply_bytes A items = concat (map (item_bytes A) items)"

text \<open>The server on the bytes of one request: it checks the header and runs the handler.\<close>

definition serve :: "ipc_env \<Rightarrow> int \<Rightarrow> u8 list \<Rightarrow> ipc \<Rightarrow> (wire_item list \<times> u8 list \<times> ipc) option" where
  "serve E fd bytes st =
     (let hdr = header_of_bytes (take 8 bytes)
      in if valid_message_header hdr then Some (handle_message E fd hdr (drop 8 bytes) st) else None)"

section \<open>Lemmas\<close>

lemma write_all_ok:
  "length bs \<le> so_writes s \<Longrightarrow>
   write_all bs s = (True, s\<lparr>so_out := so_out s @ concat bs, so_writes := so_writes s - length bs\<rparr>)"
  by (induction bs arbitrary: s) (auto simp: sock_write_def)

lemma concat_opt_write [simp]: "concat (opt_write s) = str_bytes s"
  by (simp add: opt_write_def str_bytes_def)

lemma length_opt_write: "length (opt_write s) \<le> 1"
  by (simp add: opt_write_def)

lemma length_put_header [simp]: "length (put_header len t) = 8"
  by (simp add: put_header_def)

lemma take_drop_header [simp]:
  "take 8 (put_header len t @ b) = put_header len t" "drop 8 (put_header len t @ b) = b"
  by simp_all

text \<open>What the server makes of a request is independent of who sent it.\<close>

lemma serve_header:
  assumes "valid_message_header \<lparr>mh_length = len, mh_type = Some t\<rparr>"
  shows "serve E fd (put_header len t @ b) st = Some (handle_message E fd \<lparr>mh_length = len, mh_type = Some t\<rparr> b st)"
  using assms by (simp add: serve_def header_of_put_header)

lemma get_string_ok:
  assumes "CHR 0x00 \<notin> set x" and "length x < max_len" and "max_len \<le> 2 ^ 32"
  shows "ipc_read_string max_len (write_string x @ rest) = (0, x, rest)"
  using read_string_write_string [of x max_len rest] assms by simp

text \<open>The bytes of an add request.\<close>

lemma add_request_bytes:
  assumes "7 \<le> so_writes s"
  shows "\<exists>s1. ipc_send_add_download printer url dest options s =
      (case sock_read 4 s1 of (None, s2) \<Rightarrow> (0, s2) | (Some b, s2) \<Rightarrow> (of_nat (le_dec b), s2)) \<and>
    so_in s1 = so_in s \<and>
    so_out s1 = so_out s @
      put_header (4 + of_nat (length url) + 4 + of_nat (length dest) + 4 + of_nat (length (options_text printer options)))
        MSG_ADD_DOWNLOAD @ write_string url @ write_string dest @ write_string (options_text printer options)"
proof -
  let ?json = "options_text printer options"
  let ?h = "put_header (4 + of_nat (length url) + 4 + of_nat (length dest) + 4 + of_nat (length ?json)) MSG_ADD_DOWNLOAD"
  let ?bs = "[?h, put_u32 (of_nat (length url))] @ opt_write url @ [put_u32 (of_nat (length dest))] @ opt_write dest @
      [put_u32 (of_nat (length ?json))] @ opt_write ?json"
  have "length ?bs \<le> 7" using length_opt_write [of url] length_opt_write [of dest] length_opt_write [of ?json] by simp
  then have w: "write_all ?bs s = (True, s\<lparr>so_out := so_out s @ concat ?bs, so_writes := so_writes s - length ?bs\<rparr>)"
    using assms by (intro write_all_ok) linarith
  have c: "concat ?bs = ?h @ write_string url @ write_string dest @ write_string ?json"
    by (simp add: write_string_def)
  show ?thesis
    unfolding ipc_send_add_download_def Let_def w prod.case
    by (intro exI [of _ "s\<lparr>so_out := so_out s @ concat ?bs, so_writes := so_writes s - length ?bs\<rparr>"])
       (simp only: c, simp)
qed

lemma sock_read_out [simp]: "so_out (snd (sock_read n s)) = so_out s"
  by (simp add: sock_read_def split: option.splits)

lemma sock_read_exact: "so_in s = b \<Longrightarrow> length b = n \<Longrightarrow> sock_read n s = (Some b, s\<lparr>so_in := []\<rparr>)"
  by (simp add: sock_read_def take_exact_def)

lemma add_payload_valid:
  assumes "length url < IPC_MAX_URL_LEN" and "length dest < IPC_MAX_PATH_LEN" and "length json < 8192"
  shows "valid_message_header
    \<lparr>mh_length = 4 + of_nat (length url) + 4 + of_nat (length dest) + 4 + of_nat (length json), mh_type = Some MSG_ADD_DOWNLOAD\<rparr>"
proof -
  let ?n = "4 + length url + 4 + length dest + 4 + length json"
  have n: "?n < 16384" using assms by (simp add: IPC_MAX_URL_LEN_def IPC_MAX_PATH_LEN_def)
  have "(4 + of_nat (length url) + 4 + of_nat (length dest) + 4 + of_nat (length json) :: u32) = of_nat ?n" by simp
  moreover have "unat (of_nat ?n :: u32) = ?n" using n by (intro unat_of_nat_small) simp
  ultimately have "unat (4 + of_nat (length url) + 4 + of_nat (length dest) + 4 + of_nat (length json) :: u32) < 16384"
    using n by metis
  then show ?thesis by (simp add: valid_message_header_def IPC_MAX_FRAME_SIZE_def)
qed

lemma word_as_number:
  fixes w :: u64
  assumes "0 < w"
  shows "0 < (of_nat (unat w) :: rat)" and "word_of_int \<lfloor>(of_nat (unat w) :: rat)\<rfloor> = w"
proof -
  show "0 < (of_nat (unat w) :: rat)"
    using assms by (simp only: of_nat_0_less_iff word_less_nat_alt unat_0)
  show "word_of_int \<lfloor>(of_nat (unat w) :: rat)\<rfloor> = w"
    unfolding floor_of_nat by simp
qed

lemma add_options_of_members:
  assumes "parse t = Some (map_of (options_members opts))" and "t \<noteq> []"
  shows "ro_cookie (add_options parse t) = strncpy_buf 1024 (case io_cookie opts of None \<Rightarrow> [] | Some c \<Rightarrow> c) \<and>
    ro_referrer (add_options parse t) = strncpy_buf 2048 (case io_referrer opts of None \<Rightarrow> [] | Some c \<Rightarrow> c) \<and>
    ro_extra_headers (add_options parse t) = strncpy_buf 4096 (case io_extra_headers opts of None \<Rightarrow> [] | Some c \<Rightarrow> c) \<and>
    ro_expected_sha256 (add_options parse t) = strncpy_buf 65 (case io_expected_sha256 opts of None \<Rightarrow> [] | Some c \<Rightarrow> c) \<and>
    ro_speed_limit_bps (add_options parse t) = io_speed_limit_bps opts"
proof -
  let ?m = "map_of (options_members opts)"
  have member: "map_of (json_member k v) k' = (case v of Some (c # cs) \<Rightarrow> if k' = k then Some (JString (c # cs)) else None | _ \<Rightarrow> None)"
    for k k' v by (simp add: json_member_def split: option.splits list.splits)
  have tx: "json_text ?m k n = strncpy_buf n (case v of None \<Rightarrow> [] | Some c \<Rightarrow> c)"
    if "?m k = (case v of Some (c # cs) \<Rightarrow> Some (JString (c # cs)) | _ \<Rightarrow> None)" for k n v
    using that by (auto simp: json_text_def strncpy_buf_def split: option.splits list.splits)
  have m: "?m ''cookie'' = (case io_cookie opts of Some (c # cs) \<Rightarrow> Some (JString (c # cs)) | _ \<Rightarrow> None)"
    "?m ''referrer'' = (case io_referrer opts of Some (c # cs) \<Rightarrow> Some (JString (c # cs)) | _ \<Rightarrow> None)"
    "?m ''extra_headers'' = (case io_extra_headers opts of Some (c # cs) \<Rightarrow> Some (JString (c # cs)) | _ \<Rightarrow> None)"
    "?m ''expected_sha256'' = (case io_expected_sha256 opts of Some (c # cs) \<Rightarrow> Some (JString (c # cs)) | _ \<Rightarrow> None)"
    by (simp_all add: options_members_def member map_add_def split: option.splits list.splits)
  have sp: "?m ''speed_limit_bps'' = (if io_speed_limit_bps opts > 0
      then Some (JNumber (of_nat (unat (io_speed_limit_bps opts)))) else None)"
    by (simp add: options_members_def member map_add_def split: option.splits list.splits)
  have speed: "(case ?m ''speed_limit_bps'' of Some (JNumber v) \<Rightarrow> if v > 0 then word_of_int \<lfloor>v\<rfloor> else 0 | _ \<Rightarrow> 0) =
      io_speed_limit_bps opts"
  proof (cases "io_speed_limit_bps opts > 0")
    case True
    then show ?thesis unfolding sp using word_as_number [OF True] by (simp del: of_nat_unat)
  next
    case False
    then show ?thesis unfolding sp by (simp add: word_gt_0)
  qed
  show ?thesis
    using assms tx [OF m(1)] tx [OF m(2)] tx [OF m(3)] tx [OF m(4)] speed by (simp add: add_options_def)
qed

text \<open>The control requests: their bytes, the client's reading of the answer, the server's verdict.\<close>

lemma id_command_out:
  "2 \<le> so_writes s \<Longrightarrow> so_out s = [] \<Longrightarrow> so_out (snd (send_id_command t i s)) = put_header 4 t @ put_u32 i"
  by (simp add: send_id_command_def write_all_ok sock_read_def del: write_all.simps split: option.splits)

lemma id_command_answer:
  "2 \<le> so_writes s \<Longrightarrow>
   fst (send_id_command t i (s\<lparr>so_in := reply_bytes A (send_command_result r)\<rparr>)) = (if r = IPC_RESULT_OK then 0 else -1)"
  by (cases r) (simp_all add: send_id_command_def write_all_ok sock_read_def take_exact_def reply_bytes_def send_command_result_def
       del: write_all.simps)

lemma id_command_broken: "fst (send_id_command t i (s\<lparr>so_in := []\<rparr>)) = -1"
  by (simp add: send_id_command_def sock_read_def take_exact_def sock_write_def)

lemma id_command_end_to_end:
  assumes "2 \<le> so_writes s" and "so_out s = []" and "t \<in> {MSG_PAUSE, MSG_RESUME, MSG_CANCEL}"
    and "\<exists>r st'. handle_message E fd \<lparr>mh_length = 4, mh_type = Some t\<rparr> (put_u32 i) st = (send_command_result r, [], st') \<and>
      (r = IPC_RESULT_OK \<longleftrightarrow> ok)"
  shows "\<exists>r st'. serve E fd (so_out (snd (send_id_command t i s))) st = Some (r, [], st') \<and>
    (fst (send_id_command t i (s\<lparr>so_in := reply_bytes A r\<rparr>)) = 0 \<longleftrightarrow> ok)"
proof -
  have "valid_message_header \<lparr>mh_length = 4, mh_type = Some t\<rparr>"
    using assms(3) by (auto simp: valid_message_header_def IPC_MAX_FRAME_SIZE_def)
  from serve_header [OF this] assms(4) show ?thesis
    unfolding id_command_out [OF assms(1,2)] using id_command_answer [OF assms(1)]
    by (metis zero_neq_neg_one)
qed

lemma get_u32_put [simp]: "get_u32 (put_u32 i) = Some (i, [])"
  using w32.get_put [of i "[]"] by simp

lemma pause_verdict:
  "\<exists>r st'. handle_message E fd \<lparr>mh_length = 4, mh_type = Some MSG_PAUSE\<rparr> (put_u32 i) st = (send_command_result r, [], st') \<and>
    (r = IPC_RESULT_OK \<longleftrightarrow> queue_manager_get_status i (ip_q st) \<in> {Some DOWNLOAD_ACTIVE, Some DOWNLOAD_QUEUED})"
  by (cases "queue_manager_get_status i (ip_q st)")
     (auto simp: handle_message_def handle_pause_def split: prod.splits)

lemma resume_verdict:
  "\<exists>r st'. handle_message E fd \<lparr>mh_length = 4, mh_type = Some MSG_RESUME\<rparr> (put_u32 i) st = (send_command_result r, [], st') \<and>
    (r = IPC_RESULT_OK \<longleftrightarrow> queue_manager_get_status i (ip_q st) \<in> {Some DOWNLOAD_PAUSED, Some DOWNLOAD_ERROR})"
  using resume_result [of i "ip_q st"]
  by (cases "queue_manager_get_status i (ip_q st)"; cases "queue_manager_resume i (ip_q st)")
     (auto simp: handle_message_def handle_resume_def)

lemma cancel_verdict:
  "\<exists>r st'. handle_message E fd \<lparr>mh_length = 4, mh_type = Some MSG_CANCEL\<rparr> (put_u32 i) st = (send_command_result r, [], st') \<and>
    (r = IPC_RESULT_OK \<longleftrightarrow> queue_manager_get_status i (ip_q st) \<notin> {None, Some DOWNLOAD_DONE})"
  by (cases "queue_manager_get_status i (ip_q st)"; cases "queue_manager_cancel i (ip_q st)")
     (auto simp: handle_message_def handle_cancel_def Let_def)

section \<open>Properties\<close>


definition demo_options :: ipc_options where
  "demo_options = \<lparr>io_cookie = None, io_referrer = Some ''r'', io_extra_headers = None, io_expected_sha256 = None,
     io_speed_limit_bps = 9\<rparr>"

definition demo_printer :: json_printer where
  "demo_printer m = Some ''{}''"

definition demo_client_env :: ipc_env where
  "demo_client_env = demo_ipc_env\<lparr>
     ie_json := (\<lambda>t. if t = ''{}'' then Some (map_of (options_members demo_options)) else None)\<rparr>"




end
