(* ===== verification/Gui_Client.thy ===== *)
theory Gui_Client
  imports Gui_Ring Ipc_Client
begin

text \<open>
  \<open>src/gui/gui_client.c\<close>: the GUI's connection to the daemon. A command socket carries requests, a
  second socket is subscribed to status events, which a listener thread turns into a bounded queue
  that drops its oldest event when full. What later connection attempts yield is part of the state.
\<close>

definition GUI_EVENT_QUEUE_CAP :: nat where
  "GUI_EVENT_QUEUE_CAP = 512"

datatype gui_event_type = GUI_EVT_STATUS_UPDATE | GUI_EVT_CONNECTION_LOST | GUI_EVT_CONNECTION_RESTORED

record gui_client_event =
  ge_type :: gui_event_type
  ge_download_id :: u32
  ge_status :: string
  ge_progress :: rat

definition plain_event :: "gui_event_type \<Rightarrow> gui_client_event" where
  "plain_event t = \<lparr>ge_type = t, ge_download_id = 0, ge_status = [], ge_progress = 0\<rparr>"

record gui_client =
  gl_cmd :: "sock option"              \<comment> \<open>\<open>g_cmd_fd\<close>, \<open>None\<close> for -1\<close>
  gl_listener :: "sock option"         \<comment> \<open>\<open>g_listener_fd\<close>\<close>
  gl_listener_started :: bool
  gl_running :: bool
  gl_was_connected :: bool
  gl_queue :: "gui_client_event ring"
  gl_connects :: "sock option list"    \<comment> \<open>what the next connection attempts yield\<close>

text \<open>What the code leaves to its surroundings: the reading of a float, the allocator, cJSON's
  printer, and the stack bytes that uninitialised variables hold.\<close>

record gui_env =
  gv_float :: "u8 list \<Rightarrow> rat"
  gv_alloc :: "int \<Rightarrow> bool"
  gv_printer :: json_printer
  gv_stack_id :: "u8 list"
  gv_stack_progress :: "u8 list"
  gv_thread :: bool                    \<comment> \<open>\<open>dm_thread_create\<close> succeeds\<close>

section \<open>The event queue\<close>

definition push_ring :: "gui_client_event \<Rightarrow> gui_client_event ring \<Rightarrow> gui_client_event ring" where
  "push_ring evt q =
     ring_put GUI_EVENT_QUEUE_CAP evt
       (if rg_count q = GUI_EVENT_QUEUE_CAP then ring_drop GUI_EVENT_QUEUE_CAP q else q)"

definition push_event :: "gui_client_event \<Rightarrow> gui_client \<Rightarrow> gui_client" where
  "push_event evt st = st\<lparr>gl_queue := push_ring evt (gl_queue st)\<rparr>"

definition gui_client_poll_event :: "gui_client \<Rightarrow> gui_client_event option \<times> gui_client" where
  "gui_client_poll_event st =
     (case ring_poll GUI_EVENT_QUEUE_CAP (gl_queue st) of (e, q) \<Rightarrow> (e, st\<lparr>gl_queue := q\<rparr>))"

section \<open>Status texts\<close>

definition status_map :: "(string \<times> string) list" where
  "status_map =
     [(''Downloading'', ''ACTIVE''), (''Retrying'', ''QUEUED''), (''Paused'', ''PAUSED''),
      (''Canceled'', ''CANCELED''), (''Error'', ''ERROR''), (''Verification failed'', ''ERROR''),
      (''Done'', ''DONE'')]"

definition upper_char :: "char \<Rightarrow> char" where
  "upper_char c =
     (if of_char c \<ge> (97 :: nat) \<and> of_char c \<le> (122 :: nat) then char_of (of_char c - 97 + (65 :: nat)) else c)"

definition normalize_status :: "string \<Rightarrow> nat \<Rightarrow> string" where
  "normalize_status raw out_size =
     (case map_of status_map raw of
        Some canonical \<Rightarrow> strncpy_buf out_size canonical
      | None \<Rightarrow> map upper_char (take (out_size - 1) raw))"

section \<open>Reading\<close>

text \<open>\<open>read_string_local\<close>: an oversized string is cut, and its remainder stays in the stream.\<close>

definition read_string_local :: "nat \<Rightarrow> sock \<Rightarrow> string option \<times> sock" where
  "read_string_local max_len s =
     (case sock_read 4 s of
        (None, s1) \<Rightarrow> (None, s1)
      | (Some b, s1) \<Rightarrow>
          let len = (if le_dec b \<ge> max_len then max_len - 1 else le_dec b)
          in case sock_read len s1 of
               (None, s2) \<Rightarrow> (None, s2)
             | (Some t, s2) \<Rightarrow> (Some (cstr_of t), s2))"

text \<open>\<open>ipc_read_exact\<close> with its result ignored: what arrives overwrites the start of the variable.\<close>

definition read_into :: "u8 list \<Rightarrow> sock \<Rightarrow> u8 list \<times> sock" where
  "read_into old s =
     (let got = take (length old) (so_in s)
      in (got @ drop (length got) old, s\<lparr>so_in := drop (length old) (so_in s)\<rparr>))"

section \<open>The connection state\<close>

definition connect_attempt :: "gui_client \<Rightarrow> sock option \<times> gui_client" where
  "connect_attempt st =
     (case gl_connects st of [] \<Rightarrow> (None, st) | c # cs \<Rightarrow> (c, st\<lparr>gl_connects := cs\<rparr>))"

definition note_lost :: "gui_client \<Rightarrow> gui_client" where
  "note_lost st =
     (if gl_was_connected st then push_event (plain_event GUI_EVT_CONNECTION_LOST) (st\<lparr>gl_was_connected := False\<rparr>)
      else st\<lparr>gl_was_connected := False\<rparr>)"

definition note_restored :: "gui_client \<Rightarrow> gui_client" where
  "note_restored st =
     (if \<not> gl_was_connected st then push_event (plain_event GUI_EVT_CONNECTION_RESTORED) (st\<lparr>gl_was_connected := True\<rparr>)
      else st\<lparr>gl_was_connected := True\<rparr>)"

section \<open>The listener thread\<close>

text \<open>The body after a header of another type than \<open>MSG_STATUS_EVENT\<close> has been ruled out.\<close>

definition read_status_event :: "gui_env \<Rightarrow> sock \<Rightarrow> gui_client_event \<times> sock" where
  "read_status_event V s =
     (let (i, s1) = read_into (gv_stack_id V) s;
          (p, s2) = read_into (gv_stack_progress V) s1;
          (slen_bytes, s3) = read_into [0, 0, 0, 0] s2;
          slen = le_dec slen_bytes;
          (raw, s4) = (if slen = 0 then ([], s3)
                       else if slen < 32 then read_into (replicate slen 0) s3
                       else ([], s3\<lparr>so_in := drain slen (so_in s3)\<rparr>));
          raw_status = cstr_of raw
      in (\<lparr>ge_type = GUI_EVT_STATUS_UPDATE, ge_download_id = of_nat (le_dec i),
           ge_status = (if raw_status = [] then [] else normalize_status raw_status 16),
           ge_progress = gv_float V p\<rparr>, s4))"

text \<open>What happens when no header can be read.\<close>

definition listener_reconnect :: "gui_client \<Rightarrow> gui_client" where
  "listener_reconnect st =
     (let st1 = note_lost st
      in if \<not> gl_running st1 then st1
         else case connect_attempt st1 of
                (None, st2) \<Rightarrow> st2\<lparr>gl_listener := None\<rparr>
              | (Some s, st2) \<Rightarrow> note_restored (st2\<lparr>gl_listener := Some (ipc_send_subscribe s)\<rparr>))"

definition listener_step :: "gui_env \<Rightarrow> gui_client \<Rightarrow> gui_client" where
  "listener_step V st =
     (case gl_listener st of
        None \<Rightarrow> listener_reconnect st
      | Some s \<Rightarrow>
          (case sock_read 8 s of
             (None, s1) \<Rightarrow> listener_reconnect (st\<lparr>gl_listener := Some s1\<rparr>)
           | (Some b, s1) \<Rightarrow>
               if mh_type (header_of_bytes b) \<noteq> Some MSG_STATUS_EVENT then st\<lparr>gl_listener := Some s1\<rparr>
               else (case read_status_event V s1 of
                       (evt, s2) \<Rightarrow> push_event evt (st\<lparr>gl_listener := Some s2\<rparr>))))"

text \<open>\<open>listener_thread_fn\<close> for at most \<open>n\<close> rounds of its loop.\<close>

primrec listener_thread_fn :: "gui_env \<Rightarrow> nat \<Rightarrow> gui_client \<Rightarrow> gui_client" where
  "listener_thread_fn V 0 st = st"
| "listener_thread_fn V (Suc n) st = (if gl_running st then listener_thread_fn V n (listener_step V st) else st)"

definition gui_client_connect :: "gui_env \<Rightarrow> gui_client \<Rightarrow> bool \<times> gui_client" where
  "gui_client_connect V st =
     (case connect_attempt st of
        (None, st1) \<Rightarrow> (False, st1\<lparr>gl_cmd := None\<rparr>)
      | (Some c, st1) \<Rightarrow>
          (case connect_attempt (st1\<lparr>gl_cmd := Some c\<rparr>) of
             (None, st2) \<Rightarrow> (False, st2\<lparr>gl_listener := None, gl_cmd := None\<rparr>)
           | (Some s, st2) \<Rightarrow>
               let st3 = st2\<lparr>gl_listener := Some (ipc_send_subscribe s), gl_running := True, gl_was_connected := True\<rparr>
               in if \<not> gv_thread V
                  then (False, st3\<lparr>gl_listener := None, gl_cmd := None, gl_running := False\<rparr>)
                  else (True, st3\<lparr>gl_listener_started := True\<rparr>)))"

definition gui_client_disconnect :: "gui_client \<Rightarrow> gui_client" where
  "gui_client_disconnect st =
     st\<lparr>gl_running := False, gl_listener_started := False, gl_cmd := None, gl_listener := None\<rparr>"

section \<open>Requests\<close>

text \<open>The loop of \<open>send_with_retry\<close> with \<open>k\<close> attempts left.\<close>

fun retry_loop :: "(u32 \<Rightarrow> sock \<Rightarrow> int \<times> sock) \<Rightarrow> u32 \<Rightarrow> nat \<Rightarrow> gui_client \<Rightarrow> bool \<times> gui_client" where
  "retry_loop fn i 0 st = (False, note_lost st)"
| "retry_loop fn i (Suc k) st =
     (case (case gl_cmd st of
              Some s \<Rightarrow> (Some s, st)
            | None \<Rightarrow> (case connect_attempt st of
                         (None, st1) \<Rightarrow> (None, st1)
                       | (Some s, st1) \<Rightarrow> (Some s, note_restored (st1\<lparr>gl_cmd := Some s\<rparr>)))) of
        (None, st1) \<Rightarrow> retry_loop fn i k st1
      | (Some s, st1) \<Rightarrow>
          (case fn i s of
             (rc, s1) \<Rightarrow>
               if rc = 0 then (True, st1\<lparr>gl_cmd := Some s1\<rparr>)
               else retry_loop fn i k (st1\<lparr>gl_cmd := None\<rparr>)))"

definition send_with_retry :: "(u32 \<Rightarrow> sock \<Rightarrow> int \<times> sock) \<Rightarrow> u32 \<Rightarrow> gui_client \<Rightarrow> bool \<times> gui_client" where
  "send_with_retry fn i st = retry_loop fn i 2 st"

definition gui_client_pause :: "u32 \<Rightarrow> gui_client \<Rightarrow> bool \<times> gui_client" where
  "gui_client_pause i st = send_with_retry ipc_send_pause i st"

definition gui_client_resume :: "u32 \<Rightarrow> gui_client \<Rightarrow> bool \<times> gui_client" where
  "gui_client_resume i st = send_with_retry ipc_send_resume i st"

definition gui_client_cancel :: "u32 \<Rightarrow> gui_client \<Rightarrow> bool \<times> gui_client" where
  "gui_client_cancel i st = send_with_retry ipc_send_cancel i st"

definition gui_client_reload_config :: "gui_client \<Rightarrow> bool \<times> gui_client" where
  "gui_client_reload_config st = send_with_retry (\<lambda>_. ipc_send_reload_config) 0 st"

text \<open>The connection the other requests start with; \<open>None\<close> when there is none and none can be made.\<close>

definition ensure_cmd :: "gui_client \<Rightarrow> sock option \<times> gui_client" where
  "ensure_cmd st =
     (case gl_cmd st of
        Some s \<Rightarrow> (Some s, st)
      | None \<Rightarrow>
          (case connect_attempt st of
             (None, st1) \<Rightarrow> (None, note_lost st1)
           | (Some s, st1) \<Rightarrow> (Some s, note_restored (st1\<lparr>gl_cmd := Some s\<rparr>))))"

definition drop_cmd :: "gui_client \<Rightarrow> gui_client" where
  "drop_cmd st = note_lost (st\<lparr>gl_cmd := None\<rparr>)"

definition gui_client_add_download ::
  "gui_env \<Rightarrow> string \<Rightarrow> string \<Rightarrow> ipc_options option \<Rightarrow> gui_client \<Rightarrow> (bool \<times> u32) \<times> gui_client" where
  "gui_client_add_download V url dest opts st =
     (case ensure_cmd st of
        (None, st1) \<Rightarrow> ((False, 0), st1)
      | (Some s, st1) \<Rightarrow>
          (case ipc_send_add_download (gv_printer V) url dest opts s of
             (i, s1) \<Rightarrow>
               ((i \<noteq> 0, i), if i = 0 then drop_cmd st1 else st1\<lparr>gl_cmd := Some s1\<rparr>)))"

definition read_record :: "gui_env \<Rightarrow> sock \<Rightarrow> list_entry option \<times> sock" where
  "read_record V s =
     (case sock_read 4 s of
        (None, s1) \<Rightarrow> (None, s1)
      | (Some i, s1) \<Rightarrow>
          (case read_string_local IPC_MAX_URL_LEN s1 of
             (None, s2) \<Rightarrow> (None, s2)
           | (Some url, s2) \<Rightarrow>
               (case read_string_local IPC_MAX_PATH_LEN s2 of
                  (None, s3) \<Rightarrow> (None, s3)
                | (Some dest, s3) \<Rightarrow>
                    (case read_string_local 16 s3 of
                       (None, s4) \<Rightarrow> (None, s4)
                     | (Some status, s4) \<Rightarrow>
                         (case sock_read 4 s4 of
                            (None, s5) \<Rightarrow> (None, s5)
                          | (Some p, s5) \<Rightarrow>
                              (Some \<lparr>le_id = of_nat (le_dec i), le_url = strncpy_buf 2048 url,
                                     le_dest_path = strncpy_buf 1024 dest, le_status = strncpy_buf 16 status,
                                     le_progress = gv_float V p\<rparr>, s5))))))"

fun read_records :: "gui_env \<Rightarrow> nat \<Rightarrow> sock \<Rightarrow> list_entry list option \<times> sock" where
  "read_records V 0 s = (Some [], s)"
| "read_records V (Suc n) s =
     (case read_record V s of
        (None, s1) \<Rightarrow> (None, s1)
      | (Some r, s1) \<Rightarrow>
          (case read_records V n s1 of
             (None, s2) \<Rightarrow> (None, s2)
           | (Some rs, s2) \<Rightarrow> (Some (r # rs), s2)))"

text \<open>\<open>gui_client_list_all\<close>: the count is read as an \<open>int\<close>; \<open>calloc\<close> cannot serve a negative one.\<close>

definition gui_client_list_all :: "gui_env \<Rightarrow> gui_client \<Rightarrow> list_entry list option \<times> gui_client" where
  "gui_client_list_all V st =
     (case ensure_cmd st of
        (None, st1) \<Rightarrow> (None, st1)
      | (Some s, st1) \<Rightarrow>
          (case sock_write (put_header 0 MSG_LIST_ALL) s of
             (ok, s1) \<Rightarrow>
               if \<not> ok then (None, drop_cmd st1)
               else (case sock_read 4 s1 of
                       (None, s2) \<Rightarrow> (None, drop_cmd st1)
                     | (Some b, s2) \<Rightarrow>
                         let n = sint (of_nat (le_dec b) :: u32)
                         in if n = 0 then (Some [], st1\<lparr>gl_cmd := Some s2\<rparr>)
                            else if n < 0 \<or> \<not> gv_alloc V n then (None, st1\<lparr>gl_cmd := Some s2\<rparr>)
                            else (case read_records V (nat n) s2 of
                                    (None, s3) \<Rightarrow> (None, drop_cmd st1)
                                  | (Some rs, s3) \<Rightarrow> (Some rs, st1\<lparr>gl_cmd := Some s3\<rparr>)))))"

definition gui_client_get_details :: "u32 \<Rightarrow> gui_client \<Rightarrow> request_options option \<times> gui_client" where
  "gui_client_get_details i st =
     (case ensure_cmd st of
        (None, st1) \<Rightarrow> (None, st1)
      | (Some s, st1) \<Rightarrow>
          (case ipc_send_get_details i s of
             (None, s1) \<Rightarrow> (None, st1\<lparr>gl_cmd := Some s1\<rparr>)
           | (Some raw, s1) \<Rightarrow>
               (Some \<lparr>ro_cookie = strncpy_buf 1024 (ro_cookie raw), ro_referrer = strncpy_buf 2048 (ro_referrer raw),
                      ro_extra_headers = strncpy_buf 4096 (ro_extra_headers raw),
                      ro_expected_sha256 = strncpy_buf 65 (ro_expected_sha256 raw),
                      ro_speed_limit_bps = ro_speed_limit_bps raw\<rparr>, st1\<lparr>gl_cmd := Some s1\<rparr>)))"

section \<open>The event queue drops its oldest events\<close>

lemma push_ring_wf: "ring_wf GUI_EVENT_QUEUE_CAP q \<Longrightarrow> ring_wf GUI_EVENT_QUEUE_CAP (push_ring e q)"
proof -
  assume wf: "ring_wf GUI_EVENT_QUEUE_CAP q"
  let ?q = "if rg_count q = GUI_EVENT_QUEUE_CAP then ring_drop GUI_EVENT_QUEUE_CAP q else q"
  have "ring_wf GUI_EVENT_QUEUE_CAP ?q \<and> rg_count ?q < GUI_EVENT_QUEUE_CAP"
    using wf ring_drop_wf [OF wf] by (auto simp: ring_wf_def ring_drop_def)
  then show ?thesis by (simp add: push_ring_def ring_put_wf)
qed

lemma push_ring_list:
  assumes "ring_wf GUI_EVENT_QUEUE_CAP q"
  shows "ring_list (push_ring e q) = snd (lossy_push GUI_EVENT_QUEUE_CAP e (ring_list q))"
proof (cases "rg_count q = GUI_EVENT_QUEUE_CAP")
  case True
  then have pos: "0 < rg_count q" by (simp add: GUI_EVENT_QUEUE_CAP_def)
  have "rg_count (ring_drop GUI_EVENT_QUEUE_CAP q) < GUI_EVENT_QUEUE_CAP" using True pos by (simp add: ring_drop_def)
  then show ?thesis
    using True ring_put_list [OF ring_drop_wf [OF assms pos]] ring_list_Cons [OF assms pos]
    by (simp add: push_ring_def lossy_push_def ring_drop_def)
next
  case False
  then have "rg_count q < GUI_EVENT_QUEUE_CAP" using assms by (simp add: ring_wf_def)
  then show ?thesis using False assms by (simp add: push_ring_def lossy_push_def ring_put_list)
qed

interpretation client_events: queue_refinement "ring_wf GUI_EVENT_QUEUE_CAP" ring_list
  "\<lambda>e q. (True, push_ring e q)" "ring_poll GUI_EVENT_QUEUE_CAP" "lossy_push GUI_EVENT_QUEUE_CAP"
proof
  fix q b q' and x :: gui_client_event
  assume "ring_wf GUI_EVENT_QUEUE_CAP q" and "(True, push_ring x q) = (b, q')"
  then show "ring_wf GUI_EVENT_QUEUE_CAP q' \<and> lossy_push GUI_EVENT_QUEUE_CAP x (ring_list q) = (b, ring_list q')"
    using push_ring_wf [of q x] push_ring_list [of q x] by (auto simp: lossy_push_def)
qed (rule ring_poll_refines)

text \<open>A batch of pushes keeps the newest events.\<close>

lemma lossy_push_suffix:
  assumes "xs = drop (length all - cap) all" and "0 < cap"
  shows "snd (lossy_push cap e xs) = drop (length (all @ [e]) - cap) (all @ [e])"
proof (cases "length all < cap")
  case True
  then show ?thesis using assms by (simp add: lossy_push_def)
next
  case False
  then have "length (all @ [e]) - cap = Suc (length all - cap)" "length xs = cap" using assms by simp_all
  moreover have "tl xs = drop (Suc (length all - cap)) all" using assms(1) by (simp add: drop_Suc tl_drop)
  moreover have "Suc (length all - cap) \<le> length all" using False assms(2) by simp
  ultimately show ?thesis by (simp add: lossy_push_def)
qed

lemma push_many:
  assumes "ring_wf GUI_EVENT_QUEUE_CAP q" and "ring_list q = drop (length all - GUI_EVENT_QUEUE_CAP) all"
  shows "ring_wf GUI_EVENT_QUEUE_CAP (fold push_ring es q) \<and>
    ring_list (fold push_ring es q) = drop (length (all @ es) - GUI_EVENT_QUEUE_CAP) (all @ es)"
  using assms
proof (induction es arbitrary: q all)
  case (Cons e es)
  have "ring_list (push_ring e q) = drop (length (all @ [e]) - GUI_EVENT_QUEUE_CAP) (all @ [e])"
    unfolding push_ring_list [OF Cons.prems(1)]
    by (rule lossy_push_suffix [OF Cons.prems(2)]) (simp add: GUI_EVENT_QUEUE_CAP_def)
  with Cons.IH [OF push_ring_wf [OF Cons.prems(1)]] show ?case by fastforce
qed simp

section \<open>Status frames\<close>

definition status_frame :: "u32 \<Rightarrow> string \<Rightarrow> rat \<Rightarrow> wire_item list" where
  "status_frame i text p =
     [W32 (of_nat (4 + 4 + 4 + length text)), W32 (code_of_type MSG_STATUS_EVENT), W32 i, WFloat p, WString text]"

definition status_event :: "u32 \<Rightarrow> string \<Rightarrow> rat \<Rightarrow> gui_client_event" where
  "status_event i text p =
     \<lparr>ge_type = GUI_EVT_STATUS_UPDATE, ge_download_id = i,
      ge_status = (if text = [] then [] else normalize_status text 16), ge_progress = p\<rparr>"

text \<open>The two ends agree on the four bytes of a progress value; every C \<open>float\<close> is such a value.\<close>

definition float_abi :: "abi \<Rightarrow> (u8 list \<Rightarrow> rat) \<Rightarrow> rat \<Rightarrow> bool" where
  "float_abi A flt r \<longleftrightarrow> length (ab_float A r) = 4 \<and> flt (ab_float A r) = r"

lemma read_into_exact: "so_in s = b @ rest \<Longrightarrow> length b = length old \<Longrightarrow> read_into old s = (b, s\<lparr>so_in := rest\<rparr>)"
  by (simp add: read_into_def)

lemma sock_read_append: "so_in s = b @ rest \<Longrightarrow> length b = n \<Longrightarrow> sock_read n s = (Some b, s\<lparr>so_in := rest\<rparr>)"
  by (simp add: sock_read_def)

lemma status_frame_bytes:
  "reply_bytes A (status_frame i text p) =
     put_header (of_nat (4 + 4 + 4 + length text)) MSG_STATUS_EVENT @ put_u32 i @ ab_float A p @
     put_u32 (of_nat (length text)) @ str_bytes text"
  by (simp add: reply_bytes_def status_frame_def put_header_def write_string_def)

lemma read_status_event_frame:
  assumes s: "so_in s = put_u32 i @ ab_float A p @ put_u32 (of_nat (length text)) @ str_bytes text @ rest"
    and "length text < 32" and "CHR 0x00 \<notin> set text" and f: "float_abi A (gv_float V) p"
    and "length (gv_stack_id V) = 4" and "length (gv_stack_progress V) = 4"
  shows "read_status_event V s = (status_event i text p, s\<lparr>so_in := rest\<rparr>)"
proof -
  have l: "unat (of_nat (length text) :: u32) = length text" using assms(2) by (intro unat_of_nat_small) simp
  have "read_into (gv_stack_id V) s = (put_u32 i, s\<lparr>so_in := ab_float A p @ put_u32 (of_nat (length text)) @ str_bytes text @ rest\<rparr>)"
    using assms by (intro read_into_exact) simp_all
  moreover have "read_into (gv_stack_progress V) (s\<lparr>so_in := ab_float A p @ put_u32 (of_nat (length text)) @ str_bytes text @ rest\<rparr>) =
      (ab_float A p, s\<lparr>so_in := put_u32 (of_nat (length text)) @ str_bytes text @ rest\<rparr>)"
    using assms by (subst read_into_exact [of _ "ab_float A p"]) (simp_all add: float_abi_def)
  moreover have "read_into [0, 0, 0, 0] (s\<lparr>so_in := put_u32 (of_nat (length text)) @ str_bytes text @ rest\<rparr>) =
      (put_u32 (of_nat (length text)), s\<lparr>so_in := str_bytes text @ rest\<rparr>)"
    by (subst read_into_exact [of _ "put_u32 (of_nat (length text))"]) simp_all
  moreover have "read_into (replicate (length text) 0) (s\<lparr>so_in := str_bytes text @ rest\<rparr>) = (str_bytes text, s\<lparr>so_in := rest\<rparr>)"
    by (subst read_into_exact [of _ "str_bytes text"]) simp_all
  ultimately show ?thesis
    using assms(2,3) f cstr_of_str_bytes [OF assms(3)]
    by (cases "text = []") (simp_all add: read_status_event_def status_event_def l float_abi_def str_bytes_def)
qed

lemma listener_step_frame:
  assumes "gl_listener st = Some s" and "so_in s = reply_bytes A (status_frame i text p) @ rest"
    and "length text < 32" and "CHR 0x00 \<notin> set text" and "float_abi A (gv_float V) p"
    and "length (gv_stack_id V) = 4" and "length (gv_stack_progress V) = 4"
  shows "listener_step V st = push_event (status_event i text p) (st\<lparr>gl_listener := Some (s\<lparr>so_in := rest\<rparr>)\<rparr>)"
proof -
  let ?h = "put_header (of_nat (4 + 4 + 4 + length text)) MSG_STATUS_EVENT"
  let ?s = "s\<lparr>so_in := put_u32 i @ ab_float A p @ put_u32 (of_nat (length text)) @ str_bytes text @ rest\<rparr>"
  have "sock_read 8 s = (Some ?h, ?s)"
    by (rule sock_read_append) (simp_all add: assms(2) status_frame_bytes)
  moreover have "mh_type (header_of_bytes ?h) = Some MSG_STATUS_EVENT" unfolding header_of_put_header by simp
  moreover have "read_status_event V ?s = (status_event i text p, s\<lparr>so_in := rest\<rparr>)"
    using assms(3-7) by (subst read_status_event_frame) simp_all
  ultimately show ?thesis by (simp add: listener_step_def assms(1))
qed

lemma listener_frames:
  assumes "gl_running st" and "gl_listener st = Some s"
    and "so_in s = concat (map (\<lambda>(i, t, p). reply_bytes A (status_frame i t p)) bs) @ rest"
    and "\<And>i t p. (i, t, p) \<in> set bs \<Longrightarrow> length t < 32 \<and> CHR 0x00 \<notin> set t \<and> float_abi A (gv_float V) p"
    and "length (gv_stack_id V) = 4" and "length (gv_stack_progress V) = 4"
  shows "listener_thread_fn V (length bs) st =
    st\<lparr>gl_listener := Some (s\<lparr>so_in := rest\<rparr>),
       gl_queue := fold push_ring (map (\<lambda>(i, t, p). status_event i t p) bs) (gl_queue st)\<rparr>"
  using assms(1-4)
proof (induction bs arbitrary: st s)
  case Nil
  then show ?case by simp
next
  case (Cons b bs)
  obtain i t p where b: "b = (i, t, p)" by (cases b)
  let ?rest = "concat (map (\<lambda>(i, t, p). reply_bytes A (status_frame i t p)) bs) @ rest"
  have "listener_step V st = push_event (status_event i t p) (st\<lparr>gl_listener := Some (s\<lparr>so_in := ?rest\<rparr>)\<rparr>)"
    using Cons.prems assms(5,6) by (intro listener_step_frame [where A = A]) (auto simp: b)
  moreover have "listener_thread_fn V (length bs) (push_event (status_event i t p) (st\<lparr>gl_listener := Some (s\<lparr>so_in := ?rest\<rparr>)\<rparr>)) =
      st\<lparr>gl_listener := Some (s\<lparr>so_in := rest\<rparr>),
         gl_queue := fold push_ring (map (\<lambda>(i, t, p). status_event i t p) (b # bs)) (gl_queue st)\<rparr>"
    using Cons.prems by (subst Cons.IH [of _ "s\<lparr>so_in := ?rest\<rparr>"]) (auto simp: b push_event_def)
  ultimately show ?case using Cons.prems(1) by simp
qed

lemma broadcast_loop_sends:
  "c \<in> set cs \<Longrightarrow> cl_subscribed c \<Longrightarrow> cl_browser_download c \<noteq> i \<Longrightarrow> delivered (cl_fd c) \<Longrightarrow>
   (cl_fd c, frame) \<in> set (fst (broadcast_loop delivered i frame bf cs))"
  by (induction cs) (auto split: prod.splits)

lemma broadcast_sends:
  assumes "c \<in> set (ip_clients ist)" and "cl_subscribed c" and "cl_browser_download c \<noteq> i" and "delivered (cl_fd c)"
    and "length t < 32"
  shows "(cl_fd c, status_frame i t p) \<in> set (fst (ipc_broadcast_status delivered i t p ist))"
  using broadcast_loop_sends [where delivered = delivered, OF assms(1-4)] assms(5)
  by (simp add: ipc_broadcast_status_def status_frame_def IPC_MAX_FRAME_SIZE_def Let_def case_prod_unfold)

lemma broadcast_text_facts:
  assumes "t \<in> fst ` set status_map"
  shows "length t < 32 \<and> CHR 0x00 \<notin> set t \<and> t \<noteq> [] \<and> normalize_status t 16 \<in> range status_to_string"
proof -
  have "normalize_status t 16 \<in> {''ACTIVE'', ''QUEUED'', ''PAUSED'', ''CANCELED'', ''ERROR'', ''DONE''}"
    using assms by (auto simp: normalize_status_def status_map_def)
  moreover have "{''ACTIVE'', ''QUEUED'', ''PAUSED'', ''CANCELED'', ''ERROR'', ''DONE''} \<subseteq> range status_to_string"
    using rangeI [of status_to_string DOWNLOAD_ACTIVE] rangeI [of status_to_string DOWNLOAD_QUEUED]
      rangeI [of status_to_string DOWNLOAD_PAUSED] rangeI [of status_to_string DOWNLOAD_CANCELED]
      rangeI [of status_to_string DOWNLOAD_ERROR] rangeI [of status_to_string DOWNLOAD_DONE]
    by (simp add: status_to_string_def)
  moreover have "length t < 32 \<and> CHR 0x00 \<notin> set t \<and> t \<noteq> []" using assms by (auto simp: status_map_def)
  ultimately show ?thesis by blast
qed

section \<open>The list of downloads\<close>

text \<open>What the list shows of a stored row: the live status and progress when the queue knows it.\<close>

definition row_entry :: "qm_state \<Rightarrow> list_record \<Rightarrow> list_entry" where
  "row_entry q row =
     (let (status, progress) =
            (case queue_manager_get_runtime_snapshot (lr_id row) q of
               Some snap \<Rightarrow> (status_to_string (rs_status snap), snapshot_progress snap)
             | None \<Rightarrow> (lr_status row, 0))
      in \<lparr>le_id = lr_id row, le_url = lr_url row, le_dest_path = lr_dest_path row, le_status = status,
          le_progress = (if status = ''DONE'' then 1 else progress)\<rparr>)"

definition entry_items :: "list_entry \<Rightarrow> wire_item list" where
  "entry_items e = [W32 (le_id e), WString (le_url e), WString (le_dest_path e), WString (le_status e), WFloat (le_progress e)]"

definition entry_fits :: "abi \<Rightarrow> (u8 list \<Rightarrow> rat) \<Rightarrow> list_entry \<Rightarrow> bool" where
  "entry_fits A flt e \<longleftrightarrow> length (le_url e) < 2048 \<and> length (le_dest_path e) < 1024 \<and> length (le_status e) < 16 \<and>
     CHR 0x00 \<notin> set (le_url e) \<and> CHR 0x00 \<notin> set (le_dest_path e) \<and> CHR 0x00 \<notin> set (le_status e) \<and>
     float_abi A flt (le_progress e)"

lemma status_text_fits: "length (status_to_string s) < 16" "CHR 0x00 \<notin> set (status_to_string s)"
  by (cases s; simp add: status_to_string_def)+

lemma send_download_row_items:
  "length (lr_status row) < 16 \<Longrightarrow> send_download_row q row sent = (0, sent @ entry_items (row_entry q row))"
  using status_text_fits by (simp add: send_download_row_def row_entry_def entry_items_def split: option.splits)

lemma visit_rows:
  "\<forall>r \<in> set rs. length (lr_status r) < 16 \<Longrightarrow>
   visit_loop (send_download_row q) rs v sent = (v + int (length rs), sent @ concat (map (\<lambda>r. entry_items (row_entry q r)) rs))"
  by (induction rs arbitrary: v sent) (simp_all add: send_download_row_items)

lemma read_string_local_ok:
  assumes "so_in s = write_string x @ rest" and "CHR 0x00 \<notin> set x" and "length x < max_len" and "max_len \<le> 2 ^ 32"
  shows "read_string_local max_len s = (Some x, s\<lparr>so_in := rest\<rparr>)"
proof -
  have l: "unat (of_nat (length x) :: u32) = length x" using assms by (intro unat_of_nat_small) simp
  have "sock_read 4 s = (Some (put_u32 (of_nat (length x))), s\<lparr>so_in := str_bytes x @ rest\<rparr>)"
    by (rule sock_read_append) (simp_all add: assms write_string_def)
  moreover have "sock_read (length x) (s\<lparr>so_in := str_bytes x @ rest\<rparr>) = (Some (str_bytes x), s\<lparr>so_in := rest\<rparr>)"
    by (subst sock_read_append [of _ "str_bytes x"]) simp_all
  ultimately show ?thesis
    using assms(3) cstr_of_str_bytes [OF assms(2)] by (simp add: read_string_local_def l)
qed

lemma read_record_entry:
  assumes "so_in s = reply_bytes A (entry_items e) @ rest" and "entry_fits A (gv_float V) e"
  shows "read_record V s = (Some e, s\<lparr>so_in := rest\<rparr>)"
proof -
  let ?s = "\<lambda>b. s\<lparr>so_in := b\<rparr>"
  let ?p = "ab_float A (le_progress e) @ rest"
  have "sock_read 4 s = (Some (put_u32 (le_id e)),
      ?s (write_string (le_url e) @ write_string (le_dest_path e) @ write_string (le_status e) @ ?p))"
    by (rule sock_read_append) (simp_all add: assms(1) reply_bytes_def entry_items_def)
  moreover have "read_string_local IPC_MAX_URL_LEN (?s (write_string (le_url e) @ b)) = (Some (le_url e), ?s b)" for b
    using assms(2) by (subst read_string_local_ok) (auto simp: entry_fits_def IPC_MAX_URL_LEN_def)
  moreover have "read_string_local IPC_MAX_PATH_LEN (?s (write_string (le_dest_path e) @ b)) = (Some (le_dest_path e), ?s b)" for b
    using assms(2) by (subst read_string_local_ok) (auto simp: entry_fits_def IPC_MAX_PATH_LEN_def)
  moreover have "read_string_local 16 (?s (write_string (le_status e) @ b)) = (Some (le_status e), ?s b)" for b
    using assms(2) by (subst read_string_local_ok) (auto simp: entry_fits_def)
  moreover have "sock_read 4 (?s ?p) = (Some (ab_float A (le_progress e)), ?s rest)"
    using assms(2) by (subst sock_read_append [of _ "ab_float A (le_progress e)"]) (auto simp: entry_fits_def float_abi_def)
  ultimately show ?thesis using assms(2) by (simp add: read_record_def entry_fits_def float_abi_def)
qed

lemma read_records_entries:
  "so_in s = concat (map (\<lambda>e. reply_bytes A (entry_items e)) es) @ rest \<Longrightarrow> \<forall>e \<in> set es. entry_fits A (gv_float V) e \<Longrightarrow>
   read_records V (length es) s = (Some es, s\<lparr>so_in := rest\<rparr>)"
proof (induction es arbitrary: s)
  case (Cons e es)
  have "read_record V s = (Some e, s\<lparr>so_in := concat (map (\<lambda>e. reply_bytes A (entry_items e)) es) @ rest\<rparr>)"
    using Cons.prems by (intro read_record_entry [where A = A]) simp_all
  with Cons.IH [of "s\<lparr>so_in := concat (map (\<lambda>e. reply_bytes A (entry_items e)) es) @ rest\<rparr>"] Cons.prems show ?case by simp
qed simp

lemma reply_bytes_append [simp]: "reply_bytes A (xs @ ys) = reply_bytes A xs @ reply_bytes A ys"
  by (simp add: reply_bytes_def)

lemma reply_bytes_concat: "reply_bytes A (concat (map f xs)) = concat (map (\<lambda>x. reply_bytes A (f x)) xs)"
  by (induction xs) (simp_all add: reply_bytes_def)

definition demo_gui_env :: gui_env where
  "demo_gui_env = \<lparr>gv_float = (\<lambda>b. of_nat (le_dec b)), gv_alloc = (\<lambda>_. True), gv_printer = demo_printer,
     gv_stack_id = [0, 0, 0, 0], gv_stack_progress = [0, 0, 0, 0], gv_thread = True\<rparr>"

definition quiet_gui_client :: gui_client where
  "quiet_gui_client = \<lparr>gl_cmd = None, gl_listener = None, gl_listener_started = True, gl_running = True,
     gl_was_connected = True, gl_queue = ring_init GUI_EVENT_QUEUE_CAP (plain_event GUI_EVT_CONNECTION_LOST), gl_connects = []\<rparr>"

text \<open>
  C9: Every status the scheduler broadcasts reaches the GUI's queue: the daemon sends its frame to
  each subscribed client, and the listener turns a stream of such frames into one event each, in
  order, with a status from the daemon's own vocabulary; the queue then holds the newest 512 events
  and the stream is left at the next frame.
\<close>

theorem broadcasts_reach_the_gui:
  assumes "gl_running st" and "gl_listener st = Some s" and "ring_wf GUI_EVENT_QUEUE_CAP (gl_queue st)"
    and "so_in s = concat (map (\<lambda>(i, t, p). reply_bytes A (status_frame i t p)) bs) @ rest"
    and texts: "\<forall>(i, t, p) \<in> set bs. t \<in> fst ` set status_map \<and> float_abi A (gv_float V) p"
    and "length (gv_stack_id V) = 4" and "length (gv_stack_progress V) = 4"
    and c: "c \<in> set (ip_clients ist)" "cl_subscribed c" "delivered (cl_fd c)"
  shows "(\<forall>(i, t, p) \<in> set bs. cl_browser_download c \<noteq> i \<longrightarrow>
      (cl_fd c, status_frame i t p) \<in> set (fst (ipc_broadcast_status delivered i t p ist))) \<and>
    ring_list (gl_queue (listener_thread_fn V (length bs) st)) =
      (let all = ring_list (gl_queue st) @ map (\<lambda>(i, t, p). status_event i t p) bs
       in drop (length all - GUI_EVENT_QUEUE_CAP) all) \<and>
    gl_listener (listener_thread_fn V (length bs) st) = Some (s\<lparr>so_in := rest\<rparr>) \<and>
    (\<forall>(i, t, p) \<in> set bs. ge_status (status_event i t p) \<in> range status_to_string)"
proof -
  have t: "length t < 32 \<and> CHR 0x00 \<notin> set t \<and> t \<noteq> [] \<and> normalize_status t 16 \<in> range status_to_string \<and>
      float_abi A (gv_float V) p" if "(i, t, p) \<in> set bs" for i t p
    using texts that broadcast_text_facts [of t] by blast
  have run: "listener_thread_fn V (length bs) st = st\<lparr>gl_listener := Some (s\<lparr>so_in := rest\<rparr>),
      gl_queue := fold push_ring (map (\<lambda>(i, t, p). status_event i t p) bs) (gl_queue st)\<rparr>"
    using assms(1,2,4) t assms(6,7) by (intro listener_frames) blast+
  have "rg_count (gl_queue st) \<le> GUI_EVENT_QUEUE_CAP" using assms(3) by (simp add: ring_wf_def)
  then have "ring_list (gl_queue st) = drop (length (ring_list (gl_queue st)) - GUI_EVENT_QUEUE_CAP) (ring_list (gl_queue st))"
    by simp
  from push_many [OF assms(3) this, of "map (\<lambda>(i, t, p). status_event i t p) bs"] run t
  show ?thesis using broadcast_sends [where delivered = delivered, OF c(1,2) _ c(3)] by (auto simp: status_event_def)
qed

theorem broadcasts_reach_the_gui_witness:
  "\<exists>s. let st = quiet_gui_client\<lparr>gl_listener := Some s\<rparr>
       in map ge_status (ring_list (gl_queue (listener_thread_fn demo_gui_env 1 st))) = [''DONE''] \<and>
          gl_listener (listener_thread_fn demo_gui_env 1 st) = Some (s\<lparr>so_in := []\<rparr>)"
proof -
  let ?A = "\<lparr>ab_float = (\<lambda>r. put_u32 (word_of_int \<lfloor>r\<rfloor>)), ab_offer = (\<lambda>_. []), ab_progress = (\<lambda>_. [])\<rparr> :: abi"
  let ?s = "\<lparr>so_in = reply_bytes ?A (status_frame 4 ''Done'' 1), so_out = [], so_writes = 0\<rparr>"
  let ?st = "quiet_gui_client\<lparr>gl_listener := Some ?s\<rparr>"
  let ?c = "\<lparr>cl_fd = 3, cl_subscribed = True, cl_browser_download = 0, cl_header = []\<rparr> :: client"
  have "float_abi ?A (gv_float demo_gui_env) 1" by (simp add: float_abi_def demo_gui_env_def)
  then have "ring_list (gl_queue (listener_thread_fn demo_gui_env 1 ?st)) = [status_event 4 ''Done'' 1] \<and>
      gl_listener (listener_thread_fn demo_gui_env 1 ?st) = Some (?s\<lparr>so_in := []\<rparr>)"
    using broadcasts_reach_the_gui [of ?st ?s ?A "[(4, ''Done'', 1)]" "[]" demo_gui_env ?c
        "demo_ipc\<lparr>ip_clients := [?c]\<rparr>" "\<lambda>_. True"]
    by (simp add: quiet_gui_client_def demo_gui_env_def GUI_EVENT_QUEUE_CAP_def status_map_def)
  then show ?thesis
    by (intro exI [of _ ?s]) (simp add: Let_def status_event_def normalize_status_def status_map_def)
qed

text \<open>
  A refused command costs the connection: when the daemon answers both attempts with any result
  but OK, the client closes the socket it used, opens another one, asks again, closes that one too
  and reports the connection as lost, although every answer arrived.
\<close>

lemma refused_command_drops_connection:
  assumes "gl_cmd st = Some s" and "gl_connects st = Some s' # conns" and "gl_was_connected st"
    and "r \<noteq> IPC_RESULT_OK" and "r' \<noteq> IPC_RESULT_OK"
    and "so_in s = reply_bytes A (send_command_result r)" and "so_in s' = reply_bytes A (send_command_result r')"
    and "2 \<le> so_writes s" and "2 \<le> so_writes s'"
  shows "gui_client_pause i st =
    (False, st\<lparr>gl_cmd := None, gl_connects := conns, gl_was_connected := False,
      gl_queue := push_ring (plain_event GUI_EVT_CONNECTION_LOST) (gl_queue st)\<rparr>)"
proof -
  have "s\<lparr>so_in := reply_bytes A (send_command_result r)\<rparr> = s" "s'\<lparr>so_in := reply_bytes A (send_command_result r')\<rparr> = s'"
    unfolding assms(6,7) [symmetric] by simp_all
  then have "fst (ipc_send_pause i s) = -1" "fst (ipc_send_pause i s') = -1"
    using id_command_answer [OF assms(8), of MSG_PAUSE i A r] id_command_answer [OF assms(9), of MSG_PAUSE i A r'] assms(4,5)
    unfolding ipc_send_pause_def by simp_all
  then show ?thesis
    using assms(1-3)
    by (simp add: gui_client_pause_def send_with_retry_def numeral_2_eq_2 connect_attempt_def note_restored_def note_lost_def
        push_event_def case_prod_unfold)
qed

text \<open>
  The list round trip. What the daemon answers to \<open>MSG_LIST_ALL\<close> the GUI reads back exactly: the
  newest 200 stored rows, newest first, each with the live status and progress when the queue holds
  it and the stored status otherwise, and no byte of the answer is left over.
\<close>

lemma list_reaches_the_gui:
  assumes db: "db_ready (ip_db st)" "ie_sql E StCount = Runs" "ie_sql E StList = Runs"
    and es: "es = map (\<lambda>r. row_entry (ip_q st) (list_row r)) (take 200 (rev (t_downloads (ip_db st))))"
    and fits: "\<forall>e \<in> set es. entry_fits A (gv_float V) e" and alloc: "gv_alloc V (int (length es))"
    and g: "gl_cmd g = Some s" "1 \<le> so_writes s" "so_in s = reply_bytes A (fst (handle_list_all E fd 0 b st))"
  shows "gui_client_list_all V g =
    (Some es, g\<lparr>gl_cmd := Some (s\<lparr>so_in := [], so_out := so_out s @ put_header 0 MSG_LIST_ALL, so_writes := so_writes s - 1\<rparr>)\<rparr>)"
proof -
  let ?rows = "map list_row (take 200 (rev (t_downloads (ip_db st))))"
  have n: "length es \<le> 200" "length es = length ?rows" by (simp_all add: es)
  have c: "db_count_downloads (ie_sql E) IPC_LIST_ALL_MAX (ip_db st) = int (length es)"
    using db by (simp add: db_count_downloads_def rows_of_def IPC_LIST_ALL_MAX_def es min_def)
  have "\<forall>r \<in> set ?rows. length (lr_status r) < 16"
    using length_strncpy_buf by (auto simp: list_row_def)
  from visit_rows [OF this] have v: "snd (db_visit_downloads (ie_sql E) (send_download_row (ip_q st)) sent IPC_LIST_ALL_MAX (ip_db st)) =
      sent @ concat (map entry_items es)" for sent
    using db by (simp add: db_visit_downloads_def IPC_LIST_ALL_MAX_def rows_of_def es comp_def)
  have "fst (handle_list_all E fd 0 b st) = W32 (of_nat (length es)) # concat (map entry_items es)"
    by (simp add: handle_list_all_def c v)
  then have input: "so_in s = put_u32 (of_nat (length es)) @ concat (map (\<lambda>e. reply_bytes A (entry_items e)) es) @ []"
    unfolding g(3) using reply_bytes_append [of A "[W32 (of_nat (length es))]" "concat (map entry_items es)"]
    by (simp add: reply_bytes_concat) (simp add: reply_bytes_def)
  define s1 where "s1 = s\<lparr>so_out := so_out s @ put_header 0 MSG_LIST_ALL, so_writes := so_writes s - 1\<rparr>"
  have w: "sock_write (put_header 0 MSG_LIST_ALL) s = (True, s1)" using g(2) by (simp add: sock_write_def s1_def)
  have r: "sock_read 4 s1 = (Some (put_u32 (of_nat (length es))), s1\<lparr>so_in := concat (map (\<lambda>e. reply_bytes A (entry_items e)) es) @ []\<rparr>)"
    by (rule sock_read_append) (simp_all add: input s1_def)
  have l: "sint (of_nat (length es) :: u32) = int (length es)"
    using n(1) as_int_id [of "int (length es)"] by (simp add: as_int_def)
  have "s1\<lparr>so_in := []\<rparr> = s\<lparr>so_in := [], so_out := so_out s @ put_header 0 MSG_LIST_ALL, so_writes := so_writes s - 1\<rparr>"
    by (simp add: s1_def)
  then show ?thesis
    using alloc read_records_entries [where V = V and A = A and es = es and rest = "[]" and
        s = "s1\<lparr>so_in := concat (map (\<lambda>e. reply_bytes A (entry_items e)) es) @ []\<rparr>"] fits
    by (auto simp: gui_client_list_all_def ensure_cmd_def g(1) w r l Let_def)
qed

end
