(* ===== verification/Gui_Controller.thy ===== *)
theory Gui_Controller
  imports Gui_Client
begin

text \<open>
  \<open>src/gui/gui_controller.c\<close>: the thread between the user interface and the daemon. The interface
  enqueues commands, the controller carries them out and publishes events; both queues are rings
  that refuse when full. A command's option pointers point into the ring slot it was stored in, so
  the model keeps the slot (\<open>gc_home\<close>) and reads the options through it.
\<close>

definition GUI_CONTROLLER_EVENT_CAP :: nat where
  "GUI_CONTROLLER_EVENT_CAP = 256"

definition GUI_CONTROLLER_COMMAND_CAP :: nat where
  "GUI_CONTROLLER_COMMAND_CAP = 64"

definition GUI_CONTROLLER_REFRESH_MS :: int where
  "GUI_CONTROLLER_REFRESH_MS = 2000"

definition GUI_CONTROLLER_MAX_ROWS :: nat where
  "GUI_CONTROLLER_MAX_ROWS = 256"

datatype gui_command_type =
  GUI_CONTROLLER_COMMAND_ADD | GUI_CONTROLLER_COMMAND_PAUSE | GUI_CONTROLLER_COMMAND_RESUME |
  GUI_CONTROLLER_COMMAND_CANCEL | GUI_CONTROLLER_COMMAND_DETAILS

datatype gui_operation =
  GUI_CONTROLLER_OPERATION_ADD | GUI_CONTROLLER_OPERATION_PAUSE | GUI_CONTROLLER_OPERATION_RESUME |
  GUI_CONTROLLER_OPERATION_CANCEL

text \<open>The tagged union of events.\<close>

datatype gui_controller_event =
  GUI_CONTROLLER_EVENT_OPERATION gui_operation u32 string string bool
| GUI_CONTROLLER_EVENT_STATUS u32 string rat
| GUI_CONTROLLER_EVENT_SNAPSHOT "list_entry list"
| GUI_CONTROLLER_EVENT_DETAILS u32 bool request_options
| GUI_CONTROLLER_EVENT_CONNECTION bool
| GUI_CONTROLLER_EVENT_ERROR string

text \<open>
  A command with its own buffers. \<open>gc_has_*\<close>: the pointer of \<open>options\<close> is not NULL; all of them
  point into the same command, the local one (\<open>gc_home = None\<close>) or a slot of the ring.
\<close>

record gui_command =
  gc_type :: gui_command_type
  gc_id :: u32
  gc_url :: string
  gc_dest_path :: string
  gc_has_cookie :: bool
  gc_has_referrer :: bool
  gc_has_extra_headers :: bool
  gc_has_expected_sha256 :: bool
  gc_speed_limit_bps :: u64
  gc_home :: "nat option"
  gc_cookie :: string
  gc_referrer :: string
  gc_extra_headers :: string
  gc_expected_sha256 :: string

definition zero_command :: "gui_command_type \<Rightarrow> u32 \<Rightarrow> gui_command" where
  "zero_command t i = \<lparr>gc_type = t, gc_id = i, gc_url = [], gc_dest_path = [], gc_has_cookie = False,
     gc_has_referrer = False, gc_has_extra_headers = False, gc_has_expected_sha256 = False,
     gc_speed_limit_bps = 0, gc_home = None, gc_cookie = [], gc_referrer = [], gc_extra_headers = [],
     gc_expected_sha256 = []\<rparr>"

record gui =
  gu_events :: "gui_controller_event ring"
  gu_commands :: "gui_command ring"
  gu_running :: bool
  gu_thread_started :: bool
  gu_client :: gui_client

section \<open>The rings\<close>

definition gui_controller_init :: "gui \<Rightarrow> gui" where
  "gui_controller_init st =
     st\<lparr>gu_events := (gu_events st)\<lparr>rg_head := 0, rg_tail := 0, rg_count := 0\<rparr>,
        gu_commands := (gu_commands st)\<lparr>rg_head := 0, rg_tail := 0, rg_count := 0\<rparr>\<rparr>"

definition gui_controller_publish :: "gui_controller_event \<Rightarrow> gui_controller_event ring \<Rightarrow> bool \<times> gui_controller_event ring" where
  "gui_controller_publish event q =
     (if rg_count q = GUI_CONTROLLER_EVENT_CAP then (False, q)
      else (True, ring_put GUI_CONTROLLER_EVENT_CAP event q))"

definition gui_controller_poll :: "gui_controller_event ring \<Rightarrow> gui_controller_event option \<times> gui_controller_event ring" where
  "gui_controller_poll q = ring_poll GUI_CONTROLLER_EVENT_CAP q"

definition enqueue_command :: "gui_command \<Rightarrow> gui_command ring \<Rightarrow> bool \<times> gui_command ring" where
  "enqueue_command command q =
     (if rg_count q = GUI_CONTROLLER_COMMAND_CAP then (False, q)
      else (True, ring_put GUI_CONTROLLER_COMMAND_CAP (command\<lparr>gc_home := Some (rg_tail q)\<rparr>) q))"

definition dequeue_command :: "gui_command ring \<Rightarrow> gui_command option \<times> gui_command ring" where
  "dequeue_command q = ring_poll GUI_CONTROLLER_COMMAND_CAP q"

text \<open>\<open>gui_controller_enqueue_add\<close> builds the command; the options may be NULL.\<close>

definition opt_text :: "nat \<Rightarrow> string option \<Rightarrow> string" where
  "opt_text n v = (case v of None \<Rightarrow> [] | Some t \<Rightarrow> strncpy_buf n t)"

definition add_command :: "string \<Rightarrow> string \<Rightarrow> ipc_options option \<Rightarrow> gui_command" where
  "add_command url dest_path options =
     (let c = (zero_command GUI_CONTROLLER_COMMAND_ADD 0)\<lparr>gc_url := strncpy_buf IPC_MAX_URL_LEN url,
                gc_dest_path := strncpy_buf IPC_MAX_PATH_LEN dest_path\<rparr>
      in case options of
           None \<Rightarrow> c
         | Some o' \<Rightarrow>
             c\<lparr>gc_has_cookie := io_cookie o' \<noteq> None, gc_has_referrer := io_referrer o' \<noteq> None,
               gc_has_extra_headers := io_extra_headers o' \<noteq> None,
               gc_has_expected_sha256 := io_expected_sha256 o' \<noteq> None,
               gc_speed_limit_bps := io_speed_limit_bps o',
               gc_cookie := opt_text 1024 (io_cookie o'), gc_referrer := opt_text 2048 (io_referrer o'),
               gc_extra_headers := opt_text 4096 (io_extra_headers o'),
               gc_expected_sha256 := opt_text 65 (io_expected_sha256 o')\<rparr>)"

definition gui_controller_enqueue_add :: "string \<Rightarrow> string \<Rightarrow> ipc_options option \<Rightarrow> gui_command ring \<Rightarrow> bool \<times> gui_command ring" where
  "gui_controller_enqueue_add url dest_path options q = enqueue_command (add_command url dest_path options) q"

definition enqueue_id_command :: "gui_command_type \<Rightarrow> u32 \<Rightarrow> gui_command ring \<Rightarrow> bool \<times> gui_command ring" where
  "enqueue_id_command t i q = enqueue_command (zero_command t i) q"

definition gui_controller_enqueue_pause :: "u32 \<Rightarrow> gui_command ring \<Rightarrow> bool \<times> gui_command ring" where
  "gui_controller_enqueue_pause i q = enqueue_id_command GUI_CONTROLLER_COMMAND_PAUSE i q"

definition gui_controller_enqueue_resume :: "u32 \<Rightarrow> gui_command ring \<Rightarrow> bool \<times> gui_command ring" where
  "gui_controller_enqueue_resume i q = enqueue_id_command GUI_CONTROLLER_COMMAND_RESUME i q"

definition gui_controller_enqueue_cancel :: "u32 \<Rightarrow> gui_command ring \<Rightarrow> bool \<times> gui_command ring" where
  "gui_controller_enqueue_cancel i q = enqueue_id_command GUI_CONTROLLER_COMMAND_CANCEL i q"

definition gui_controller_enqueue_details :: "u32 \<Rightarrow> gui_command ring \<Rightarrow> bool \<times> gui_command ring" where
  "gui_controller_enqueue_details i q = enqueue_id_command GUI_CONTROLLER_COMMAND_DETAILS i q"

section \<open>Publishing\<close>

definition publish :: "gui_controller_event \<Rightarrow> gui \<Rightarrow> gui" where
  "publish event st = st\<lparr>gu_events := snd (gui_controller_publish event (gu_events st))\<rparr>"

definition publish_operation :: "gui_operation \<Rightarrow> u32 \<Rightarrow> string option \<Rightarrow> string option \<Rightarrow> bool \<Rightarrow> gui \<Rightarrow> gui" where
  "publish_operation operation i url dest_path succeeded st =
     publish (GUI_CONTROLLER_EVENT_OPERATION operation i (opt_text IPC_MAX_URL_LEN url)
                (opt_text IPC_MAX_PATH_LEN dest_path) succeeded) st"

definition publish_snapshot :: "gui_env \<Rightarrow> gui \<Rightarrow> gui" where
  "publish_snapshot V st =
     (case gui_client_list_all V (gu_client st) of
        (None, c) \<Rightarrow> st\<lparr>gu_client := c\<rparr>
      | (Some records, c) \<Rightarrow>
          publish (GUI_CONTROLLER_EVENT_SNAPSHOT (take GUI_CONTROLLER_MAX_ROWS records)) (st\<lparr>gu_client := c\<rparr>))"

definition publish_error :: "string \<Rightarrow> gui \<Rightarrow> gui" where
  "publish_error message st = publish (GUI_CONTROLLER_EVENT_ERROR (strncpy_buf 256 message)) st"

definition controller_event :: "gui_client_event \<Rightarrow> gui_controller_event" where
  "controller_event e =
     (if ge_type e = GUI_EVT_STATUS_UPDATE
      then GUI_CONTROLLER_EVENT_STATUS (ge_download_id e) (strncpy_buf 16 (ge_status e)) (ge_progress e)
      else GUI_CONTROLLER_EVENT_CONNECTION (ge_type e = GUI_EVT_CONNECTION_RESTORED))"

function publish_client_events :: "gui \<Rightarrow> gui" where
  "publish_client_events st =
     (case gui_client_poll_event (gu_client st) of
        (None, c) \<Rightarrow> st\<lparr>gu_client := c\<rparr>
      | (Some e, c) \<Rightarrow> publish_client_events (publish (controller_event e) (st\<lparr>gu_client := c\<rparr>)))"
  by pat_completeness auto
termination
  by (relation "measure (\<lambda>st. rg_count (gl_queue (gu_client st)))")
     (auto simp: gui_client_poll_event_def ring_poll_def ring_drop_def publish_def split: if_splits prod.splits)

declare publish_client_events.simps [simp del]

section \<open>Carrying out commands\<close>

text \<open>The command whose buffers the option pointers reach.\<close>

definition pointee :: "gui_command ring \<Rightarrow> gui_command \<Rightarrow> gui_command" where
  "pointee q command = (case gc_home command of None \<Rightarrow> command | Some k \<Rightarrow> rg_slots q ! k)"

definition command_options :: "gui_command ring \<Rightarrow> gui_command \<Rightarrow> ipc_options option" where
  "command_options q command =
     (if gc_has_cookie command \<or> gc_has_referrer command \<or> gc_has_extra_headers command \<or>
         gc_has_expected_sha256 command \<or> gc_speed_limit_bps command > 0
      then Some
        \<lparr>io_cookie = (if gc_has_cookie command then Some (gc_cookie (pointee q command)) else None),
         io_referrer = (if gc_has_referrer command then Some (gc_referrer (pointee q command)) else None),
         io_extra_headers = (if gc_has_extra_headers command then Some (gc_extra_headers (pointee q command)) else None),
         io_expected_sha256 = (if gc_has_expected_sha256 command then Some (gc_expected_sha256 (pointee q command)) else None),
         io_speed_limit_bps = gc_speed_limit_bps command\<rparr>
      else None)"

definition zero_details :: request_options where
  "zero_details = \<lparr>ro_cookie = [], ro_referrer = [], ro_extra_headers = [], ro_expected_sha256 = [], ro_speed_limit_bps = 0\<rparr>"

text \<open>The common end of pause, resume and cancel.\<close>

definition report_command :: "gui_operation \<Rightarrow> u32 \<Rightarrow> bool \<times> gui_client \<Rightarrow> gui \<Rightarrow> gui" where
  "report_command operation i result st =
     (case result of
        (succeeded, c) \<Rightarrow>
          let st1 = publish_operation operation i None None succeeded (st\<lparr>gu_client := c\<rparr>)
          in if succeeded then st1 else publish_error ''Download operation failed'' st1)"

definition process_command :: "gui_env \<Rightarrow> gui_command \<Rightarrow> gui \<Rightarrow> gui" where
  "process_command V command st =
     (case gc_type command of
        GUI_CONTROLLER_COMMAND_ADD \<Rightarrow>
          (case gui_client_add_download V (gc_url command) (gc_dest_path command)
                  (command_options (gu_commands st) command) (gu_client st) of
             ((succeeded, i), c) \<Rightarrow>
               let st1 = publish_operation GUI_CONTROLLER_OPERATION_ADD i (Some (gc_url command))
                           (Some (gc_dest_path command)) succeeded (st\<lparr>gu_client := c\<rparr>)
               in if succeeded then st1 else publish_error ''Download could not be added'' st1)
      | GUI_CONTROLLER_COMMAND_PAUSE \<Rightarrow>
          report_command GUI_CONTROLLER_OPERATION_PAUSE (gc_id command) (gui_client_pause (gc_id command) (gu_client st)) st
      | GUI_CONTROLLER_COMMAND_RESUME \<Rightarrow>
          report_command GUI_CONTROLLER_OPERATION_RESUME (gc_id command) (gui_client_resume (gc_id command) (gu_client st)) st
      | GUI_CONTROLLER_COMMAND_CANCEL \<Rightarrow>
          report_command GUI_CONTROLLER_OPERATION_CANCEL (gc_id command) (gui_client_cancel (gc_id command) (gu_client st)) st
      | GUI_CONTROLLER_COMMAND_DETAILS \<Rightarrow>
          (case gui_client_get_details (gc_id command) (gu_client st) of
             (r, c) \<Rightarrow>
               let st1 = publish (GUI_CONTROLLER_EVENT_DETAILS (gc_id command) (r \<noteq> None)
                           (case r of None \<Rightarrow> zero_details | Some d \<Rightarrow> d)) (st\<lparr>gu_client := c\<rparr>)
               in if r = None then publish_error ''Download details are unavailable'' st1 else st1))"

lemma publish_frame [simp]:
  "gu_commands (publish e st) = gu_commands st" "gu_client (publish e st) = gu_client st" "gu_running (publish e st) = gu_running st"
  by (simp_all add: publish_def)

lemma publish_error_frame [simp]:
  "gu_commands (publish_error m st) = gu_commands st" "gu_client (publish_error m st) = gu_client st"
  by (simp_all add: publish_error_def)

lemma publish_operation_frame [simp]:
  "gu_commands (publish_operation p i u d b st) = gu_commands st" "gu_client (publish_operation p i u d b st) = gu_client st"
  by (simp_all add: publish_operation_def)

lemma process_command_commands [simp]: "gu_commands (process_command V c st) = gu_commands st"
  by (auto simp: process_command_def report_command_def Let_def split: gui_command_type.splits prod.splits)

function run_commands :: "gui_env \<Rightarrow> gui \<Rightarrow> gui" where
  "run_commands V st =
     (case dequeue_command (gu_commands st) of
        (None, q) \<Rightarrow> st\<lparr>gu_commands := q\<rparr>
      | (Some c, q) \<Rightarrow> run_commands V (process_command V c (st\<lparr>gu_commands := q\<rparr>)))"
  by pat_completeness auto
termination
  by (relation "measure (\<lambda>(V, st). rg_count (gu_commands st))")
     (auto simp: dequeue_command_def ring_poll_def ring_drop_def split: if_splits)

declare run_commands.simps [simp del]

text \<open>One round of the thread's loop, with the milliseconds since the last refresh.\<close>

definition controller_round :: "gui_env \<Rightarrow> int \<times> gui \<Rightarrow> int \<times> gui" where
  "controller_round V x =
     (case x of
        (refresh_elapsed, st) \<Rightarrow>
          let st1 = publish_client_events st;
              (elapsed, st2) = (if refresh_elapsed \<ge> GUI_CONTROLLER_REFRESH_MS then (0, publish_snapshot V st1)
                                else (refresh_elapsed, st1))
          in (elapsed + 50, run_commands V st2))"

primrec controller_loop :: "gui_env \<Rightarrow> nat \<Rightarrow> int \<times> gui \<Rightarrow> int \<times> gui" where
  "controller_loop V 0 x = x"
| "controller_loop V (Suc n) x = (if gu_running (snd x) then controller_loop V n (controller_round V x) else x)"

definition controller_thread_fn :: "gui_env \<Rightarrow> nat \<Rightarrow> gui \<Rightarrow> gui" where
  "controller_thread_fn V n st = snd (controller_loop V n (GUI_CONTROLLER_REFRESH_MS, st))"

definition gui_controller_start :: "gui_env \<Rightarrow> gui \<Rightarrow> bool \<times> gui" where
  "gui_controller_start V st =
     (let st1 = (gui_controller_init st)\<lparr>gu_running := True\<rparr>
      in if \<not> gv_thread V then (False, st1\<lparr>gu_running := False\<rparr>) else (True, st1\<lparr>gu_thread_started := True\<rparr>))"

definition gui_controller_stop :: "gui \<Rightarrow> gui" where
  "gui_controller_stop st = st\<lparr>gu_running := False, gu_thread_started := False\<rparr>"

definition gui_controller_shutdown :: "gui \<Rightarrow> gui" where
  "gui_controller_shutdown st = gui_controller_stop st"

section \<open>The rings are queues\<close>

interpretation controller_events: queue_refinement "ring_wf GUI_CONTROLLER_EVENT_CAP" ring_list
  gui_controller_publish gui_controller_poll "list_push GUI_CONTROLLER_EVENT_CAP"
proof
  fix q q' :: "gui_controller_event ring" and x b
  assume "ring_wf GUI_CONTROLLER_EVENT_CAP q" and "gui_controller_publish x q = (b, q')"
  then show "ring_wf GUI_CONTROLLER_EVENT_CAP q' \<and> list_push GUI_CONTROLLER_EVENT_CAP x (ring_list q) = (b, ring_list q')"
    unfolding gui_controller_publish_def by (rule ring_push_refines)
next
  fix q q' :: "gui_controller_event ring" and r
  assume "ring_wf GUI_CONTROLLER_EVENT_CAP q" and "gui_controller_poll q = (r, q')"
  then show "ring_wf GUI_CONTROLLER_EVENT_CAP q' \<and> list_poll (ring_list q) = (r, ring_list q')"
    unfolding gui_controller_poll_def by (rule ring_poll_refines)
qed

text \<open>For the commands the queue is one of commands without their slots.\<close>

definition detach :: "gui_command \<Rightarrow> gui_command" where
  "detach c = c\<lparr>gc_home := None\<rparr>"

definition dequeue_detached :: "gui_command ring \<Rightarrow> gui_command option \<times> gui_command ring" where
  "dequeue_detached q = (case dequeue_command q of (c, q') \<Rightarrow> (map_option detach c, q'))"

lemma list_push_map: "list_push cap x xs = (b, ys) \<Longrightarrow> list_push cap (f x) (map f xs) = (b, map f ys)"
  by (auto simp: list_push_def split: if_splits)

lemma list_poll_map: "list_poll xs = (r, ys) \<Longrightarrow> list_poll (map f xs) = (map_option f r, map f ys)"
  by (cases xs) auto

interpretation controller_commands: queue_refinement "ring_wf GUI_CONTROLLER_COMMAND_CAP" "\<lambda>q. map detach (ring_list q)"
  enqueue_command dequeue_detached "\<lambda>c. list_push GUI_CONTROLLER_COMMAND_CAP (detach c)"
proof
  fix q q' :: "gui_command ring" and c b
  assume wf: "ring_wf GUI_CONTROLLER_COMMAND_CAP q" and e: "enqueue_command c q = (b, q')"
  have "detach (c\<lparr>gc_home := Some (rg_tail q)\<rparr>) = detach c" by (simp add: detach_def)
  then show "ring_wf GUI_CONTROLLER_COMMAND_CAP q' \<and>
      list_push GUI_CONTROLLER_COMMAND_CAP (detach c) (map detach (ring_list q)) = (b, map detach (ring_list q'))"
    using ring_push_refines [OF wf e [unfolded enqueue_command_def]]
      list_push_map [where f = detach and x = "c\<lparr>gc_home := Some (rg_tail q)\<rparr>"] by metis
next
  fix q q' :: "gui_command ring" and r
  assume wf: "ring_wf GUI_CONTROLLER_COMMAND_CAP q" and e: "dequeue_detached q = (r, q')"
  then obtain c where "dequeue_command q = (c, q')" and "r = map_option detach c"
    by (auto simp: dequeue_detached_def split: prod.splits)
  then show "ring_wf GUI_CONTROLLER_COMMAND_CAP q' \<and> list_poll (map detach (ring_list q)) = (r, map detach (ring_list q'))"
    using ring_poll_refines [OF wf, of c q'] list_poll_map [where f = detach and xs = "ring_list q" and r = c and ys = "ring_list q'"]
    by (simp add: dequeue_command_def)
qed

section \<open>Slots and their reuse\<close>

definition enqueue_all :: "gui_command list \<Rightarrow> gui_command ring \<Rightarrow> gui_command ring" where
  "enqueue_all cs q = fold (\<lambda>c q. snd (enqueue_command c q)) cs q"

lemma enqueue_all_snoc: "enqueue_all (cs @ [c]) q = snd (enqueue_command c (enqueue_all cs q))"
  by (simp add: enqueue_all_def)

text \<open>The slot just before the head is the one a poll has freed; puts reach it last.\<close>

lemma ring_put_keeps_slot:
  assumes "ring_wf cap q" and "h = (rg_head q + (cap - 1)) mod cap" and "rg_count q < cap - 1"
  shows "rg_slots (ring_put cap x q) ! h = rg_slots q ! h"
proof -
  have "rg_tail q \<noteq> h"
    using offset_inj [of "rg_head q" "rg_count q" cap "cap - 1"] assms by (auto simp: ring_wf_def)
  then show ?thesis by (simp add: ring_put_def)
qed

lemma ring_put_frame [simp]: "rg_head (ring_put cap x q) = rg_head q" "rg_count (ring_put cap x q) = rg_count q + 1"
  by (simp_all add: ring_put_def)

lemma enqueue_keeps_slot:
  assumes "ring_wf GUI_CONTROLLER_COMMAND_CAP q" and "h = (rg_head q + 63) mod 64" and "rg_count q + length cs \<le> 63"
  shows "rg_slots (enqueue_all cs q) ! h = rg_slots q ! h \<and> ring_wf GUI_CONTROLLER_COMMAND_CAP (enqueue_all cs q) \<and>
    rg_head (enqueue_all cs q) = rg_head q \<and> rg_count (enqueue_all cs q) = rg_count q + length cs"
  using assms
proof (induction cs arbitrary: q)
  case Nil
  then show ?case by (simp add: enqueue_all_def)
next
  case (Cons c cs)
  define q1 where "q1 = ring_put GUI_CONTROLLER_COMMAND_CAP (c\<lparr>gc_home := Some (rg_tail q)\<rparr>) q"
  have e: "enqueue_all (c # cs) q = enqueue_all cs q1"
    using Cons.prems(3) by (simp add: enqueue_all_def enqueue_command_def q1_def GUI_CONTROLLER_COMMAND_CAP_def)
  have "ring_wf GUI_CONTROLLER_COMMAND_CAP q1"
    using Cons.prems unfolding q1_def by (intro ring_put_wf) (simp_all add: GUI_CONTROLLER_COMMAND_CAP_def)
  moreover have "rg_slots q1 ! h = rg_slots q ! h"
    unfolding q1_def using Cons.prems by (intro ring_put_keeps_slot) (simp_all add: GUI_CONTROLLER_COMMAND_CAP_def)
  moreover have "rg_head q1 = rg_head q" "rg_count q1 = rg_count q + 1" by (simp_all add: q1_def)
  ultimately show ?case using Cons.IH [of q1] Cons.prems by (simp add: e)
qed

section \<open>Properties\<close>

text \<open>
  C10: The three rings of the GUI are queues: whatever sequence of pushes and polls runs on them, each
  answers as a list would, the controller's two refusing what exceeds their capacity (256 events,
  64 commands) and the client's dropping the oldest of 512.
\<close>

theorem rings_refine_queues:
  "fst (run_queue gui_controller_publish gui_controller_poll evs (ring_init GUI_CONTROLLER_EVENT_CAP z1)) =
     fst (run_queue (list_push GUI_CONTROLLER_EVENT_CAP) list_poll evs []) \<and>
   fst (run_queue enqueue_command dequeue_detached cmds (ring_init GUI_CONTROLLER_COMMAND_CAP z2)) =
     fst (run_queue (\<lambda>c. list_push GUI_CONTROLLER_COMMAND_CAP (detach c)) list_poll cmds []) \<and>
   fst (run_queue (\<lambda>e q. (True, push_ring e q)) (ring_poll GUI_EVENT_QUEUE_CAP) ces (ring_init GUI_EVENT_QUEUE_CAP z3)) =
     fst (run_queue (lossy_push GUI_EVENT_QUEUE_CAP) list_poll ces [])"
proof (intro conjI)
  let ?q1 = "ring_init GUI_CONTROLLER_EVENT_CAP z1" and ?q2 = "ring_init GUI_CONTROLLER_COMMAND_CAP z2"
    and ?q3 = "ring_init GUI_EVENT_QUEUE_CAP z3"
  have wf: "ring_wf GUI_CONTROLLER_EVENT_CAP ?q1" "ring_wf GUI_CONTROLLER_COMMAND_CAP ?q2" "ring_wf GUI_EVENT_QUEUE_CAP ?q3"
    by (simp_all add: GUI_CONTROLLER_EVENT_CAP_def GUI_CONTROLLER_COMMAND_CAP_def GUI_EVENT_QUEUE_CAP_def)
  show "fst (run_queue gui_controller_publish gui_controller_poll evs ?q1) =
      fst (run_queue (list_push GUI_CONTROLLER_EVENT_CAP) list_poll evs [])"
    using controller_events.run_refines [OF wf(1), of evs] by (metis fst_conv prod.collapse ring_list_init)
  show "fst (run_queue enqueue_command dequeue_detached cmds ?q2) =
      fst (run_queue (\<lambda>c. list_push GUI_CONTROLLER_COMMAND_CAP (detach c)) list_poll cmds [])"
    using controller_commands.run_refines [OF wf(2), of cmds] by (metis fst_conv prod.collapse ring_list_init list.simps(8))
  show "fst (run_queue (\<lambda>e q. (True, push_ring e q)) (ring_poll GUI_EVENT_QUEUE_CAP) ces ?q3) =
      fst (run_queue (lossy_push GUI_EVENT_QUEUE_CAP) list_poll ces [])"
    using client_events.run_refines [OF wf(3), of ces] by (metis fst_conv prod.collapse ring_list_init)
qed

text \<open>
  A command taken from the queue still reads its options from the slot it came from. They are the
  ones that were enqueued as long as the freed slot is not reached again, that is for up to 64 minus
  the queue's length further commands; the next one overwrites them, so that an add that was waiting
  in a full queue is then sent without its checksum.
\<close>

lemma dequeued_options_share_the_slot:
  assumes wf: "ring_wf GUI_CONTROLLER_COMMAND_CAP q" and deq: "dequeue_command q = (Some c, q1)"
    and home: "gc_home c = Some (rg_head q)" and len: "rg_count q + length cs = 64"
  shows "command_options (enqueue_all cs q1) c = command_options q1 (detach c) \<and>
    (gc_has_expected_sha256 c \<longrightarrow>
       map_option io_expected_sha256 (command_options (enqueue_all (cs @ [zero_command t i]) q1) c) = Some (Some []) \<and>
       json_member ''expected_sha256'' (Some []) = [])"
proof -
  have pos: "0 < rg_count q" and q1: "q1 = ring_drop GUI_CONTROLLER_COMMAND_CAP q" and c: "c = rg_slots q ! rg_head q"
    using deq by (auto simp: dequeue_command_def ring_poll_def split: if_splits)
  have wf1: "ring_wf GUI_CONTROLLER_COMMAND_CAP q1" unfolding q1 by (rule ring_drop_wf [OF wf pos])
  have h: "rg_head q = (rg_head q1 + 63) mod 64" "rg_count q1 + length cs = 63" "rg_slots q1 ! rg_head q = c"
    using wf pos len by (auto simp: q1 c ring_drop_def ring_wf_def GUI_CONTROLLER_COMMAND_CAP_def mod_simps)
  note keep = enqueue_keeps_slot [OF wf1 h(1), of cs]
  have "pointee (enqueue_all cs q1) c = c" using keep h by (simp add: pointee_def home)
  then have intact: "command_options (enqueue_all cs q1) c = command_options q1 (detach c)"
    by (simp add: command_options_def detach_def pointee_def)
  define q2 where "q2 = enqueue_all cs q1"
  have q2: "ring_wf GUI_CONTROLLER_COMMAND_CAP q2" "rg_head q2 = rg_head q1" "rg_count q2 = 63"
    using keep h(2) by (simp_all add: q2_def)
  then have tail: "rg_tail q2 = rg_head q" by (simp add: ring_wf_def h(1) GUI_CONTROLLER_COMMAND_CAP_def)
  moreover have "enqueue_all (cs @ [zero_command t i]) q1 =
      ring_put GUI_CONTROLLER_COMMAND_CAP ((zero_command t i)\<lparr>gc_home := Some (rg_tail q2)\<rparr>) q2"
    unfolding enqueue_all_snoc q2_def [symmetric] using q2(3) by (simp add: enqueue_command_def GUI_CONTROLLER_COMMAND_CAP_def)
  ultimately have "pointee (enqueue_all (cs @ [zero_command t i]) q1) c = (zero_command t i)\<lparr>gc_home := Some (rg_head q)\<rparr>"
    using q2(1) ring_wf_tail [OF q2(1)] by (simp add: pointee_def home ring_put_def ring_wf_def)
  then have "gc_has_expected_sha256 c \<longrightarrow>
      map_option io_expected_sha256 (command_options (enqueue_all (cs @ [zero_command t i]) q1) c) = Some (Some [])"
    by (simp add: command_options_def zero_command_def)
  with intact show ?thesis by (simp add: json_member_def)
qed

definition demo_add :: gui_command where
  "demo_add = add_command ''http://h/f'' ''/d/f'' (Some \<lparr>io_cookie = None, io_referrer = None, io_extra_headers = None,
     io_expected_sha256 = Some ''ab'', io_speed_limit_bps = 0\<rparr>)"

definition full_commands :: "gui_command ring" where
  "full_commands = \<lparr>rg_slots = map (\<lambda>k. demo_add\<lparr>gc_home := Some k\<rparr>) [0..<64], rg_head = 0, rg_tail = 0, rg_count = 64\<rparr>"

end
