(* ===== verification/Gui_Model.thy ===== *)
theory Gui_Model
  imports Gui_Controller Path_Utils
begin

text \<open>
  \<open>src/gui/gui_model.c\<close>, the table of rows the window shows, and the part of
  \<open>src/gui/gui_nuklear.c\<close> that decides rather than draws: which rows are visible, what an event
  changes, how a file is named in a URI, and how the add dialog builds a request.
\<close>

definition GUI_MODEL_MAX_ROWS :: nat where
  "GUI_MODEL_MAX_ROWS = 256"

text \<open>\<open>GuiRow\<close> has the fields of a list entry; the model is \<open>g_rows[0 .. g_row_count - 1]\<close>.\<close>

type_synonym gui_row = list_entry

definition row_has_id :: "u32 \<Rightarrow> gui_row \<Rightarrow> bool" where
  "row_has_id i r \<longleftrightarrow> le_id r = i"

definition gui_model_init :: "gui_row list" where
  "gui_model_init = []"

definition copy_record :: "list_entry \<Rightarrow> gui_row" where
  "copy_record r = \<lparr>le_id = le_id r, le_url = strncpy_buf IPC_MAX_URL_LEN (le_url r),
     le_dest_path = strncpy_buf IPC_MAX_PATH_LEN (le_dest_path r), le_status = strncpy_buf 16 (le_status r),
     le_progress = le_progress r\<rparr>"

text \<open>The loop over the records, with the rows stored so far.\<close>

fun snapshot_loop :: "list_entry list \<Rightarrow> gui_row list \<Rightarrow> gui_row list" where
  "snapshot_loop [] rows = rows"
| "snapshot_loop (r # rs) rows =
     (if length rows < GUI_MODEL_MAX_ROWS then snapshot_loop rs (rows @ [copy_record r]) else rows)"

definition gui_model_apply_snapshot :: "list_entry list \<Rightarrow> gui_row list" where
  "gui_model_apply_snapshot records = snapshot_loop records []"

definition gui_model_apply_status_update :: "u32 \<Rightarrow> string \<Rightarrow> rat \<Rightarrow> gui_row list \<Rightarrow> gui_row list" where
  "gui_model_apply_status_update i status progress rows =
     upd_first (row_has_id i)
       (\<lambda>r. r\<lparr>le_progress := progress, le_status := (if status \<noteq> [] then strncpy_buf 16 status else le_status r)\<rparr>) rows"

definition gui_model_apply_optimistic :: "u32 \<Rightarrow> string \<Rightarrow> gui_row list \<Rightarrow> gui_row list" where
  "gui_model_apply_optimistic i new_status rows =
     upd_first (row_has_id i) (\<lambda>r. r\<lparr>le_status := strncpy_buf 16 new_status\<rparr>) rows"

definition gui_model_for_each_row :: "(gui_row \<Rightarrow> 'c \<Rightarrow> 'c) \<Rightarrow> 'c \<Rightarrow> gui_row list \<Rightarrow> 'c" where
  "gui_model_for_each_row fn ctx rows = fold fn rows ctx"

definition gui_model_snapshot_rows :: "nat \<Rightarrow> gui_row list \<Rightarrow> gui_row list" where
  "gui_model_snapshot_rows max_n rows = take (if length rows < max_n then length rows else max_n) rows"

definition gui_model_add_local_row :: "u32 \<Rightarrow> string \<Rightarrow> string \<Rightarrow> gui_row list \<Rightarrow> gui_row list" where
  "gui_model_add_local_row i url dest_path rows =
     (if length rows < GUI_MODEL_MAX_ROWS
      then \<lparr>le_id = i, le_url = strncpy_buf IPC_MAX_URL_LEN url, le_dest_path = strncpy_buf IPC_MAX_PATH_LEN dest_path,
            le_status = ''QUEUED'', le_progress = 0\<rparr> # rows
      else rows)"

section \<open>Which rows are shown\<close>

definition after_last :: "char \<Rightarrow> string \<Rightarrow> string" where
  "after_last c s = (case strrchr c s of None \<Rightarrow> s | Some k \<Rightarrow> drop (Suc k) s)"

definition filename_for_row :: "gui_row \<Rightarrow> string" where
  "filename_for_row r = (if le_dest_path r \<noteq> [] then after_last (CHR ''/'') (le_dest_path r) else after_last (CHR ''/'') (le_url r))"

definition is_status :: "gui_row \<Rightarrow> string \<Rightarrow> bool" where
  "is_status r status \<longleftrightarrow> le_status r = status"

definition can_pause :: "gui_row \<Rightarrow> bool" where
  "can_pause r \<longleftrightarrow> is_status r ''ACTIVE'' \<or> is_status r ''QUEUED''"

fun ascii_equal :: "string \<Rightarrow> string \<Rightarrow> bool" where
  "ascii_equal (a # as) (b # bs) = (if to_lower a \<noteq> to_lower b then False else ascii_equal as bs)"
| "ascii_equal as bs = (as = [] \<and> bs = [])"

text \<open>The inner loop: does the needle match at this position?\<close>

fun starts_ci :: "string \<Rightarrow> string \<Rightarrow> bool" where
  "starts_ci text [] = True"
| "starts_ci [] (b # bs) = False"
| "starts_ci (a # as) (b # bs) = (to_lower a = to_lower b \<and> starts_ci as bs)"

fun contains_loop :: "string \<Rightarrow> string \<Rightarrow> bool" where
  "contains_loop [] needle = False"
| "contains_loop (c # cs) needle = (starts_ci (c # cs) needle \<or> contains_loop cs needle)"

definition contains_case_insensitive :: "string \<Rightarrow> string \<Rightarrow> bool" where
  "contains_case_insensitive text needle \<longleftrightarrow> needle = [] \<or> contains_loop text needle"

datatype gui_category =
  CATEGORY_ALL | CATEGORY_DOCUMENTS | CATEGORY_COMPRESSED | CATEGORY_MUSIC | CATEGORY_VIDEO | CATEGORY_PROGRAMS

datatype gui_tab = TAB_ALL | TAB_DOWNLOADING | TAB_COMPLETED

definition extensions :: "(gui_category \<times> string list) list" where
  "extensions =
     [(CATEGORY_DOCUMENTS, [''pdf'', ''doc'', ''docx'', ''txt'', ''xls'', ''xlsx'', ''ppt'', ''pptx'', ''odt'', ''csv'']),
      (CATEGORY_COMPRESSED, [''zip'', ''rar'', ''7z'', ''tar'', ''gz'', ''tgz'', ''bz2'', ''xz'']),
      (CATEGORY_MUSIC, [''mp3'', ''wav'', ''flac'', ''ogg'', ''m4a'', ''aac'']),
      (CATEGORY_VIDEO, [''mp4'', ''mkv'', ''avi'', ''mov'', ''webm'', ''flv'']),
      (CATEGORY_PROGRAMS, [''exe'', ''msi'', ''dmg'', ''apk'', ''deb'', ''rpm'', ''appimage'', ''sh''])]"

definition category_for_row :: "gui_row \<Rightarrow> gui_category" where
  "category_for_row r =
     (let filename = filename_for_row r
      in case strrchr (CHR ''.'') filename of
           None \<Rightarrow> CATEGORY_ALL
         | Some k \<Rightarrow>
             let ext = drop (Suc k) filename
             in if k = 0 \<or> ext = [] then CATEGORY_ALL
                else case find (\<lambda>(c, cands). \<exists>cand \<in> set cands. length ext = length cand \<and> ascii_equal ext cand) extensions of
                       None \<Rightarrow> CATEGORY_ALL
                     | Some (c, _) \<Rightarrow> c)"

text \<open>The part of \<open>UiState\<close> the decisions read and write.\<close>

record ui_state =
  ui_connected :: bool
  ui_selected_id :: u32
  ui_tab :: gui_tab
  ui_category :: gui_category
  ui_search :: string
  ui_details :: request_options
  ui_details_found :: bool
  ui_toast :: gui_row
  ui_toast_open :: bool
  ui_error :: string
  ui_rows :: "gui_row list"     \<comment> \<open>\<open>g_rows\<close> of the model\<close>

definition row_matches :: "ui_state \<Rightarrow> gui_row \<Rightarrow> bool" where
  "row_matches ui r =
     (if ui_tab ui = TAB_DOWNLOADING \<and> \<not> can_pause r \<and> \<not> is_status r ''PAUSED'' then False
      else if ui_tab ui = TAB_COMPLETED \<and> \<not> is_status r ''DONE'' then False
      else if ui_category ui \<noteq> CATEGORY_ALL \<and> category_for_row r \<noteq> ui_category ui then False
      else contains_case_insensitive (filename_for_row r) (ui_search ui) \<or>
           contains_case_insensitive (le_dest_path r) (ui_search ui))"

section \<open>Events\<close>

definition find_row_in :: "gui_row list \<Rightarrow> u32 \<Rightarrow> gui_row option" where
  "find_row_in rows i = find (row_has_id i) rows"

definition maybe_complete :: "gui_row option \<Rightarrow> string \<Rightarrow> ui_state \<Rightarrow> ui_state" where
  "maybe_complete old status ui =
     (case old of
        None \<Rightarrow> ui
      | Some r \<Rightarrow>
          if le_status r \<noteq> ''DONE'' \<and> status = ''DONE''
          then ui\<lparr>ui_toast := r\<lparr>le_status := ''DONE'', le_progress := 1\<rparr>, ui_toast_open := True\<rparr>
          else ui)"

definition apply_operation :: "gui_operation \<Rightarrow> u32 \<Rightarrow> string \<Rightarrow> string \<Rightarrow> gui_row list \<Rightarrow> gui_row list" where
  "apply_operation operation i url dest_path rows =
     (case operation of
        GUI_CONTROLLER_OPERATION_ADD \<Rightarrow> gui_model_add_local_row i url dest_path rows
      | GUI_CONTROLLER_OPERATION_PAUSE \<Rightarrow> gui_model_apply_optimistic i ''PAUSED'' rows
      | GUI_CONTROLLER_OPERATION_RESUME \<Rightarrow> gui_model_apply_optimistic i ''QUEUED'' rows
      | GUI_CONTROLLER_OPERATION_CANCEL \<Rightarrow> gui_model_apply_optimistic i ''CANCELED'' rows)"

definition consume_event :: "gui_controller_event \<Rightarrow> ui_state \<Rightarrow> ui_state" where
  "consume_event event ui =
     (case event of
        GUI_CONTROLLER_EVENT_STATUS i status progress \<Rightarrow>
          let previous = gui_model_snapshot_rows GUI_MODEL_MAX_ROWS (ui_rows ui);
              ui1 = maybe_complete (find_row_in previous i) status ui
          in ui1\<lparr>ui_rows := gui_model_apply_status_update i status progress (ui_rows ui1)\<rparr>
      | GUI_CONTROLLER_EVENT_SNAPSHOT records \<Rightarrow>
          let previous = gui_model_snapshot_rows GUI_MODEL_MAX_ROWS (ui_rows ui);
              ui1 = fold (\<lambda>r. maybe_complete (find_row_in previous (le_id r)) (le_status r)) records ui
          in ui1\<lparr>ui_rows := gui_model_apply_snapshot records\<rparr>
      | GUI_CONTROLLER_EVENT_CONNECTION conn \<Rightarrow> ui\<lparr>ui_connected := conn\<rparr>
      | GUI_CONTROLLER_EVENT_OPERATION operation i url dest_path succeeded \<Rightarrow>
          if succeeded then ui\<lparr>ui_rows := apply_operation operation i url dest_path (ui_rows ui)\<rparr> else ui
      | GUI_CONTROLLER_EVENT_DETAILS i found details \<Rightarrow>
          if i = ui_selected_id ui then ui\<lparr>ui_details := details, ui_details_found := found\<rparr> else ui
      | GUI_CONTROLLER_EVENT_ERROR message \<Rightarrow> ui\<lparr>ui_error := strncpy_buf 256 message\<rparr>)"

function consume_events :: "gui_controller_event ring \<Rightarrow> ui_state \<Rightarrow> gui_controller_event ring \<times> ui_state" where
  "consume_events q ui =
     (case gui_controller_poll q of
        (None, q1) \<Rightarrow> (q1, ui)
      | (Some event, q1) \<Rightarrow> consume_events q1 (consume_event event ui))"
  by pat_completeness auto
termination
  by (relation "measure (\<lambda>(q, ui). rg_count q)")
     (auto simp: gui_controller_poll_def ring_poll_def ring_drop_def split: if_splits)

declare consume_events.simps [simp del]

definition report_enqueue :: "bool \<Rightarrow> ui_state \<Rightarrow> ui_state" where
  "report_enqueue ok ui = (if ok then ui else ui\<lparr>ui_error := ''Command queue is full. Please try again.''\<rparr>)"

section \<open>The add dialog\<close>

definition nonempty :: "string \<Rightarrow> string option" where
  "nonempty s = (if s \<noteq> [] then Some s else None)"

definition add_download ::
  "kernel \<Rightarrow> fs \<Rightarrow> string \<Rightarrow> string \<Rightarrow> string \<Rightarrow> string \<Rightarrow> string \<Rightarrow> string \<Rightarrow> u64 \<Rightarrow> gui_command ring \<Rightarrow> bool \<times> gui_command ring" where
  "add_download K fs url folder cookie referrer headers sha256 speed_limit q =
     (case path_join folder (path_filename_from_url url 512) IPC_MAX_PATH_LEN of
        None \<Rightarrow> (False, q)
      | Some path \<Rightarrow>
          (case path_make_unique K fs path IPC_MAX_PATH_LEN of
             None \<Rightarrow> (False, q)
           | Some unique_path \<Rightarrow>
               let options = \<lparr>io_cookie = nonempty cookie, io_referrer = nonempty referrer,
                              io_extra_headers = nonempty headers, io_expected_sha256 = nonempty sha256,
                              io_speed_limit_bps = speed_limit\<rparr>;
                   has_options = (cookie \<noteq> [] \<or> referrer \<noteq> [] \<or> headers \<noteq> [] \<or> sha256 \<noteq> [] \<or> speed_limit > 0)
               in gui_controller_enqueue_add url unique_path (if has_options then Some options else None) q))"

section \<open>Opening a file\<close>

definition uri_plain :: "char \<Rightarrow> bool" where
  "uri_plain c \<longleftrightarrow>
     (97 \<le> (of_char c :: nat) \<and> (of_char c :: nat) \<le> 122) \<or> (65 \<le> (of_char c :: nat) \<and> (of_char c :: nat) \<le> 90) \<or>
     (48 \<le> (of_char c :: nat) \<and> (of_char c :: nat) \<le> 57) \<or> c \<in> set ''/-._~:''"

definition hex_upper :: "nat \<Rightarrow> char" where
  "hex_upper n = char_of (if n < 10 then n + 48 else n - 10 + (65 :: nat))"

definition uri_char :: "char \<Rightarrow> string" where
  "uri_char c =
     (if uri_plain c then [c]
      else [CHR ''%'', hex_upper (of_char c div 16), hex_upper (of_char c mod 16)])"

text \<open>\<open>open_path\<close> up to the call of SDL: the URI, or the message it leaves in \<open>error\<close>.\<close>

definition open_path_uri :: "string \<Rightarrow> bool \<Rightarrow> string + string" where
  "open_path_uri path folder =
     (let whole = strncpy_buf IPC_MAX_PATH_LEN path;
          slash = strrchr (CHR ''/'') whole
      in if folder \<and> slash = None then Inl ''Cannot open a relative destination folder.''
         else let local = (case slash of
                             Some k \<Rightarrow> if folder then take (if k = 0 then 1 else k) whole else whole
                           | None \<Rightarrow> whole)
              in case local of
                   c # _ \<Rightarrow> if c = CHR ''/'' then Inr (''file://'' @ concat (map uri_char local))
                            else Inl ''Opening files requires an absolute destination path.''
                 | [] \<Rightarrow> Inl ''Opening files requires an absolute destination path.'')"

section \<open>Searching\<close>

lemma starts_ci_iff: "starts_ci hay needle \<longleftrightarrow> (\<exists>m post. hay = m @ post \<and> map to_lower m = map to_lower needle)"
proof (induction hay needle rule: starts_ci.induct)
  case (3 a xs b bs)
  show ?case
  proof
    assume "starts_ci (a # xs) (b # bs)"
    then obtain m post where "to_lower a = to_lower b" "xs = m @ post" "map to_lower m = map to_lower bs"
      using 3 by auto
    then have "a # xs = (a # m) @ post \<and> map to_lower (a # m) = map to_lower (b # bs)" by simp
    then show "\<exists>m post. a # xs = m @ post \<and> map to_lower m = map to_lower (b # bs)" by blast
  next
    assume "\<exists>m post. a # xs = m @ post \<and> map to_lower m = map to_lower (b # bs)"
    then obtain m post where "a # xs = m @ post" "map to_lower m = map to_lower (b # bs)" by blast
    then show "starts_ci (a # xs) (b # bs)" using 3 by (cases m) auto
  qed
qed auto

lemma contains_loop_iff:
  "needle \<noteq> [] \<Longrightarrow> contains_loop hay needle \<longleftrightarrow> (\<exists>pre post. hay = pre @ post \<and> starts_ci post needle)"
proof (induction hay)
  case Nil
  then show ?case by (cases needle) auto
next
  case (Cons c cs)
  have "(\<exists>pre post. c # cs = pre @ post \<and> starts_ci post needle) \<longleftrightarrow>
      starts_ci (c # cs) needle \<or> (\<exists>pre post. cs = pre @ post \<and> starts_ci post needle)"
    by (metis append_Cons append_Nil list.exhaust list.inject)
  with Cons show ?case by simp
qed

section \<open>The rows\<close>

lemma snapshot_loop_eq:
  "length rows \<le> GUI_MODEL_MAX_ROWS \<Longrightarrow>
   snapshot_loop rs rows = rows @ map copy_record (take (GUI_MODEL_MAX_ROWS - length rows) rs)"
proof (induction rs rows rule: snapshot_loop.induct)
  case (2 r rs rows)
  show ?case
  proof (cases "length rows < GUI_MODEL_MAX_ROWS")
    case True
    then have "GUI_MODEL_MAX_ROWS - length rows = Suc (GUI_MODEL_MAX_ROWS - length (rows @ [copy_record r]))" by simp
    with 2 True show ?thesis by simp
  next
    case False
    with 2 show ?thesis by simp
  qed
qed simp

lemma apply_snapshot_eq: "gui_model_apply_snapshot records = map copy_record (take GUI_MODEL_MAX_ROWS records)"
  by (simp add: gui_model_apply_snapshot_def snapshot_loop_eq)

definition row_wf :: "gui_row \<Rightarrow> bool" where
  "row_wf r \<longleftrightarrow> length (le_url r) < IPC_MAX_URL_LEN \<and> length (le_dest_path r) < IPC_MAX_PATH_LEN \<and> length (le_status r) < 16"

lemma copy_record_id: "row_wf r \<Longrightarrow> copy_record r = r"
  by (simp add: row_wf_def copy_record_def)

lemma copy_record_wf: "row_wf (copy_record r)"
  by (simp add: row_wf_def copy_record_def length_strncpy_buf IPC_MAX_URL_LEN_def IPC_MAX_PATH_LEN_def)

lemma maybe_complete_rows [simp]: "ui_rows (maybe_complete old status ui) = ui_rows ui"
  by (simp add: maybe_complete_def split: option.splits)

lemma fold_complete_rows [simp]: "ui_rows (fold (\<lambda>r. maybe_complete (f r) (g r)) rs ui) = ui_rows ui"
  by (induction rs arbitrary: ui) simp_all

lemma fold_complete_toast:
  "ui_toast_open (fold (\<lambda>r. maybe_complete (f r) (g r)) rs ui) \<longleftrightarrow>
   ui_toast_open ui \<or> (\<exists>r \<in> set rs. g r = ''DONE'' \<and> (\<exists>old. f r = Some old \<and> le_status old \<noteq> ''DONE''))"
proof (induction rs arbitrary: ui)
  case (Cons r rs)
  have "ui_toast_open (maybe_complete (f r) (g r) ui) \<longleftrightarrow>
      ui_toast_open ui \<or> g r = ''DONE'' \<and> (\<exists>old. f r = Some old \<and> le_status old \<noteq> ''DONE'')"
    by (auto simp: maybe_complete_def split: option.splits)
  then show ?case by (simp add: Cons.IH)
qed simp

definition rows_wf :: "gui_row list \<Rightarrow> bool" where
  "rows_wf rows \<longleftrightarrow> length rows \<le> GUI_MODEL_MAX_ROWS \<and> (\<forall>r \<in> set rows. row_wf r)"

lemma upd_first_rows_wf:
  "rows_wf rows \<Longrightarrow> (\<And>r. row_wf r \<Longrightarrow> row_wf (f r)) \<Longrightarrow> rows_wf (upd_first P f rows)"
  using set_upd_first_subset [of P f rows] by (auto simp: rows_wf_def)

lemma status_update_wf: "rows_wf rows \<Longrightarrow> rows_wf (gui_model_apply_status_update i status p rows)"
  unfolding gui_model_apply_status_update_def
  by (rule upd_first_rows_wf) (auto simp: row_wf_def length_strncpy_buf)

lemma optimistic_wf: "rows_wf rows \<Longrightarrow> rows_wf (gui_model_apply_optimistic i status rows)"
  unfolding gui_model_apply_optimistic_def by (rule upd_first_rows_wf) (auto simp: row_wf_def length_strncpy_buf)

lemma add_local_row_wf: "rows_wf rows \<Longrightarrow> rows_wf (gui_model_add_local_row i url dest rows)"
  by (auto simp: gui_model_add_local_row_def rows_wf_def row_wf_def length_strncpy_buf IPC_MAX_URL_LEN_def IPC_MAX_PATH_LEN_def)

lemma snapshot_wf: "rows_wf (gui_model_apply_snapshot records)"
  by (auto simp: rows_wf_def apply_snapshot_eq copy_record_wf)

lemma consume_event_wf: "rows_wf (ui_rows ui) \<Longrightarrow> rows_wf (ui_rows (consume_event e ui))"
  by (auto simp: consume_event_def apply_operation_def Let_def status_update_wf optimistic_wf add_local_row_wf snapshot_wf
      split: gui_controller_event.splits gui_operation.splits)

lemma consume_events_fold:
  assumes "ring_wf GUI_CONTROLLER_EVENT_CAP q"
  shows "snd (consume_events q ui) = fold consume_event (ring_list q) ui \<and>
    ring_wf GUI_CONTROLLER_EVENT_CAP (fst (consume_events q ui)) \<and> ring_list (fst (consume_events q ui)) = []"
  using assms
proof (induction q ui rule: consume_events.induct)
  case (1 q ui)
  obtain r q1 where p: "gui_controller_poll q = (r, q1)" by fastforce
  from controller_events.poll_refines [OF 1(2) p] have wf: "ring_wf GUI_CONTROLLER_EVENT_CAP q1"
    and l: "list_poll (ring_list q) = (r, ring_list q1)" by simp_all
  show ?case
  proof (cases r)
    case None
    then have "ring_list q = []" "ring_list q1 = []" using l by (cases "ring_list q"; simp)+
    then show ?thesis using None p wf by (simp add: consume_events.simps [of q ui])
  next
    case (Some e)
    then have "ring_list q = e # ring_list q1" using l by (cases "ring_list q") auto
    then show ?thesis using Some p 1(1) [OF p [symmetric] Some wf] by (simp add: consume_events.simps [of q ui])
  qed
qed

section \<open>URIs\<close>

text \<open>The usual percent decoding.\<close>

definition hex_digit_value :: "char \<Rightarrow> nat" where
  "hex_digit_value c = (if of_char c < (58 :: nat) then of_char c - 48 else of_char c - 55)"

fun uri_decode :: "string \<Rightarrow> string" where
  "uri_decode [] = []"
| "uri_decode (c # cs) =
     (if c = CHR ''%''
      then (case cs of
              a # b # rest \<Rightarrow> char_of (16 * hex_digit_value a + hex_digit_value b) # uri_decode rest
            | _ \<Rightarrow> [])
      else c # uri_decode cs)"

lemma hex_digit_value_upper: "n < 16 \<Longrightarrow> hex_digit_value (hex_upper n) = n"
  by (simp add: hex_digit_value_def hex_upper_def)

lemma uri_decode_char: "uri_decode (uri_char c @ rest) = c # uri_decode rest"
proof (cases "uri_plain c")
  case True
  then have "c \<noteq> CHR ''%''" by (auto simp: uri_plain_def)
  with True show ?thesis by (simp add: uri_char_def)
next
  case False
  have "(of_char c :: nat) < 16 * 16" using nat_of_char_less_256 [of c] by simp
  then have "(of_char c :: nat) div 16 < 16" by (rule less_mult_imp_div_less)
  then have "hex_digit_value (hex_upper (of_char c div 16)) = of_char c div 16" "hex_digit_value (hex_upper (of_char c mod 16)) = of_char c mod 16"
    by (simp_all add: hex_digit_value_upper)
  then show ?thesis using False by (simp add: uri_char_def)
qed

lemma uri_decode_string: "uri_decode (concat (map uri_char s)) = s"
  by (induction s) (simp_all add: uri_decode_char)

lemma length_uri_string: "length (concat (map uri_char s)) \<le> 3 * length s"
  by (induction s) (auto simp: uri_char_def)

section \<open>Properties\<close>

text \<open>
  Opening a finished download: for an absolute path the URI fits the 3088-byte buffer it is built
  in (the writes are unchecked), contains only characters that need no quoting, and percent-decodes
  to the path, or to its directory when the folder is asked for; a relative path is an error.
\<close>

lemma opened_uri_names_the_file:
  "(case open_path_uri (CHR ''/'' # path) folder of
      Inl _ \<Rightarrow> False
    | Inr uri \<Rightarrow> length uri < IPC_MAX_PATH_LEN * 3 + 16 \<and> take 7 uri = ''file://'' \<and>
        (\<forall>c. c \<in> set (drop 7 uri) \<longrightarrow> c = CHR ''%'' \<or> uri_plain c) \<and>
        uri_decode (drop 7 uri) =
          (let whole = strncpy_buf IPC_MAX_PATH_LEN (CHR ''/'' # path)
           in if folder then take (max 1 (the (strrchr (CHR ''/'') whole))) whole else whole)) \<and>
   (path = [] \<or> hd path \<noteq> CHR ''/'' \<longrightarrow> (\<exists>m. open_path_uri path folder = Inl m))"
proof (intro conjI impI)
  define whole where "whole = strncpy_buf IPC_MAX_PATH_LEN (CHR ''/'' # path)"
  obtain rest where whole: "whole = CHR ''/'' # rest" "length whole < IPC_MAX_PATH_LEN"
    unfolding whole_def by (cases "IPC_MAX_PATH_LEN - 1") (simp_all add: strncpy_buf_def IPC_MAX_PATH_LEN_def)
  then have "strrchr (CHR ''/'') whole \<noteq> None" by (simp only: strrchr_None) simp
  then obtain k where k: "strrchr (CHR ''/'') whole = Some k" by blast
  define l where "l = (if folder then take (max 1 k) whole else whole)"
  have l: "\<exists>t. l = CHR ''/'' # t" "length l < IPC_MAX_PATH_LEN"
  proof -
    show "\<exists>t. l = CHR ''/'' # t" unfolding l_def whole(1) by (cases "max 1 k") simp_all
    show "length l < IPC_MAX_PATH_LEN" by (rule le_less_trans [OF _ whole(2)]) (simp add: l_def)
  qed
  have "(case Some k of Some k \<Rightarrow> if folder then take (if k = 0 then 1 else k) whole else whole | None \<Rightarrow> whole) = l"
    by (simp add: l_def max_def)
  then have u: "open_path_uri (CHR ''/'' # path) folder = Inr (''file://'' @ concat (map uri_char l))"
    using l(1) k whole(1) by (auto simp: open_path_uri_def Let_def whole_def [symmetric])
  have "c = CHR ''%'' \<or> uri_plain c" if "c \<in> set (concat (map uri_char l))" for c
  proof -
    from that obtain x where "c \<in> set (uri_char x)" by auto
    moreover have "uri_plain (hex_upper n)" if "n < 16" for n using that by (simp add: uri_plain_def hex_upper_def)
    moreover have "(of_char x :: nat) div 16 < 16"
      using nat_of_char_less_256 [of x] by (intro less_mult_imp_div_less) simp
    ultimately show ?thesis by (auto simp: uri_char_def split: if_splits)
  qed
  then show "case open_path_uri (CHR ''/'' # path) folder of
      Inl _ \<Rightarrow> False
    | Inr uri \<Rightarrow> length uri < IPC_MAX_PATH_LEN * 3 + 16 \<and> take 7 uri = ''file://'' \<and>
        (\<forall>c. c \<in> set (drop 7 uri) \<longrightarrow> c = CHR ''%'' \<or> uri_plain c) \<and>
        uri_decode (drop 7 uri) =
          (let whole = strncpy_buf IPC_MAX_PATH_LEN (CHR ''/'' # path)
           in if folder then take (max 1 (the (strrchr (CHR ''/'') whole))) whole else whole)"
    using l(2) length_uri_string [of l] unfolding u whole_def [symmetric] Let_def k
    by (simp add: uri_decode_string l_def)
next
  assume "path = [] \<or> hd path \<noteq> CHR ''/''"
  then show "\<exists>m. open_path_uri path folder = Inl m"
    by (cases path) (auto simp: open_path_uri_def Let_def strncpy_buf_def IPC_MAX_PATH_LEN_def take_Cons' split: option.splits if_splits)
qed

text \<open>
  The search box finds a row exactly when some stretch of its file name or path equals the search
  text up to the case of ASCII letters.
\<close>

lemma search_is_substring_up_to_case:
  "contains_case_insensitive hay needle \<longleftrightarrow>
     (\<exists>pre m post. hay = pre @ m @ post \<and> map to_lower m = map to_lower needle)"
proof (cases "needle = []")
  case True
  then show ?thesis by (auto simp: contains_case_insensitive_def intro: exI [of _ "[]"])
next
  case False
  then show ?thesis
    using contains_loop_iff [OF False, of hay] by (auto simp: contains_case_insensitive_def starts_ci_iff)
qed

end
