(* ===== verification/Gui_Safety.thy ===== *)
theory Gui_Safety
  imports Gui_Model
begin

text \<open>
  The GUI process as three threads over shared rings: the window's thread enqueues commands and
  consumes events, the controller thread carries out one command at a time, the listener thread
  reads the daemon's frames. The theory gives the interleaving as a step relation and shows that
  every reachable state is well typed: indices inside the rings, every text inside the buffer it is
  stored in, at most 256 rows.
\<close>

record gui_system =
  gs_gui :: gui
  gs_ui :: ui_state
  gs_current :: "gui_command option"    \<comment> \<open>taken from the queue, not yet carried out\<close>

definition poll_client_event :: "gui \<Rightarrow> gui" where
  "poll_client_event st =
     (case gui_client_poll_event (gu_client st) of
        (None, c) \<Rightarrow> st\<lparr>gu_client := c\<rparr>
      | (Some e, c) \<Rightarrow> publish (controller_event e) (st\<lparr>gu_client := c\<rparr>))"

inductive gui_step :: "gui_env \<Rightarrow> gui_system \<Rightarrow> gui_system \<Rightarrow> bool" for V where
  add: "gui_step V x (x\<lparr>gs_gui := (gs_gui x)\<lparr>gu_commands := snd (gui_controller_enqueue_add url dest opts (gu_commands (gs_gui x)))\<rparr>\<rparr>)"
| command: "gui_step V x (x\<lparr>gs_gui := (gs_gui x)\<lparr>gu_commands := snd (enqueue_id_command t i (gu_commands (gs_gui x)))\<rparr>\<rparr>)"
| consume: "consume_events (gu_events (gs_gui x)) (gs_ui x) = (q, ui) \<Longrightarrow>
    gui_step V x (x\<lparr>gs_gui := (gs_gui x)\<lparr>gu_events := q\<rparr>, gs_ui := ui\<rparr>)"
| listener: "gui_step V x (x\<lparr>gs_gui := (gs_gui x)\<lparr>gu_client := listener_step V (gu_client (gs_gui x))\<rparr>\<rparr>)"
| client_event: "gui_step V x (x\<lparr>gs_gui := poll_client_event (gs_gui x)\<rparr>)"
| snapshot: "gs_current x = None \<Longrightarrow> gui_step V x (x\<lparr>gs_gui := publish_snapshot V (gs_gui x)\<rparr>)"
| dequeue: "gs_current x = None \<Longrightarrow> dequeue_command (gu_commands (gs_gui x)) = (c, q) \<Longrightarrow>
    gui_step V x (x\<lparr>gs_gui := (gs_gui x)\<lparr>gu_commands := q\<rparr>, gs_current := c\<rparr>)"
| process: "gs_current x = Some c \<Longrightarrow> gui_step V x (x\<lparr>gs_gui := process_command V c (gs_gui x), gs_current := None\<rparr>)"

inductive gui_reachable :: "gui_env \<Rightarrow> gui_system \<Rightarrow> gui_system \<Rightarrow> bool" for V x where
  start: "gui_reachable V x x"
| move: "gui_reachable V x y \<Longrightarrow> gui_step V y z \<Longrightarrow> gui_reachable V x z"

inductive_cases gui_stepE: "gui_step V x y"

section \<open>Well-typed states\<close>

definition client_event_wf :: "gui_client_event \<Rightarrow> bool" where
  "client_event_wf e \<longleftrightarrow> length (ge_status e) < 16"

definition details_wf :: "request_options \<Rightarrow> bool" where
  "details_wf d \<longleftrightarrow> length (ro_cookie d) < 1024 \<and> length (ro_referrer d) < 2048 \<and>
     length (ro_extra_headers d) < 4096 \<and> length (ro_expected_sha256 d) < 65"

primrec event_wf :: "gui_controller_event \<Rightarrow> bool" where
  "event_wf (GUI_CONTROLLER_EVENT_OPERATION p i url dest ok) \<longleftrightarrow> length url < IPC_MAX_URL_LEN \<and> length dest < IPC_MAX_PATH_LEN"
| "event_wf (GUI_CONTROLLER_EVENT_STATUS i status p) \<longleftrightarrow> length status < 16"
| "event_wf (GUI_CONTROLLER_EVENT_SNAPSHOT rs) \<longleftrightarrow> rows_wf rs"
| "event_wf (GUI_CONTROLLER_EVENT_DETAILS i found d) \<longleftrightarrow> details_wf d"
| "event_wf (GUI_CONTROLLER_EVENT_CONNECTION b) \<longleftrightarrow> True"
| "event_wf (GUI_CONTROLLER_EVENT_ERROR m) \<longleftrightarrow> length m < 256"

definition command_wf :: "gui_command \<Rightarrow> bool" where
  "command_wf c \<longleftrightarrow> length (gc_url c) < IPC_MAX_URL_LEN \<and> length (gc_dest_path c) < IPC_MAX_PATH_LEN \<and>
     length (gc_cookie c) < 1024 \<and> length (gc_referrer c) < 2048 \<and> length (gc_extra_headers c) < 4096 \<and>
     length (gc_expected_sha256 c) < 65 \<and> (\<forall>k. gc_home c = Some k \<longrightarrow> k < GUI_CONTROLLER_COMMAND_CAP)"

definition slots_ok :: "('a \<Rightarrow> bool) \<Rightarrow> nat \<Rightarrow> 'a ring \<Rightarrow> bool" where
  "slots_ok P cap q \<longleftrightarrow> ring_wf cap q \<and> (\<forall>x \<in> set (rg_slots q). P x)"

definition ui_wf :: "ui_state \<Rightarrow> bool" where
  "ui_wf ui \<longleftrightarrow> rows_wf (ui_rows ui) \<and> row_wf (ui_toast ui) \<and> details_wf (ui_details ui) \<and> length (ui_error ui) < 256"

definition client_wf :: "gui_client \<Rightarrow> bool" where
  "client_wf c \<longleftrightarrow> slots_ok client_event_wf GUI_EVENT_QUEUE_CAP (gl_queue c)"

definition gui_wf :: "gui_system \<Rightarrow> bool" where
  "gui_wf x \<longleftrightarrow> slots_ok event_wf GUI_CONTROLLER_EVENT_CAP (gu_events (gs_gui x)) \<and>
     slots_ok command_wf GUI_CONTROLLER_COMMAND_CAP (gu_commands (gs_gui x)) \<and> client_wf (gu_client (gs_gui x)) \<and>
     ui_wf (gs_ui x) \<and> (\<forall>c. gs_current x = Some c \<longrightarrow> command_wf c)"

section \<open>Rings\<close>

lemma slots_ok_put: "slots_ok P cap q \<Longrightarrow> rg_count q < cap \<Longrightarrow> P x \<Longrightarrow> slots_ok P cap (ring_put cap x q)"
  using ring_put_wf [of cap q x] set_update_subset_insert [of "rg_slots q" "rg_tail q" x]
  by (auto simp: slots_ok_def ring_put_def)

lemma slots_ok_drop: "slots_ok P cap q \<Longrightarrow> 0 < rg_count q \<Longrightarrow> slots_ok P cap (ring_drop cap q)"
  using ring_drop_wf [of cap q] by (simp add: slots_ok_def ring_drop_def)

lemma slots_ok_poll:
  assumes "slots_ok P cap q" and "ring_poll cap q = (r, q')"
  shows "slots_ok P cap q' \<and> (\<forall>x. r = Some x \<longrightarrow> P x)"
proof (cases "rg_count q = 0")
  case True
  then show ?thesis using assms by (auto simp: ring_poll_def)
next
  case False
  have "rg_head q < length (rg_slots q)" using assms(1) by (simp add: slots_ok_def ring_wf_def)
  then show ?thesis using False assms slots_ok_drop [OF assms(1)] by (auto simp: ring_poll_def slots_ok_def)
qed

lemma slots_ok_count: "slots_ok P cap q \<Longrightarrow> rg_count q \<noteq> cap \<Longrightarrow> rg_count q < cap"
  by (simp add: slots_ok_def ring_wf_def)

section \<open>The client\<close>

lemma push_event_wf [inv_intros]: "client_wf c \<Longrightarrow> client_event_wf e \<Longrightarrow> client_wf (push_event e c)"
proof -
  assume c: "client_wf c" and e: "client_event_wf e"
  let ?q = "if rg_count (gl_queue c) = GUI_EVENT_QUEUE_CAP then ring_drop GUI_EVENT_QUEUE_CAP (gl_queue c) else gl_queue c"
  have "slots_ok client_event_wf GUI_EVENT_QUEUE_CAP ?q \<and> rg_count ?q < GUI_EVENT_QUEUE_CAP"
    using c slots_ok_drop [of client_event_wf GUI_EVENT_QUEUE_CAP "gl_queue c"]
      slots_ok_count [of client_event_wf GUI_EVENT_QUEUE_CAP "gl_queue c"]
    by (cases "rg_count (gl_queue c) = GUI_EVENT_QUEUE_CAP") (simp_all add: client_wf_def ring_drop_def GUI_EVENT_QUEUE_CAP_def)
  then have "slots_ok client_event_wf GUI_EVENT_QUEUE_CAP (ring_put GUI_EVENT_QUEUE_CAP e ?q)" using e by (intro slots_ok_put) simp_all
  then show ?thesis unfolding client_wf_def push_event_def push_ring_def by simp
qed

lemma client_wf_frame [simp]:
  "client_wf (c\<lparr>gl_cmd := a\<rparr>) = client_wf c" "client_wf (c\<lparr>gl_listener := a\<rparr>) = client_wf c"
  "client_wf (c\<lparr>gl_was_connected := b\<rparr>) = client_wf c" "client_wf (c\<lparr>gl_connects := cs\<rparr>) = client_wf c"
  by (simp_all add: client_wf_def)

lemma plain_event_wf [simp]: "client_event_wf (plain_event t)"
  by (simp add: client_event_wf_def plain_event_def)

lemma note_wf [inv_intros]: "client_wf c \<Longrightarrow> client_wf (note_lost c)" "client_wf c \<Longrightarrow> client_wf (note_restored c)"
  by (simp_all add: note_lost_def note_restored_def push_event_wf)

lemma connect_attempt_wf: "client_wf c \<Longrightarrow> connect_attempt c = (r, c') \<Longrightarrow> client_wf c'"
  by (auto simp: connect_attempt_def split: list.splits)

lemma ensure_cmd_wf: "client_wf c \<Longrightarrow> ensure_cmd c = (r, c') \<Longrightarrow> client_wf c'"
  by (auto simp: ensure_cmd_def note_wf dest: connect_attempt_wf split: option.splits prod.splits)

lemma drop_cmd_wf: "client_wf c \<Longrightarrow> client_wf (drop_cmd c)"
  by (simp add: drop_cmd_def note_wf)

lemma retry_loop_wf: "client_wf c \<Longrightarrow> client_wf (snd (retry_loop fn i k c))"
proof (induction k arbitrary: c)
  case 0
  then show ?case by (simp add: note_wf)
next
  case (Suc k)
  then show ?case
    by (cases "connect_attempt c")
       (auto simp: note_wf dest: connect_attempt_wf split: option.splits prod.splits)
qed

lemma add_download_wf: "client_wf c \<Longrightarrow> gui_client_add_download V url dest opts c = (r, c') \<Longrightarrow> client_wf c'"
  by (auto simp: gui_client_add_download_def drop_cmd_wf dest: ensure_cmd_wf split: option.splits prod.splits)

lemma read_record_wf: "read_record V s = (Some r, s') \<Longrightarrow> row_wf r"
  by (auto simp: read_record_def row_wf_def length_strncpy_buf IPC_MAX_URL_LEN_def IPC_MAX_PATH_LEN_def
      split: prod.splits option.splits)

lemma read_records_wf: "read_records V n s = (Some rs, s') \<Longrightarrow> \<forall>r \<in> set rs. row_wf r"
  by (induction n arbitrary: s rs s') (auto dest: read_record_wf split: prod.splits option.splits)

lemma list_all_wf:
  assumes "client_wf c" and "gui_client_list_all V c = (r, c')"
  shows "client_wf c' \<and> (\<forall>rs. r = Some rs \<longrightarrow> (\<forall>x \<in> set rs. row_wf x))"
  using assms
  by (auto simp: gui_client_list_all_def Let_def drop_cmd_wf dest: ensure_cmd_wf read_records_wf
      split: option.splits prod.splits if_splits)

lemma get_details_wf:
  assumes "client_wf c" and "gui_client_get_details i c = (r, c')"
  shows "client_wf c' \<and> (\<forall>d. r = Some d \<longrightarrow> details_wf d)"
  using assms
  by (auto simp: gui_client_get_details_def details_wf_def length_strncpy_buf dest: ensure_cmd_wf split: option.splits prod.splits)

lemma normalize_status_length: "length (normalize_status raw 16) < 16"
  by (simp add: normalize_status_def length_strncpy_buf min_def split: option.splits)

lemma read_status_event_wf: "read_status_event V s = (e, s') \<Longrightarrow> client_event_wf e"
  by (auto simp: read_status_event_def Let_def client_event_wf_def normalize_status_length split: prod.splits if_splits)

lemma listener_step_wf: "client_wf c \<Longrightarrow> client_wf (listener_step V c)"
proof -
  have r: "client_wf (listener_reconnect d)" if "client_wf d" for d
    using that by (auto simp: listener_reconnect_def Let_def note_wf dest: connect_attempt_wf [OF note_wf(1)]
        split: prod.splits option.splits)
  assume "client_wf c"
  then show ?thesis
    by (auto simp: listener_step_def r push_event_wf dest: read_status_event_wf split: option.splits prod.splits)
qed

section \<open>The controller and the window\<close>

lemma publish_wf:
  "slots_ok event_wf GUI_CONTROLLER_EVENT_CAP (gu_events st) \<Longrightarrow> event_wf e \<Longrightarrow>
   slots_ok event_wf GUI_CONTROLLER_EVENT_CAP (gu_events (publish e st))"
  using slots_ok_count [of event_wf GUI_CONTROLLER_EVENT_CAP "gu_events st"]
  by (auto simp: publish_def gui_controller_publish_def slots_ok_put)

definition report_wf :: "gui \<Rightarrow> bool" where
  "report_wf st \<longleftrightarrow> slots_ok event_wf GUI_CONTROLLER_EVENT_CAP (gu_events st) \<and> client_wf (gu_client st)"

lemma report_wf_publish: "report_wf st \<Longrightarrow> event_wf e \<Longrightarrow> report_wf (publish e st)"
  by (simp add: report_wf_def publish_wf)

lemma report_wf_client: "report_wf st \<Longrightarrow> client_wf c \<Longrightarrow> report_wf (st\<lparr>gu_client := c\<rparr>)"
  by (simp add: report_wf_def)

lemma opt_text_length: "0 < n \<Longrightarrow> length (opt_text n v) < n"
  by (simp add: opt_text_def length_strncpy_buf split: option.splits)

lemma report_wf_operation: "report_wf st \<Longrightarrow> report_wf (publish_operation p i u d b st)"
  unfolding publish_operation_def
  by (rule report_wf_publish) (simp_all add: opt_text_length IPC_MAX_URL_LEN_def IPC_MAX_PATH_LEN_def)

lemma report_wf_error: "report_wf st \<Longrightarrow> report_wf (publish_error m st)"
  unfolding publish_error_def by (rule report_wf_publish) (simp_all add: length_strncpy_buf)

lemma report_wf_command: "report_wf st \<Longrightarrow> client_wf (snd r) \<Longrightarrow> report_wf (report_command p i r st)"
  by (auto simp: report_command_def Let_def report_wf_operation report_wf_error report_wf_client split: prod.splits)

lemma zero_details_wf [simp]: "details_wf zero_details"
  by (simp add: details_wf_def zero_details_def)

lemma process_command_wf:
  assumes "report_wf st"
  shows "report_wf (process_command V c st)"
proof (cases "gc_type c")
  case GUI_CONTROLLER_COMMAND_ADD
  obtain ok i d where a: "gui_client_add_download V (gc_url c) (gc_dest_path c) (command_options (gu_commands st) c) (gu_client st) = ((ok, i), d)"
    by (metis prod.exhaust)
  then have "client_wf d" using assms add_download_wf [OF _ a] by (simp add: report_wf_def)
  then show ?thesis using assms
    by (simp add: process_command_def GUI_CONTROLLER_COMMAND_ADD a Let_def report_wf_operation report_wf_error report_wf_client)
next
  case GUI_CONTROLLER_COMMAND_DETAILS
  obtain r d where a: "gui_client_get_details (gc_id c) (gu_client st) = (r, d)" by fastforce
  then have "client_wf d \<and> (\<forall>x. r = Some x \<longrightarrow> details_wf x)" using assms get_details_wf [OF _ a] by (simp add: report_wf_def)
  then show ?thesis using assms
    by (cases r) (simp_all add: process_command_def GUI_CONTROLLER_COMMAND_DETAILS a report_wf_publish report_wf_error report_wf_client)
qed (use assms retry_loop_wf in \<open>simp_all add: process_command_def report_wf_command gui_client_pause_def gui_client_resume_def
    gui_client_cancel_def send_with_retry_def report_wf_def [of st]\<close>)

lemma enqueue_command_wf:
  assumes "slots_ok command_wf GUI_CONTROLLER_COMMAND_CAP q" and "command_wf c"
  shows "slots_ok command_wf GUI_CONTROLLER_COMMAND_CAP (snd (enqueue_command c q))"
proof (cases "rg_count q = GUI_CONTROLLER_COMMAND_CAP")
  case True
  then show ?thesis using assms by (simp add: enqueue_command_def)
next
  case False
  have "rg_tail q < GUI_CONTROLLER_COMMAND_CAP" using assms(1) by (simp add: slots_ok_def ring_wf_tail)
  then have "command_wf (c\<lparr>gc_home := Some (rg_tail q)\<rparr>)" using assms(2) by (simp add: command_wf_def)
  then show ?thesis
    using slots_ok_put [OF assms(1) slots_ok_count [OF assms(1) False]] False by (simp add: enqueue_command_def)
qed

lemma zero_command_wf: "command_wf (zero_command t i)"
  by (simp add: command_wf_def zero_command_def IPC_MAX_URL_LEN_def IPC_MAX_PATH_LEN_def)

lemma add_command_wf: "command_wf (add_command url dest opts)"
  by (simp add: command_wf_def add_command_def zero_command_def Let_def opt_text_length length_strncpy_buf
      IPC_MAX_URL_LEN_def IPC_MAX_PATH_LEN_def split: option.splits)

lemma maybe_complete_wf: "ui_wf ui \<Longrightarrow> (\<And>r. old = Some r \<Longrightarrow> row_wf r) \<Longrightarrow> ui_wf (maybe_complete old status ui)"
  by (auto simp: maybe_complete_def ui_wf_def row_wf_def split: option.splits)

lemma find_row_in_wf: "rows_wf rows \<Longrightarrow> find_row_in (gui_model_snapshot_rows n rows) i = Some r \<Longrightarrow> row_wf r"
proof -
  assume "rows_wf rows" and "find_row_in (gui_model_snapshot_rows n rows) i = Some r"
  then have "r \<in> set (gui_model_snapshot_rows n rows)" unfolding find_row_in_def by (auto simp: find_Some_iff)
  then have "r \<in> set rows" unfolding gui_model_snapshot_rows_def by (rule in_set_takeD)
  with \<open>rows_wf rows\<close> show ?thesis by (simp add: rows_wf_def)
qed

lemma fold_complete_wf:
  "ui_wf ui \<Longrightarrow> (\<And>x r. f x = Some r \<Longrightarrow> row_wf r) \<Longrightarrow> ui_wf (fold (\<lambda>x. maybe_complete (f x) (g x)) xs ui)"
  by (induction xs arbitrary: ui) (simp_all add: maybe_complete_wf)

lemma consume_event_ui_wf:
  assumes "ui_wf ui" and "event_wf e"
  shows "ui_wf (consume_event e ui)"
proof -
  have rows: "rows_wf (ui_rows (consume_event e ui))" using assms(1) by (simp add: ui_wf_def consume_event_wf)
  let ?old = "\<lambda>i. find_row_in (gui_model_snapshot_rows GUI_MODEL_MAX_ROWS (ui_rows ui)) i"
  have old: "row_wf r" if "?old i = Some r" for i r
    using that assms(1) find_row_in_wf [of "ui_rows ui"] by (auto simp: ui_wf_def)
  have "ui_wf (maybe_complete (?old i) status ui)" for i status
    by (rule maybe_complete_wf [OF assms(1)]) (rule old)
  moreover have "ui_wf (fold (\<lambda>r. maybe_complete (?old (le_id r)) (le_status r)) records ui)" for records
    by (rule fold_complete_wf [OF assms(1)]) (rule old)
  ultimately show ?thesis
    using assms rows by (cases e) (auto simp: consume_event_def Let_def ui_wf_def length_strncpy_buf split: if_splits)
qed

lemma consume_events_wf:
  "slots_ok event_wf GUI_CONTROLLER_EVENT_CAP q \<Longrightarrow> ui_wf ui \<Longrightarrow>
   slots_ok event_wf GUI_CONTROLLER_EVENT_CAP (fst (consume_events q ui)) \<and> ui_wf (snd (consume_events q ui))"
proof (induction q ui rule: consume_events.induct)
  case (1 q ui)
  obtain r q1 where p: "gui_controller_poll q = (r, q1)" by fastforce
  note w = slots_ok_poll [OF 1(2) p [unfolded gui_controller_poll_def]]
  show ?case
  proof (cases r)
    case None
    with w p 1 show ?thesis by (simp add: consume_events.simps [of q ui])
  next
    case (Some e)
    with w p 1(1) [OF p [symmetric] Some] consume_event_ui_wf [OF 1(3)] show ?thesis
      by (simp add: consume_events.simps [of q ui])
  qed
qed

lemma controller_event_wf: "event_wf (controller_event e)"
  by (simp add: controller_event_def length_strncpy_buf)

lemma poll_client_event_wf: "report_wf st \<Longrightarrow> report_wf (poll_client_event st)"
  using slots_ok_poll [of client_event_wf GUI_EVENT_QUEUE_CAP "gl_queue (gu_client st)"]
  by (auto simp: poll_client_event_def gui_client_poll_event_def report_wf_def client_wf_def publish_wf controller_event_wf
      split: prod.splits option.splits)

lemma publish_snapshot_wf: "report_wf st \<Longrightarrow> report_wf (publish_snapshot V st)"
proof -
  assume st: "report_wf st"
  obtain r d where a: "gui_client_list_all V (gu_client st) = (r, d)" by fastforce
  have w: "client_wf d \<and> (\<forall>rs. r = Some rs \<longrightarrow> (\<forall>x \<in> set rs. row_wf x))"
    using list_all_wf [OF _ a] st by (simp add: report_wf_def)
  then show ?thesis
    using st by (cases r) (auto simp: publish_snapshot_def a report_wf_client rows_wf_def GUI_CONTROLLER_MAX_ROWS_def
        GUI_MODEL_MAX_ROWS_def intro!: report_wf_publish dest!: in_set_takeD)
qed

lemma poll_snapshot_frame [simp]:
  "gu_commands (poll_client_event st) = gu_commands st" "gu_commands (publish_snapshot V st) = gu_commands st"
  by (simp_all add: poll_client_event_def publish_snapshot_def split: prod.splits option.splits)

lemma gui_wf_report: "gui_wf x \<longleftrightarrow> report_wf (gs_gui x) \<and> slots_ok command_wf GUI_CONTROLLER_COMMAND_CAP (gu_commands (gs_gui x)) \<and>
    ui_wf (gs_ui x) \<and> (\<forall>c. gs_current x = Some c \<longrightarrow> command_wf c)"
  by (auto simp: gui_wf_def report_wf_def)

lemma gui_step_wf:
  assumes "gui_step V x y" and "gui_wf x"
  shows "gui_wf y"
  using assms
proof cases
  case (consume q ui)
  then show ?thesis using assms(2) consume_events_wf [of "gu_events (gs_gui x)" "gs_ui x"] by (simp add: gui_wf_def)
next
  case (dequeue c q)
  then show ?thesis
    using assms(2) slots_ok_poll [of command_wf GUI_CONTROLLER_COMMAND_CAP "gu_commands (gs_gui x)" c q]
    by (auto simp: gui_wf_def dequeue_command_def)
next
  case listener
  then show ?thesis using assms(2) listener_step_wf by (simp add: gui_wf_def)
next
  case (add url dest opts)
  then show ?thesis using assms(2) enqueue_command_wf [OF _ add_command_wf] by (simp add: gui_wf_def gui_controller_enqueue_add_def)
next
  case (command t i)
  then show ?thesis using assms(2) enqueue_command_wf [OF _ zero_command_wf] by (simp add: gui_wf_def enqueue_id_command_def)
qed (use assms(2) in \<open>simp_all add: gui_wf_report poll_client_event_wf publish_snapshot_wf process_command_wf\<close>)

section \<open>Properties\<close>

text \<open>
  The GUI stays well typed under every interleaving of its three threads: ring indices and counts
  in range with the tail where head and count put it, every stored text shorter than its buffer,
  pointers of a taken command inside the ring, at most 256 rows in the window's table.
\<close>

lemma gui_states_well_typed:
  assumes "gui_reachable V x y" and "gui_wf x"
  shows "gui_wf y"
  using assms by (induction rule: gui_reachable.induct) (auto intro: gui_step_wf)

definition demo_system :: gui_system where
  "demo_system = \<lparr>gs_gui = \<lparr>gu_events = ring_init GUI_CONTROLLER_EVENT_CAP (GUI_CONTROLLER_EVENT_CONNECTION False),
       gu_commands = ring_init GUI_CONTROLLER_COMMAND_CAP (zero_command GUI_CONTROLLER_COMMAND_ADD 0),
       gu_running = True, gu_thread_started = True, gu_client = quiet_gui_client\<rparr>,
     gs_ui = \<lparr>ui_connected = True, ui_selected_id = 0, ui_tab = TAB_ALL, ui_category = CATEGORY_ALL, ui_search = [],
       ui_details = zero_details, ui_details_found = False,
       ui_toast = \<lparr>le_id = 0, le_url = [], le_dest_path = [], le_status = [], le_progress = 0\<rparr>,
       ui_toast_open = False, ui_error = [], ui_rows = []\<rparr>,
     gs_current = None\<rparr>"

lemma demo_system_wf: "gui_wf demo_system"
  by (auto simp: gui_wf_def demo_system_def slots_ok_def client_wf_def quiet_gui_client_def ui_wf_def rows_wf_def row_wf_def
      ring_wf_def ring_init_def GUI_CONTROLLER_EVENT_CAP_def GUI_CONTROLLER_COMMAND_CAP_def GUI_EVENT_QUEUE_CAP_def
      zero_command_wf IPC_MAX_URL_LEN_def IPC_MAX_PATH_LEN_def)

end
