(* ===== verification/Cli.thy ===== *)
theory Cli
  imports Ipc_Client Path_Utils
begin

text \<open>
  The command line: \<open>src/cli/cli.c\<close> (numbers, options, commands) and \<open>src/main.c\<close> (dispatch and the
  start of the daemon). What is printed is a value of a report type, so that every message and every
  exit status of the code is a branch of the model.
\<close>

section \<open>Numbers\<close>

text \<open>\<open>strtoull(text, &end, 10)\<close>: white space, an optional sign, digits. \<open>None\<close>: no digits, so that
  \<open>end == text\<close>; otherwise the value, whether \<open>errno\<close> is \<open>ERANGE\<close>, and what follows. A minus sign
  negates the value in the unsigned type.\<close>

definition is_space :: "char \<Rightarrow> bool" where
  "is_space c \<longleftrightarrow> of_char c = (32 :: nat) \<or> (9 \<le> (of_char c :: nat) \<and> (of_char c :: nat) \<le> 13)"

definition strtoull :: "string \<Rightarrow> (u64 \<times> bool \<times> string) option" where
  "strtoull s =
     (let t = dropWhile is_space s;
          (neg, u) = (case t of
                        c # cs \<Rightarrow> if c = CHR ''-'' then (True, cs) else if c = CHR ''+'' then (False, cs) else (False, t)
                      | [] \<Rightarrow> (False, []));
          ds = takeWhile is_digit u; v = digits_val 0 ds
      in if ds = [] then None
         else if v \<ge> 2 ^ 64 then Some (- 1, True, dropWhile is_digit u)
         else Some (if neg then - of_nat v else of_nat v, False, dropWhile is_digit u))"

text \<open>\<open>strtol(v, &end, 10)\<close> on a 64-bit target; \<open>None\<close>: no digits.\<close>

definition strtol :: "string \<Rightarrow> (int \<times> string) option" where
  "strtol s =
     (let t = dropWhile is_space s;
          (neg, u) = (case t of
                        c # cs \<Rightarrow> if c = CHR ''-'' then (True, cs) else if c = CHR ''+'' then (False, cs) else (False, t)
                      | [] \<Rightarrow> (False, []));
          ds = takeWhile is_digit u; v = int (digits_val 0 ds)
      in if ds = [] then None
         else Some (if neg then (if v > 2 ^ 63 then - (2 ^ 63) else - v) else (if v \<ge> 2 ^ 63 then 2 ^ 63 - 1 else v), dropWhile is_digit u))"

definition parse_u64 :: "string \<Rightarrow> u64 option" where
  "parse_u64 s =
     (if s = [] \<or> hd s = CHR ''-'' then None
      else case strtoull s of
             None \<Rightarrow> None
           | Some (v, erange, rest) \<Rightarrow> if erange \<or> rest \<noteq> [] then None else Some v)"

definition parse_id :: "string \<Rightarrow> u32 option" where
  "parse_id s =
     (case parse_u64 s of
        None \<Rightarrow> None
      | Some v \<Rightarrow> if v = 0 \<or> v > 0xFFFFFFFF then None else Some (ucast v))"

section \<open>Options of the add command\<close>

record add_args =
  aa_cookie :: "string option"
  aa_referrer :: "string option"
  aa_sha256 :: "string option"
  aa_speed_limit :: u64
  aa_headers :: string      \<comment> \<open>\<open>headers_buf\<close>\<close>
  aa_has_options :: bool
  aa_valid :: bool

definition parse_flag :: "string \<Rightarrow> string \<Rightarrow> add_args \<Rightarrow> add_args" where
  "parse_flag flag v a =
     (if flag = ''--cookie'' then a\<lparr>aa_cookie := Some v, aa_has_options := True\<rparr>
      else if flag = ''--referrer'' then a\<lparr>aa_referrer := Some v, aa_has_options := True\<rparr>
      else if flag = ''--sha256'' then a\<lparr>aa_sha256 := Some v, aa_has_options := True\<rparr>
      else if flag = ''--limit''
      then (case parse_u64 v of
              None \<Rightarrow> a\<lparr>aa_valid := False, aa_has_options := True\<rparr>
            | Some w \<Rightarrow> a\<lparr>aa_speed_limit := w, aa_has_options := True\<rparr>)
      else if flag = ''--header''
      then (let separator_len = (if aa_headers a \<noteq> [] then 1 else 0)
            in if length (aa_headers a) + separator_len + length v \<ge> 4096
               then a\<lparr>aa_valid := False, aa_has_options := True\<rparr>
               else a\<lparr>aa_headers := aa_headers a @ (if aa_headers a \<noteq> [] then [CHR 0x0A] else []) @ v, aa_has_options := True\<rparr>)
      else a\<lparr>aa_valid := False\<rparr>)"

fun parse_flags :: "string list \<Rightarrow> add_args \<Rightarrow> add_args" where
  "parse_flags (flag # v # rest) a = parse_flags rest (parse_flag flag v a)"
| "parse_flags _ a = a"

text \<open>
  \<open>parse_add_options\<close>: the result, \<open>*valid_out\<close> and \<open>*opts_out\<close>. The header string is a pointer to the
  local \<open>headers_buf\<close>, whose lifetime ends with the function: what the caller finds there is
  \<open>dangling headers_buf\<close>.
\<close>

definition parse_add_options :: "(string \<Rightarrow> string) \<Rightarrow> string list \<Rightarrow> bool \<times> bool \<times> ipc_options" where
  "parse_add_options dangling args =
     (let a = parse_flags args \<lparr>aa_cookie = None, aa_referrer = None, aa_sha256 = None, aa_speed_limit = 0,
                aa_headers = [], aa_has_options = False, aa_valid = (length args mod 2 = 0)\<rparr>
      in (aa_has_options a, aa_valid a,
          \<lparr>io_cookie = aa_cookie a, io_referrer = aa_referrer a,
           io_extra_headers = (if aa_headers a \<noteq> [] then Some (dangling (aa_headers a)) else None),
           io_expected_sha256 = aa_sha256 a, io_speed_limit_bps = aa_speed_limit a\<rparr>))"

section \<open>Commands\<close>

datatype cli_report =
  CliUsage | CannotConnect | PathTooLong | NoAvailablePath | InvalidAddOptions | DownloadAdded u32 string |
  InvalidId string | CommandDone string u32 | CommandFailed string u32 | UnknownCommand string

record cli_env =
  cv_connect :: "sock option"           \<comment> \<open>what \<open>ipc_client_connect\<close> yields\<close>
  cv_default_dir :: string              \<comment> \<open>\<open>config_get_default_download_dir\<close>\<close>
  cv_kernel :: kernel
  cv_fs :: fs
  cv_printer :: json_printer
  cv_dangling :: "string \<Rightarrow> string"

text \<open>Exit status, report and the socket as the command leaves it.\<close>

type_synonym cli_result = "int \<times> cli_report \<times> sock option"

definition cli_add :: "cli_env \<Rightarrow> string \<Rightarrow> string list \<Rightarrow> sock \<Rightarrow> cli_result" where
  "cli_add C url args s =
     (let (dir0, opts_args) = (case args of
                                 d # rest \<Rightarrow> if take 2 d \<noteq> ''--'' then (d, rest) else ([], args)
                               | [] \<Rightarrow> ([], []));
          dest_dir = (if dir0 = [] then cv_default_dir C else dir0)
      in case path_join dest_dir (path_filename_from_url url 512) IPC_MAX_PATH_LEN of
           None \<Rightarrow> (1, PathTooLong, Some s)
         | Some full_path \<Rightarrow>
             (case path_make_unique (cv_kernel C) (cv_fs C) full_path IPC_MAX_PATH_LEN of
                None \<Rightarrow> (1, NoAvailablePath, Some s)
              | Some unique_path \<Rightarrow>
                  let (has_opts, valid, opts) = parse_add_options (cv_dangling C) opts_args
                  in if \<not> valid then (1, InvalidAddOptions, Some s)
                     else (case ipc_send_add_download (cv_printer C) url unique_path (if has_opts then Some opts else None) s of
                             (i, s1) \<Rightarrow> (0, DownloadAdded i unique_path, Some s1))))"

definition cli_control :: "string \<Rightarrow> (u32 \<Rightarrow> sock \<Rightarrow> int \<times> sock) \<Rightarrow> string \<Rightarrow> sock \<Rightarrow> cli_result" where
  "cli_control cmd fn arg s =
     (case parse_id arg of
        None \<Rightarrow> (1, InvalidId arg, Some s)
      | Some i \<Rightarrow>
          (case fn i s of
             (rc, s1) \<Rightarrow> if rc = 0 then (0, CommandDone cmd i, Some s1) else (1, CommandFailed cmd i, Some s1)))"

text \<open>\<open>argv\<close> starts with \<open>cli\<close>, as \<open>main\<close> passes it.\<close>

definition run_cli :: "cli_env \<Rightarrow> string list \<Rightarrow> cli_result" where
  "run_cli C argv =
     (if length argv < 2 then (1, CliUsage, None)
      else case cv_connect C of
             None \<Rightarrow> (1, CannotConnect, None)
           | Some s \<Rightarrow>
               (case tl argv of
                  cmd # arg # rest \<Rightarrow>
                    if cmd = ''add'' then cli_add C arg rest s
                    else if cmd = ''pause'' then cli_control ''pause'' ipc_send_pause arg s
                    else if cmd = ''resume'' then cli_control ''resume'' ipc_send_resume arg s
                    else if cmd = ''cancel'' then cli_control ''cancel'' ipc_send_cancel arg s
                    else (1, UnknownCommand cmd, Some s)
                | cmd # [] \<Rightarrow> (1, UnknownCommand cmd, Some s)
                | [] \<Rightarrow> (1, CliUsage, None)))"

section \<open>The program\<close>

text \<open>What \<open>main\<close> meets: the answers of successive probes of the daemon, the path of the executable,
  whether the daemon could be spawned, and the exit status of each entry point.\<close>

record main_env =
  me_running :: "bool list"
  me_exe_path :: string
  me_spawned :: bool
  me_run_daemon :: int
  me_autostart :: "string \<Rightarrow> int"
  me_gui :: int
  me_cli :: "string list \<Rightarrow> int"
  me_popup :: "u32 \<Rightarrow> int"
  me_browser :: "string list \<Rightarrow> int"

definition probe :: "nat \<Rightarrow> bool list \<Rightarrow> bool" where
  "probe k rs \<longleftrightarrow> k < length rs \<and> rs ! k"

text \<open>The wait for the socket: probes \<open>k\<close>, \<open>k + 1\<close>, \dots\ with \<open>n\<close> attempts left.\<close>

fun wait_ready :: "nat \<Rightarrow> nat \<Rightarrow> bool list \<Rightarrow> bool" where
  "wait_ready 0 k rs = False"
| "wait_ready (Suc n) k rs = (if probe k rs then True else wait_ready n (Suc k) rs)"

definition ensure_daemon_running :: "main_env \<Rightarrow> int" where
  "ensure_daemon_running M =
     (if probe 0 (me_running M) then 0
      else if me_exe_path M = [] then -1
      else if \<not> me_spawned M then -1
      else if wait_ready 50 1 (me_running M) then 0 else -1)"

text \<open>\<open>strtoul\<close> on a 64-bit target is \<open>strtoull\<close>; with no digits \<open>end\<close> is the argument itself.\<close>

definition popup_id :: "string \<Rightarrow> u32 option" where
  "popup_id s =
     (case strtoull s of
        None \<Rightarrow> None
      | Some (v, erange, rest) \<Rightarrow> if erange \<or> rest \<noteq> [] \<or> v = 0 \<or> v > 0xFFFFFFFF then None else Some (ucast v))"

definition cdm_main :: "main_env \<Rightarrow> string list \<Rightarrow> int" where
  "cdm_main M argv =
     (case argv of
        _ # mode # rest \<Rightarrow>
          if mode = ''daemon''
          then (case rest of
                  [] \<Rightarrow> me_run_daemon M
                | [c] \<Rightarrow> if c = ''enable'' \<or> c = ''disable'' \<or> c = ''status'' then me_autostart M c else 2
                | _ \<Rightarrow> 2)
          else if mode = ''gui'' \<or> mode = ''ui''
          then (if ensure_daemon_running M \<noteq> 0 then 1 else me_gui M)
          else if mode = ''cli''
          then (if ensure_daemon_running M \<noteq> 0 then 1 else me_cli M (tl argv))
          else if mode = ''browser-popup'' \<and> length argv = 4 \<and> hd rest = ''--offer''
          then (case popup_id (argv ! 3) of None \<Rightarrow> 1 | Some i \<Rightarrow> me_popup M i)
          else if mode = ''browser'' then me_browser M (tl argv)
          else 1
      | _ \<Rightarrow> if ensure_daemon_running M \<noteq> 0 then 1 else me_gui M)"

section \<open>Lemmas\<close>

lemma digit_facts: "is_digit c \<Longrightarrow> \<not> is_space c \<and> c \<noteq> CHR ''-'' \<and> c \<noteq> CHR ''+''"
  by (auto simp: is_digit_def is_space_def)

lemma strtoull_dec:
  "strtoull (dec n) = Some (if n \<ge> 2 ^ 64 then (- 1, True, []) else (of_nat n, False, []))"
  "strtoull (CHR '' '' # CHR ''-'' # dec n) = Some (if n \<ge> 2 ^ 64 then (- 1, True, []) else (- of_nat n, False, []))"
proof -
  obtain c cs where d: "dec n = c # cs" by (cases "dec n") auto
  have all: "\<forall>x \<in> set (dec n). is_digit x" using dec_digits by blast
  then have t: "takeWhile is_digit (dec n) = dec n" "dropWhile is_digit (dec n) = []"
    by (simp_all add: takeWhile_eq_all_conv dropWhile_eq_Nil_conv)
  have c: "\<not> is_space c" "c \<noteq> CHR ''-''" "c \<noteq> CHR ''+''" using all d digit_facts [of c] by simp_all
  show "strtoull (dec n) = Some (if n \<ge> 2 ^ 64 then (- 1, True, []) else (of_nat n, False, []))"
    using t c digits_val_dec [of n] unfolding strtoull_def Let_def d by simp
  have "dropWhile is_space (CHR '' '' # CHR ''-'' # dec n) = CHR ''-'' # dec n" by (simp add: is_space_def)
  then show "strtoull (CHR '' '' # CHR ''-'' # dec n) = Some (if n \<ge> 2 ^ 64 then (- 1, True, []) else (- of_nat n, False, []))"
    by (simp add: strtoull_def Let_def t digits_val_dec del: dropWhile.simps)
qed

lemma strtol_dec: "n < 2 ^ 63 \<Longrightarrow> strtol (dec n) = Some (int n, [])"
proof -
  assume n: "n < 2 ^ 63"
  obtain c cs where d: "dec n = c # cs" by (cases "dec n") auto
  have all: "\<forall>x \<in> set (dec n). is_digit x" using dec_digits by blast
  then have t: "takeWhile is_digit (dec n) = dec n" "dropWhile is_digit (dec n) = []"
    by (simp_all add: takeWhile_eq_all_conv dropWhile_eq_Nil_conv)
  have c: "\<not> is_space c" "c \<noteq> CHR ''-''" "c \<noteq> CHR ''+''" using all d digit_facts [of c] by simp_all
  have "int n < 2 ^ 63" using n by (metis of_nat_less_numeral_power_cancel_iff of_nat_numeral)
  then show ?thesis using t c digits_val_dec [of n] unfolding strtol_def Let_def d by simp
qed

lemma dec_not_minus: "hd (dec n) \<noteq> CHR ''-''"
  using dec_digits [of "hd (dec n)" n] digit_facts by (simp add: hd_in_set)

lemma parse_u64_dec: "parse_u64 (dec n) = (if n < 2 ^ 64 then Some (of_nat n) else None)"
  by (simp add: parse_u64_def strtoull_dec dec_not_minus)

lemma parse_id_dec: "parse_id (dec n) = (if 0 < n \<and> n < 2 ^ 32 then Some (of_nat n) else None)"
proof (cases "n < 2 ^ 64")
  case True
  have u: "unat (of_nat n :: u64) = n" using True by (intro unat_of_nat_small) simp
  have "(of_nat n :: u64) = 0 \<longleftrightarrow> n = 0" using u unat_eq_zero [of "of_nat n :: u64"] by simp
  moreover have "(of_nat n :: u64) > 0xFFFFFFFF \<longleftrightarrow> n > 0xFFFFFFFF" by (simp add: word_less_nat_alt u)
  moreover have "ucast (of_nat n :: u64) = (of_nat n :: u32)" using True by (simp add: unsigned_of_nat take_bit_nat_eq_self)
  ultimately show ?thesis using True by (auto simp: parse_id_def parse_u64_dec)
next
  case False
  then show ?thesis by (simp add: parse_id_def parse_u64_dec)
qed

section \<open>Properties\<close>

text \<open>
  The numbers of the command line: an id is accepted exactly when it is the decimal text of a
  number from 1 to 4294967295, and a limit when it fits 64 bits. A minus sign is refused at the
  start of the text only: after a blank it is read, and the limit becomes the two's complement.
\<close>

lemma cli_numbers_roundtrip:
  "parse_id (dec n) = (if 0 < n \<and> n < 2 ^ 32 then Some (of_nat n) else None) \<and>
   parse_u64 (dec n) = (if n < 2 ^ 64 then Some (of_nat n) else None) \<and>
   parse_u64 (CHR ''-'' # s) = None \<and>
   parse_u64 (CHR '' '' # CHR ''-'' # dec n) = (if n < 2 ^ 64 then Some (- of_nat n) else None)"
  by (simp add: parse_id_dec parse_u64_dec) (simp add: parse_u64_def strtoull_dec)

text \<open>
  The headers given on the command line never reach the daemon: two invocations that differ only
  in the value of their first header send the same bytes when the dead stack frame holds the same
  text, and the add command exits with status 0 whatever the daemon answers, a refusal included.
\<close>

lemma cli_header_is_lost:
  assumes "v \<noteq> []" and "v' \<noteq> []" and "length v < 4096" and "length v' < 4096"
    and "cv_dangling C v = cv_dangling C v'" and "cv_connect C = Some s" and "take 2 dir \<noteq> ''--''"
  shows "run_cli C [''cli'', ''add'', url, dir, ''--header'', v] = run_cli C [''cli'', ''add'', url, dir, ''--header'', v'] \<and>
    (\<forall>i path s'. run_cli C [''cli'', ''add'', url, dir] = (i, DownloadAdded 0 path, s') \<longrightarrow> i = 0)"
proof
  have eq: "parse_add_options (cv_dangling C) [''--header'', v] = parse_add_options (cv_dangling C) [''--header'', v']"
    using assms(1-5) by (simp add: parse_add_options_def parse_flag_def Let_def)
  show "run_cli C [''cli'', ''add'', url, dir, ''--header'', v] = run_cli C [''cli'', ''add'', url, dir, ''--header'', v']"
    using assms(6,7) by (simp add: run_cli_def cli_add_def eq cong: option.case_cong)
  show "\<forall>i path s'. run_cli C [''cli'', ''add'', url, dir] = (i, DownloadAdded 0 path, s') \<longrightarrow> i = 0"
    using assms(6,7) by (auto simp: run_cli_def cli_add_def Let_def split: option.splits prod.splits if_splits)
qed

text \<open>
  The exit status of a control command tells what the daemon decided: \<open>cdm cli pause\<close> with the
  decimal text of an id exits 0 exactly when that download was active or queued at the daemon, and
  otherwise 1.
\<close>

lemma cli_exit_status_is_the_verdict:
  assumes "0 < n" and "n < 2 ^ 32" and "2 \<le> so_writes s" and "so_out s = []"
  shows "\<exists>r st'. serve E fd (so_out (snd (ipc_send_pause (of_nat n) s))) st = Some (r, [], st') \<and>
    fst (run_cli (C\<lparr>cv_connect := Some (s\<lparr>so_in := reply_bytes A r\<rparr>)\<rparr>) [''cli'', ''pause'', dec n]) =
      (if queue_manager_get_status (of_nat n) (ip_q st) \<in> {Some DOWNLOAD_ACTIVE, Some DOWNLOAD_QUEUED} then 0 else 1)"
proof -
  obtain r st' where r: "serve E fd (so_out (snd (ipc_send_pause (of_nat n) s))) st = Some (r, [], st')"
    "fst (ipc_send_pause (of_nat n) (s\<lparr>so_in := reply_bytes A r\<rparr>)) = 0 \<longleftrightarrow>
       queue_manager_get_status (of_nat n) (ip_q st) \<in> {Some DOWNLOAD_ACTIVE, Some DOWNLOAD_QUEUED}"
    using id_command_end_to_end [OF assms(3,4) _ pause_verdict [of E fd "of_nat n" st], of A] unfolding ipc_send_pause_def by blast
  have "run_cli (C\<lparr>cv_connect := Some (s\<lparr>so_in := reply_bytes A r\<rparr>)\<rparr>) [''cli'', ''pause'', dec n] =
      cli_control ''pause'' ipc_send_pause (dec n) (s\<lparr>so_in := reply_bytes A r\<rparr>)"
    by (simp add: run_cli_def)
  then have "fst (run_cli (C\<lparr>cv_connect := Some (s\<lparr>so_in := reply_bytes A r\<rparr>)\<rparr>) [''cli'', ''pause'', dec n]) =
      (if fst (ipc_send_pause (of_nat n) (s\<lparr>so_in := reply_bytes A r\<rparr>)) = 0 then 0 else 1)"
    using assms(1,2) by (simp add: cli_control_def parse_id_dec case_prod_unfold)
  with r show ?thesis by auto
qed

definition demo_cli :: "sock \<Rightarrow> cli_env" where
  "demo_cli s = \<lparr>cv_connect = Some s, cv_default_dir = ''/d'', cv_kernel = good_kernel, cv_fs = Map.empty,
     cv_printer = demo_printer, cv_dangling = (\<lambda>_. ''junk'')\<rparr>"

end
