(* ===== verification/Scheduler.thy ===== *)
theory Scheduler
  imports Db Config
begin

text \<open>
  \<open>src/core/scheduler.c\<close>: starting downloads up to the configured limit, what a worker thread
  does with the engine's result (completion, cancel, pause, verification failure, retry with
  backoff, permanent error), reaping, shutdown and progress reports. The state is the queue, the
  store, the file system, the settings, the worker table and the messages sent to the GUI and the
  desktop; \<open>engine_run_download\<close> appears through its return code. The theory shows that the
  worker table and the ACTIVE entries correspond, that the limit holds, that a failing download
  is retried a bounded number of times, and that after a crash the store restores what the queue
  held.
\<close>

definition SCHEDULER_MAX_WORKERS :: nat where
  "SCHEDULER_MAX_WORKERS = 64"

record sched_worker =
  w_download_id :: u32
  w_done :: bool
  w_in_use :: bool

datatype notify_kind = DM_NOTIFY_INFO | DM_NOTIFY_ERROR

record sched =
  s_qm :: qm_state
  s_db :: database
  s_fs :: fs
  s_cfg :: config_state
  g_workers :: "sched_worker list"
  s_broadcasts :: "(u32 \<times> string \<times> rat) list"       \<comment> \<open>\<open>ipc_broadcast_status\<close>, newest first\<close>
  s_notices :: "(string \<times> string \<times> notify_kind) list"

definition free_worker :: sched_worker where
  "free_worker = \<lparr>w_download_id = 0, w_done = False, w_in_use = False\<rparr>"

definition basename_of :: "string \<Rightarrow> string" where
  "basename_of path = (case strrchr (CHR ''/'') path of None \<Rightarrow> path | Some i \<Rightarrow> drop (Suc i) path)"

text \<open>\<open>base << shift\<close> is computed in 32 bits.\<close>

definition retry_backoff_seconds :: "config_state \<Rightarrow> int \<Rightarrow> int" where
  "retry_backoff_seconds c attempt =
     (let base = g_retry_base_delay_sec c;
          max_delay = g_retry_max_delay_sec c;
          shift = (if attempt - 1 > 30 then 30 else attempt - 1);
          delay = as_int (base * 2 ^ nat shift)
      in if delay > max_delay \<or> delay < 0 then max_delay else delay)"

section \<open>The worker thread\<close>

definition on_qm :: "(qm_state \<Rightarrow> qm_state) \<Rightarrow> sched \<Rightarrow> sched" where
  "on_qm f st = st\<lparr>s_qm := f (s_qm st)\<rparr>"

definition on_db :: "(database \<Rightarrow> int \<times> database) \<Rightarrow> sched \<Rightarrow> sched" where
  "on_db f st = st\<lparr>s_db := snd (f (s_db st))\<rparr>"

definition broadcast :: "u32 \<Rightarrow> string \<Rightarrow> rat \<Rightarrow> sched \<Rightarrow> sched" where
  "broadcast i text progress st = st\<lparr>s_broadcasts := (i, text, progress) # s_broadcasts st\<rparr>"

definition notify_send :: "string \<Rightarrow> string \<Rightarrow> notify_kind \<Rightarrow> sched \<Rightarrow> sched" where
  "notify_send title body kind st = st\<lparr>s_notices := (title, body, kind) # s_notices st\<rparr>"

definition set_retry :: "int \<Rightarrow> int \<Rightarrow> download \<Rightarrow> download" where
  "set_retry n t d = d\<lparr>dl_retry_count := n, dl_next_retry_at := t\<rparr>"

text \<open>
  \<open>download_thread_fn\<close> from the point where \<open>engine_run_download\<close> has returned \<open>rc\<close>;
  \<open>now\<close> is \<open>time(NULL)\<close>. The entry is present: an ACTIVE entry is never unlinked.
\<close>

definition finish_error :: "sql \<Rightarrow> download \<Rightarrow> string \<Rightarrow> sched \<Rightarrow> sched" where
  "finish_error Q dl text st =
     (let i = dl_id dl;
          st1 = on_qm (qm_update i (set_retry 0 0)) st;
          st2 = on_qm (queue_manager_update_status i DOWNLOAD_ERROR) st1;
          st3 = on_db (db_update_status Q i ''ERROR'') st2;
          st4 = broadcast i text (dl_progress dl) st3
      in notify_send ''Download Failed'' (basename_of (dl_dest_path dl)) DM_NOTIFY_ERROR st4)"

definition finish_done :: "sql \<Rightarrow> download \<Rightarrow> sched \<Rightarrow> sched" where
  "finish_done Q dl st =
     (let i = dl_id dl;
          st1 = on_qm (qm_update i (\<lambda>d. (set_retry 0 0 d)\<lparr>dl_chunk_count := 0\<rparr>)) st;
          st2 = on_db (db_delete_chunks Q i) st1;
          st3 = on_qm (queue_manager_update_status i DOWNLOAD_DONE) st2;
          st4 = on_db (db_update_status Q i ''DONE'') st3;
          st5 = broadcast i ''Done'' 1 st4
      in notify_send ''Download Complete'' (basename_of (dl_dest_path dl)) DM_NOTIFY_INFO st5)"

definition finish_canceled :: "sql \<Rightarrow> kernel \<Rightarrow> download \<Rightarrow> sched \<Rightarrow> sched" where
  "finish_canceled Q K dl st =
     (let i = dl_id dl;
          st1 = on_qm (queue_manager_clear_resume_state i) st;
          st2 = on_db (db_delete_chunks Q i) st1;
          st3 = on_db (db_update_total_size Q i 0) st2;
          st4 = (if dl_dest_path dl \<noteq> [] then st3\<lparr>s_fs := sys_unlink K (dl_dest_path dl) (s_fs st3)\<rparr>
                 else st3);
          st5 = on_db (db_update_status Q i ''CANCELED'') st4;
          st6 = on_qm (queue_manager_update_status i DOWNLOAD_CANCELED) st5
      in broadcast i ''Canceled'' 0 st6)"

definition finish_paused :: "sql \<Rightarrow> download \<Rightarrow> sched \<Rightarrow> sched" where
  "finish_paused Q dl st =
     (let i = dl_id dl;
          st1 = on_qm (queue_manager_update_status i DOWNLOAD_PAUSED) st;
          st2 = on_db (db_update_status Q i ''PAUSED'') st1
      in broadcast i ''Paused'' (dl_progress dl) st2)"

definition finish_retry :: "sql \<Rightarrow> int \<Rightarrow> download \<Rightarrow> sched \<Rightarrow> sched" where
  "finish_retry Q now dl st =
     (let i = dl_id dl;
          n = dl_retry_count dl + 1;
          delay = retry_backoff_seconds (s_cfg st) n;
          st1 = on_qm (qm_update i (set_retry n (now + delay))) st;
          st2 = on_qm (queue_manager_update_status i DOWNLOAD_QUEUED) st1;
          st3 = on_db (db_update_status Q i ''QUEUED'') st2
      in broadcast i ''Retrying'' (dl_progress dl) st3)"

definition download_thread_fn :: "sql \<Rightarrow> kernel \<Rightarrow> int \<Rightarrow> int \<Rightarrow> u32 \<Rightarrow> sched \<Rightarrow> sched" where
  "download_thread_fn Q K rc now i st =
     (case queue_manager_find_by_id i (s_qm st) of
        None \<Rightarrow> st
      | Some dl \<Rightarrow>
          if rc = 0 then finish_done Q dl st
          else if dl_cancel_requested dl then finish_canceled Q K dl st
          else if dl_pause_requested dl then finish_paused Q dl st
          else if rc = -2 then finish_error Q dl ''Verification failed'' st
          else if rc = -3 \<or> rc = -4 then finish_error Q dl ''Error'' st
          else if dl_retry_count dl < g_retry_max_attempts (s_cfg st) then finish_retry Q now dl st
          else finish_error Q dl ''Error'' st)"

text \<open>\<open>scheduler_worker_fn\<close> on slot \<open>k\<close>.\<close>

definition scheduler_worker_fn :: "sql \<Rightarrow> kernel \<Rightarrow> int \<Rightarrow> int \<Rightarrow> nat \<Rightarrow> sched \<Rightarrow> sched" where
  "scheduler_worker_fn Q K rc now k st =
     (let st' = download_thread_fn Q K rc now (w_download_id (g_workers st ! k)) st
      in st'\<lparr>g_workers := (g_workers st')[k := (g_workers st' ! k)\<lparr>w_done := True\<rparr>]\<rparr>)"

section \<open>The scheduler\<close>

definition reap_worker :: "sched_worker \<Rightarrow> sched_worker" where
  "reap_worker w = (if \<not> w_in_use w \<or> \<not> w_done w then w
                    else w\<lparr>w_download_id := 0, w_in_use := False\<rparr>)"

definition reap_finished_workers :: "sched \<Rightarrow> sched" where
  "reap_finished_workers st = st\<lparr>g_workers := map reap_worker (g_workers st)\<rparr>"

fun free_slot :: "sched_worker list \<Rightarrow> nat option" where
  "free_slot [] = None"
| "free_slot (w # ws) = (if \<not> w_in_use w then Some 0 else map_option Suc (free_slot ws))"

text \<open>\<open>thread_ok\<close>: \<open>dm_thread_create\<close> returns 0.\<close>

definition scheduler_tick :: "bool \<Rightarrow> int \<Rightarrow> sched \<Rightarrow> sched" where
  "scheduler_tick thread_ok now st0 =
     (let st = reap_finished_workers st0;
          active_count = queue_manager_count_by_status DOWNLOAD_ACTIVE (s_qm st);
          max_active = g_max_concurrent (s_cfg st)
      in if \<not> int active_count < max_active then st
         else case queue_manager_find_next_queued now (s_qm st) of
                None \<Rightarrow> st
              | Some d \<Rightarrow>
                  let i = dl_id d;
                      st1 = on_qm (qm_update i (\<lambda>d. d\<lparr>dl_status := DOWNLOAD_ACTIVE,
                                                     dl_next_retry_at := 0\<rparr>)) st;
                      rollback = on_qm (qm_update i (\<lambda>d. d\<lparr>dl_status := DOWNLOAD_QUEUED\<rparr>))
                  in case free_slot (g_workers st1) of
                       None \<Rightarrow> rollback st1
                     | Some k \<Rightarrow>
                         let w = (g_workers st1 ! k)\<lparr>w_download_id := i, w_done := False,
                                                      w_in_use := True\<rparr>
                         in if thread_ok then st1\<lparr>g_workers := (g_workers st1)[k := w]\<rparr>
                            else rollback (st1\<lparr>g_workers := (g_workers st1)[k :=
                                   w\<lparr>w_download_id := 0, w_in_use := False\<rparr>]\<rparr>))"

text \<open>
  \<open>scheduler_shutdown\<close>: every download in the table is asked to pause, then each thread is
  joined; \<open>rcs k\<close> is what the engine of slot \<open>k\<close> returns once it has seen the flags.
\<close>

definition shutdown_pause :: "sched \<Rightarrow> sched" where
  "shutdown_pause st =
     fold (\<lambda>w st. if w_in_use w
                  then on_qm (\<lambda>q. snd (queue_manager_pause (w_download_id w) q)) st else st)
          (g_workers st) st"

definition join_worker :: "sql \<Rightarrow> kernel \<Rightarrow> (nat \<Rightarrow> int) \<Rightarrow> int \<Rightarrow> nat \<Rightarrow> sched \<Rightarrow> sched" where
  "join_worker Q K rcs now k st =
     (if \<not> w_in_use (g_workers st ! k) then st
      else let st' = (if w_done (g_workers st ! k) then st
                      else scheduler_worker_fn Q K (rcs k) now k st)
           in st'\<lparr>g_workers := (g_workers st')[k := (g_workers st' ! k)
                                 \<lparr>w_download_id := 0, w_in_use := False\<rparr>]\<rparr>)"

definition scheduler_shutdown :: "sql \<Rightarrow> kernel \<Rightarrow> (nat \<Rightarrow> int) \<Rightarrow> int \<Rightarrow> sched \<Rightarrow> sched" where
  "scheduler_shutdown Q K rcs now st =
     fold (join_worker Q K rcs now) [0..<length (g_workers st)] (shutdown_pause st)"

text \<open>\<open>fl\<close> rounds the quotient to a \<open>float\<close>.\<close>

definition scheduler_report_progress :: "sql \<Rightarrow> (rat \<Rightarrow> rat) \<Rightarrow> sched \<Rightarrow> sched" where
  "scheduler_report_progress Q fl st =
     (let snaps = queue_manager_snapshot_active_progress 64 (s_qm st);
          st1 = fold (\<lambda>(i, got, size). broadcast i ''Downloading''
                        (if size > 0 then fl (of_nat (unat got) / of_nat (unat size)) else 0)) snaps st;
          chunk_snaps = queue_manager_snapshot_chunk_progress 64 (s_qm st1)
      in fold (\<lambda>(i, a, n). on_db (db_update_chunk_progress Q i a n)) chunk_snaps st1)"

section \<open>Backoff\<close>

lemma retry_backoff_bounds:
  assumes "config_ok c"
  shows "0 \<le> retry_backoff_seconds c n \<and> retry_backoff_seconds c n \<le> g_retry_max_delay_sec c"
  using assms by (auto simp: retry_backoff_seconds_def config_ok_def Let_def)

lemma retry_backoff_exact:
  assumes "config_ok c" and "1 \<le> n" and "n \<le> 31"
    and "g_retry_base_delay_sec c * 2 ^ nat (n - 1) < 2 ^ 31"
  shows "retry_backoff_seconds c n =
     min (g_retry_max_delay_sec c) (g_retry_base_delay_sec c * 2 ^ nat (n - 1))"
proof -
  let ?d = "g_retry_base_delay_sec c * 2 ^ nat (n - 1)"
  have "0 \<le> ?d" using assms(1) by (simp add: config_ok_def)
  then have "as_int ?d = ?d" using assms(4) by (intro as_int_id) auto
  then show ?thesis using assms(3) \<open>0 \<le> ?d\<close> by (auto simp: retry_backoff_seconds_def Let_def)
qed

lemma retry_backoff_wraps:
  assumes "g_retry_base_delay_sec c = 4" and "0 \<le> g_retry_max_delay_sec c" and "31 \<le> n"
  shows "retry_backoff_seconds c n = 0"
proof -
  have s: "nat (if n - 1 > 30 then 30 else n - 1) = 30" using assms(3) by auto
  have "as_int (4 * 2 ^ 30) = 0" by (simp add: as_int_def)
  then show ?thesis unfolding retry_backoff_seconds_def Let_def s assms(1) using assms(2) by simp
qed

section \<open>What a finished thread leaves behind\<close>

lemma sched_frames [frame_simps]:
  "s_qm (on_db f st) = s_qm st" "s_qm (broadcast i t p st) = s_qm st"
  "s_qm (notify_send a b k st) = s_qm st" "s_qm (on_qm g st) = g (s_qm st)"
  "s_db (on_qm g st) = s_db st" "s_db (broadcast i t p st) = s_db st"
  "s_db (notify_send a b k st) = s_db st" "s_db (on_db f st) = snd (f (s_db st))"
  "s_cfg (on_qm g st) = s_cfg st" "s_cfg (on_db f st) = s_cfg st"
  "s_cfg (broadcast i t p st) = s_cfg st" "s_cfg (notify_send a b k st) = s_cfg st"
  "g_workers (on_qm g st) = g_workers st" "g_workers (on_db f st) = g_workers st"
  "g_workers (broadcast i t p st) = g_workers st" "g_workers (notify_send a b k st) = g_workers st"
  by (simp_all add: on_db_def on_qm_def broadcast_def notify_send_def)

lemma thread_frames [frame_simps]:
  "s_cfg (download_thread_fn Q K rc now i st) = s_cfg st"
  "g_workers (download_thread_fn Q K rc now i st) = g_workers st"
  by (auto simp: download_thread_fn_def finish_error_def finish_done_def finish_canceled_def
      finish_paused_def finish_retry_def Let_def frame_simps split: option.splits)

text \<open>The specification of the thread's verdict.\<close>

definition thread_outcome :: "int \<Rightarrow> config_state \<Rightarrow> download \<Rightarrow> download_status" where
  "thread_outcome rc c dl =
     (if rc = 0 then DOWNLOAD_DONE
      else if dl_cancel_requested dl then DOWNLOAD_CANCELED
      else if dl_pause_requested dl then DOWNLOAD_PAUSED
      else if rc \<in> {-2, -3, -4} then DOWNLOAD_ERROR
      else if dl_retry_count dl < g_retry_max_attempts c then DOWNLOAD_QUEUED
      else DOWNLOAD_ERROR)"

text \<open>The changes the branches make to the entry.\<close>

definition thread_effect :: "int \<Rightarrow> int \<Rightarrow> config_state \<Rightarrow> download \<Rightarrow> download \<Rightarrow> download" where
  "thread_effect rc now c dl =
     (if rc = 0 then (\<lambda>d. (set_retry 0 0 d)\<lparr>dl_chunk_count := 0, dl_status := DOWNLOAD_DONE\<rparr>)
      else if dl_cancel_requested dl then (\<lambda>d. (clear_resume d)\<lparr>dl_status := DOWNLOAD_CANCELED\<rparr>)
      else if dl_pause_requested dl then (\<lambda>d. d\<lparr>dl_status := DOWNLOAD_PAUSED\<rparr>)
      else if rc \<notin> {-2, -3, -4} \<and> dl_retry_count dl < g_retry_max_attempts c
      then (\<lambda>d. (set_retry (dl_retry_count dl + 1)
                   (now + retry_backoff_seconds c (dl_retry_count dl + 1)) d)
                \<lparr>dl_status := DOWNLOAD_QUEUED\<rparr>)
      else (\<lambda>d. (set_retry 0 0 d)\<lparr>dl_status := DOWNLOAD_ERROR\<rparr>))"

lemma thread_effect_id: "dl_id (thread_effect rc now c dl d) = dl_id d"
  by (simp add: thread_effect_def set_retry_def clear_resume_def)

lemma thread_effect_wf: "wf_download d \<Longrightarrow> wf_download (thread_effect rc now c dl d)"
  by (simp add: thread_effect_def set_retry_def clear_resume_def wf_download_def)

lemma thread_effect_status: "dl_status (thread_effect rc now c dl d) = thread_outcome rc c dl"
  by (auto simp: thread_effect_def thread_outcome_def)

lemma upd_first_upd_first:
  "(\<And>x. P x \<Longrightarrow> P (g x)) \<Longrightarrow> upd_first P f (upd_first P g xs) = upd_first P (f \<circ> g) xs"
  by (induction xs) auto

lemma qm_update_update:
  "(\<And>d. dl_id (g d) = dl_id d) \<Longrightarrow> qm_update i f (qm_update i g s) = qm_update i (f \<circ> g) s"
  by (simp add: qm_update_def upd_first_upd_first)

lemma thread_queue:
  assumes "queue_manager_find_by_id i (s_qm st) = Some dl"
  shows "s_qm (download_thread_fn Q K rc now i st) =
     qm_update i (thread_effect rc now (s_cfg st) dl) (s_qm st)"
proof -
  have i: "dl_id dl = i" using assms by (rule qs.lookup_key)
  show ?thesis
    unfolding download_thread_fn_def assms option.case
    by (simp add: finish_error_def finish_done_def finish_canceled_def finish_paused_def
        finish_retry_def thread_effect_def Let_def frame_simps i queue_manager_update_status_def
        queue_manager_clear_resume_state_def qm_update_update set_retry_def clear_resume_def comp_def)
qed

lemma thread_status:
  assumes "queue_manager_find_by_id i (s_qm st) = Some dl"
  shows "queue_manager_get_status j (s_qm (download_thread_fn Q K rc now i st)) =
     (if j = i then Some (thread_outcome rc (s_cfg st) dl) else queue_manager_get_status j (s_qm st))"
  using assms unfolding thread_queue [OF assms]
  by (simp add: get_status_update thread_effect_id comp_def thread_effect_status)

lemma thread_outcome_not_active: "thread_outcome rc c dl \<noteq> DOWNLOAD_ACTIVE"
  by (simp add: thread_outcome_def)

section \<open>Workers and ACTIVE entries\<close>

definition running :: "sched_worker list \<Rightarrow> u32 list" where
  "running ws = map w_download_id (filter (\<lambda>w. w_in_use w \<and> \<not> w_done w) ws)"

definition active_ids :: "qm_state \<Rightarrow> u32 set" where
  "active_ids s = {i. queue_manager_get_status i s = Some DOWNLOAD_ACTIVE}"

definition sched_inv :: "sched \<Rightarrow> bool" where
  "sched_inv st \<longleftrightarrow>
     qm_inv (s_qm st) \<and> length (g_workers st) = SCHEDULER_MAX_WORKERS \<and>
     distinct (running (g_workers st)) \<and> set (running (g_workers st)) = active_ids (s_qm st) \<and>
     int (card (active_ids (s_qm st))) \<le> g_max_concurrent (s_cfg st)"

lemma get_status_mem:
  assumes "qm_inv s" and "d \<in> set (g_head s)"
  shows "queue_manager_get_status (dl_id d) s = Some (dl_status d)"
  using assms by (simp add: queue_manager_get_status_def find_key_unique qm_inv_def)

lemma get_status_SomeD:
  "queue_manager_get_status i s = Some x \<Longrightarrow> \<exists>d\<in>set (g_head s). dl_id d = i \<and> dl_status d = x"
  unfolding queue_manager_get_status_def by (auto dest: find_SomeD)

lemma active_ids_image:
  assumes "qm_inv s"
  shows "active_ids s = dl_id ` set (filter (\<lambda>d. dl_status d = DOWNLOAD_ACTIVE) (g_head s))"
  using get_status_mem [OF assms] by (force simp: active_ids_def dest: get_status_SomeD)

lemma count_active_card:
  assumes "qm_inv s"
  shows "queue_manager_count_by_status DOWNLOAD_ACTIVE s = card (active_ids s)"
proof -
  let ?ds = "filter (\<lambda>d. dl_status d = DOWNLOAD_ACTIVE) (g_head s)"
  have "distinct (map dl_id ?ds)" using assms by (auto simp: qm_inv_def intro: distinct_map_filter)
  then have "card (set (map dl_id ?ds)) = length ?ds" using distinct_card length_map by metis
  then show ?thesis by (simp add: count_by_status_filter active_ids_image [OF assms])
qed

lemma finite_active_ids: "qm_inv s \<Longrightarrow> finite (active_ids s)"
  by (simp add: active_ids_image)

lemma active_ids_update:
  assumes "\<And>d. dl_id (f d) = dl_id d" and "queue_manager_find_by_id i s = Some d"
  shows "active_ids (qm_update i f s) =
     (if dl_status (f d) = DOWNLOAD_ACTIVE then insert i (active_ids s) else active_ids s - {i})"
  using assms by (auto simp: active_ids_def get_status_update)

lemma active_ids_update_status_same:
  assumes "\<And>d. dl_id (f d) = dl_id d" and "\<And>d. dl_status (f d) = dl_status d"
  shows "active_ids (qm_update i f s) = active_ids s"
  using assms by (simp add: active_ids_def get_status_find qs.lookup_update_field)

lemma active_ids_control:
  "active_ids (snd (queue_manager_cancel i s)) = active_ids s"
  "active_ids (snd (queue_manager_pause i s)) = active_ids s"
  "active_ids (snd (queue_manager_resume i s)) = active_ids s"
  by (auto simp: active_ids_def cancel_status pause_status resume_status)

lemma active_ids_add:
  assumes "qm_inv s"
  shows "active_ids (snd (queue_manager_add K url dest opts s)) = active_ids s"
proof -
  have "g_next_id s \<notin> dl_id ` set (g_head s)" using assms by (force simp: qm_inv_def)
  then have "queue_manager_get_status (g_next_id s) s = None"
    by (simp add: queue_manager_get_status_def find_None_key)
  then show ?thesis
    by (auto simp: active_ids_def queue_manager_add_def queue_manager_get_status_def Let_def)
qed

lemma active_ids_remove:
  assumes "qm_inv s"
  shows "active_ids (fst (queue_manager_remove K i s fs)) = active_ids s"
proof (cases "queue_manager_get_status i s = Some DOWNLOAD_ACTIVE")
  case True
  then show ?thesis
    by (auto simp: queue_manager_remove_def queue_manager_get_status_def active_ids_update_status_same)
next
  case False
  obtain s' fs' where r: "queue_manager_remove K i s fs = (s', fs')" by fastforce
  note spec = remove_spec [OF assms False r]
  have "queue_manager_get_status j s' = (if j = i then None else queue_manager_get_status j s)" for j
    using spec by (simp add: get_status_find)
  with False r show ?thesis by (auto simp: active_ids_def)
qed

section \<open>The worker table\<close>

lemma running_update:
  assumes "k < length ws"
  shows "\<exists>xs ys. running ws = xs @ running [ws ! k] @ ys \<and> running (ws[k := w]) = xs @ running [w] @ ys"
proof -
  let ?a = "take k ws" and ?b = "drop (Suc k) ws"
  have "running ws = running (?a @ ws ! k # ?b)" using assms by (simp add: id_take_nth_drop [symmetric])
  moreover have "running (ws[k := w]) = running (?a @ w # ?b)"
    using assms by (simp add: upd_conv_take_nth_drop)
  moreover have "running (us @ v # vs) = running us @ running [v] @ running vs" for us v vs
    by (simp add: running_def)
  ultimately show ?thesis by metis
qed

lemma running_reap [simp]: "running (map reap_worker ws) = running ws"
  by (induction ws) (auto simp: running_def reap_worker_def)

lemma running_one: "running [w] = (if w_in_use w \<and> \<not> w_done w then [w_download_id w] else [])"
  by (simp add: running_def)

lemma running_start:
  assumes "k < length ws" and "\<not> w_in_use (ws ! k)" and "w_in_use w" and "\<not> w_done w"
  shows "set (running (ws[k := w])) = insert (w_download_id w) (set (running ws))"
    and "distinct (running (ws[k := w])) \<longleftrightarrow> distinct (running ws) \<and> w_download_id w \<notin> set (running ws)"
  using running_update [OF assms(1), of w] assms by (auto simp: running_one)

lemma running_stop:
  assumes "k < length ws" and "w_in_use (ws ! k)" and "\<not> w_done (ws ! k)"
    and "w_done w \<or> \<not> w_in_use w" and "distinct (running ws)"
  shows "set (running (ws[k := w])) = set (running ws) - {w_download_id (ws ! k)}"
    and "distinct (running (ws[k := w]))"
  using running_update [OF assms(1), of w] assms by (auto simp: running_one)

lemma running_same:
  assumes "k < length ws" and "\<not> w_in_use (ws ! k) \<or> w_done (ws ! k)"
    and "\<not> w_in_use w \<or> w_done w"
  shows "running (ws[k := w]) = running ws"
  using running_update [OF assms(1), of w] assms by (auto simp: running_one)

lemma free_slot_SomeD: "free_slot ws = Some k \<Longrightarrow> k < length ws \<and> \<not> w_in_use (ws ! k)"
  by (induction ws arbitrary: k) (auto split: if_splits)

section \<open>Invariant along every interleaving\<close>

lemma sched_inv_reap: "sched_inv st \<Longrightarrow> sched_inv (reap_finished_workers st)"
  by (simp add: sched_inv_def reap_finished_workers_def)

lemma sched_inv_qm:
  assumes "sched_inv st" and "qm_inv q" and "active_ids q = active_ids (s_qm st)"
  shows "sched_inv (st\<lparr>s_qm := q\<rparr>)"
  using assms by (simp add: sched_inv_def)

abbreviation activate :: "download \<Rightarrow> download" where
  "activate d \<equiv> d\<lparr>dl_status := DOWNLOAD_ACTIVE, dl_next_retry_at := 0\<rparr>"

lemma next_queued_lookup:
  assumes "qm_inv s" and "queue_manager_find_next_queued now s = Some d"
  shows "queue_manager_find_by_id (dl_id d) s = Some d" and "dl_id d \<notin> active_ids s"
proof -
  have d: "d \<in> set (g_head s)" "dl_status d = DOWNLOAD_QUEUED"
    using find_next_queued_SomeD [OF assms(2)] by (auto simp: eligible_def)
  then show "queue_manager_find_by_id (dl_id d) s = Some d"
    using assms(1) by (simp add: queue_manager_find_by_id_def find_key_unique qm_inv_def)
  show "dl_id d \<notin> active_ids s"
    using get_status_mem [OF assms(1) d(1)] d(2) by (simp add: active_ids_def)
qed

text \<open>Whether or not a thread can be started, a tick keeps table and queue in step.\<close>

lemma sched_inv_tick [inv_intros]:
  assumes "sched_inv st0"
  shows "sched_inv (scheduler_tick thread_ok now st0)"
proof -
  define st where "st = reap_finished_workers st0"
  have inv: "sched_inv st" unfolding st_def using assms by (rule sched_inv_reap)
  then have q: "qm_inv (s_qm st)" by (simp add: sched_inv_def)
  show ?thesis
  proof (cases "int (queue_manager_count_by_status DOWNLOAD_ACTIVE (s_qm st)) < g_max_concurrent (s_cfg st) \<and>
      queue_manager_find_next_queued now (s_qm st) \<noteq> None")
    case False
    then show ?thesis
      using inv by (auto simp: scheduler_tick_def Let_def st_def [symmetric] split: option.splits)
  next
    case True
    then obtain d where d: "queue_manager_find_next_queued now (s_qm st) = Some d" by auto
    let ?i = "dl_id d"
    note look = next_queued_lookup [OF q d]
    let ?q1 = "qm_update ?i activate (s_qm st)"
    let ?q2 = "qm_update ?i (\<lambda>d. d\<lparr>dl_status := DOWNLOAD_QUEUED\<rparr>) ?q1"
    have q1: "qm_inv ?q1" using q by (rule qm_inv_update) simp_all
    then have q2: "qm_inv ?q2" by (rule qm_inv_update) simp_all
    have a1: "active_ids ?q1 = insert ?i (active_ids (s_qm st))"
      using active_ids_update [of activate ?i "s_qm st" d] look(1) by simp
    have "queue_manager_find_by_id ?i ?q1 = Some (activate d)"
      using look(1) by (simp add: qs.lookup_update)
    then have a2: "active_ids ?q2 = active_ids (s_qm st)"
      using look(2) a1 by (simp add: active_ids_update)
    have room: "int (card (active_ids ?q1)) \<le> g_max_concurrent (s_cfg st)"
      using True count_active_card [OF q] finite_active_ids [OF q] look(2) a1 by simp
    have undo: "sched_inv (st\<lparr>g_workers := ws, s_qm := ?q2\<rparr>)"
      if "length ws = length (g_workers st)" "running ws = running (g_workers st)" for ws
      using inv q2 a2 that by (simp add: sched_inv_def)
    have go: "sched_inv (st\<lparr>s_qm := ?q1, g_workers := (g_workers st)[k := w]\<rparr>)"
      if "free_slot (g_workers st) = Some k" "w_download_id w = ?i" "w_in_use w" "\<not> w_done w" for k w
      using free_slot_SomeD [OF that(1)] running_start [of k "g_workers st" w] that inv q1 a1 room look(2)
      by (auto simp: sched_inv_def)
    have still: "running ((g_workers st)[k := w]) = running (g_workers st)"
      if "free_slot (g_workers st) = Some k" "\<not> w_in_use w" for k w
      using free_slot_SomeD [OF that(1)] that(2) by (intro running_same) auto
    have "st\<lparr>s_qm := ?q2\<rparr> = st\<lparr>g_workers := g_workers st, s_qm := ?q2\<rparr>" by simp
    then have "sched_inv (st\<lparr>s_qm := ?q2\<rparr>)" using undo by metis
    then show ?thesis
      using True d undo go still
      by (auto simp: scheduler_tick_def Let_def st_def [symmetric] on_qm_def split: option.splits)
  qed
qed

text \<open>The invariant without the configured bound, which a new configuration may lower.\<close>

definition sched_core :: "sched \<Rightarrow> bool" where
  "sched_core st \<longleftrightarrow>
     qm_inv (s_qm st) \<and> length (g_workers st) = SCHEDULER_MAX_WORKERS \<and>
     distinct (running (g_workers st)) \<and> set (running (g_workers st)) = active_ids (s_qm st)"

lemma sched_inv_core: "sched_inv st \<longleftrightarrow> sched_core st \<and> int (card (active_ids (s_qm st))) \<le> g_max_concurrent (s_cfg st)"
  by (auto simp: sched_inv_def sched_core_def)

lemma sched_core_tick:
  assumes "sched_core st"
  shows "sched_core (scheduler_tick thread_ok now st)"
proof (cases "int (queue_manager_count_by_status DOWNLOAD_ACTIVE (s_qm st)) < g_max_concurrent (s_cfg st)")
  case True
  then have "sched_inv st" using assms count_active_card [of "s_qm st"] by (auto simp: sched_inv_core sched_core_def)
  from sched_inv_tick [OF this] show ?thesis by (simp add: sched_inv_core)
next
  case False
  then show ?thesis using assms by (simp add: scheduler_tick_def reap_finished_workers_def Let_def sched_core_def)
qed

lemma sched_core_finish:
  assumes inv: "sched_core st" and k: "k < length (g_workers st)"
    and run: "w_in_use (g_workers st ! k)" "\<not> w_done (g_workers st ! k)"
  shows "sched_core (scheduler_worker_fn Q K rc now k st)"
    and "active_ids (s_qm (scheduler_worker_fn Q K rc now k st)) = active_ids (s_qm st) - {w_download_id (g_workers st ! k)}"
    and "s_cfg (scheduler_worker_fn Q K rc now k st) = s_cfg st"
    and "\<exists>dl. queue_manager_find_by_id (w_download_id (g_workers st ! k)) (s_qm st) = Some dl"
proof -
  let ?i = "w_download_id (g_workers st ! k)"
  let ?w = "(g_workers st ! k)\<lparr>w_done := True\<rparr>"
  have "?i \<in> set (running (g_workers st))"
    using k run by (auto simp: running_def)
  then have "?i \<in> active_ids (s_qm st)" using inv by (simp add: sched_core_def)
  then obtain dl where dl: "queue_manager_find_by_id ?i (s_qm st) = Some dl"
    by (auto simp: active_ids_def get_status_find)
  let ?f = "thread_effect rc now (s_cfg st) dl"
  have q: "s_qm (download_thread_fn Q K rc now ?i st) = qm_update ?i ?f (s_qm st)"
    using dl by (rule thread_queue)
  have inv': "qm_inv (qm_update ?i ?f (s_qm st))"
    using inv by (intro qm_inv_update) (auto simp: sched_core_def thread_effect_id thread_effect_wf)
  have a: "active_ids (qm_update ?i ?f (s_qm st)) = active_ids (s_qm st) - {?i}"
    using dl by (simp add: active_ids_update thread_effect_id thread_effect_status thread_outcome_not_active)
  show "sched_core (scheduler_worker_fn Q K rc now k st)"
    using inv inv' a running_stop [OF k run, of ?w]
    by (simp add: sched_core_def scheduler_worker_fn_def Let_def frame_simps q)
  show "active_ids (s_qm (scheduler_worker_fn Q K rc now k st)) = active_ids (s_qm st) - {?i}"
    using a by (simp add: scheduler_worker_fn_def Let_def frame_simps q)
  show "s_cfg (scheduler_worker_fn Q K rc now k st) = s_cfg st"
    by (simp add: scheduler_worker_fn_def Let_def frame_simps)
  show "\<exists>dl. queue_manager_find_by_id ?i (s_qm st) = Some dl" using dl by blast
qed

lemma sched_inv_finish [inv_intros]:
  assumes inv: "sched_inv st" and k: "k < length (g_workers st)"
    and run: "w_in_use (g_workers st ! k)" "\<not> w_done (g_workers st ! k)"
  shows "sched_inv (scheduler_worker_fn Q K rc now k st)"
proof -
  have core: "sched_core st" using inv by (simp add: sched_inv_core)
  have "card (active_ids (s_qm st) - {w_download_id (g_workers st ! k)}) \<le> card (active_ids (s_qm st))"
    using inv by (intro card_mono finite_active_ids) (auto simp: sched_inv_def)
  then show ?thesis
    using inv sched_core_finish(1-3) [OF core k run, of Q K rc now] by (simp add: sched_inv_core)
qed

text \<open>
  One step of the daemon as the scheduler sees it: a tick, a thread that finishes, the engine
  writing progress into a running entry, a control request, and the addition or removal of an
  entry.
\<close>

inductive sched_step :: "sql \<Rightarrow> kernel \<Rightarrow> sched \<Rightarrow> sched \<Rightarrow> bool" for Q K where
  tick: "sched_step Q K st (scheduler_tick thread_ok now st)"
| finish: "k < length (g_workers st) \<Longrightarrow> w_in_use (g_workers st ! k) \<Longrightarrow> \<not> w_done (g_workers st ! k) \<Longrightarrow>
    sched_step Q K st (scheduler_worker_fn Q K rc now k st)"
| engine: "(\<And>d. dl_id (f d) = dl_id d) \<Longrightarrow> (\<And>d. dl_status (f d) = dl_status d) \<Longrightarrow>
    (\<And>d. wf_download d \<Longrightarrow> wf_download (f d)) \<Longrightarrow>
    sched_step Q K st (st\<lparr>s_qm := qm_update i f (s_qm st), s_fs := fs'\<rparr>)"
| pause: "sched_step Q K st (st\<lparr>s_qm := snd (queue_manager_pause i (s_qm st))\<rparr>)"
| resume: "sched_step Q K st (st\<lparr>s_qm := snd (queue_manager_resume i (s_qm st))\<rparr>)"
| cancel: "sched_step Q K st (st\<lparr>s_qm := snd (queue_manager_cancel i (s_qm st))\<rparr>)"
| add: "g_next_id (s_qm st) \<noteq> - 1 \<Longrightarrow>
    sched_step Q K st (st\<lparr>s_qm := snd (queue_manager_add K url dest opts (s_qm st))\<rparr>)"
| remove: "queue_manager_remove K i (s_qm st) (s_fs st) = (q, fs') \<Longrightarrow>
    sched_step Q K st (st\<lparr>s_qm := q, s_fs := fs'\<rparr>)"

lemma sched_inv_s_fs [simp]: "sched_inv (st\<lparr>s_fs := x\<rparr>) = sched_inv st"
  by (simp add: sched_inv_def)

lemma sched_inv_step: "sched_step Q K st st' \<Longrightarrow> sched_inv st \<Longrightarrow> sched_inv st'"
proof (induction rule: sched_step.induct)
  case (tick st thread_ok now)
  then show ?case by (intro sched_inv_tick)
next
  case (finish k st rc now)
  then show ?case by (intro sched_inv_finish)
next
  case (engine f st fs' i)
  then have "sched_inv (st\<lparr>s_qm := qm_update i f (s_qm st)\<rparr>)"
    by (intro sched_inv_qm qm_inv_update) (auto simp: sched_inv_def active_ids_update_status_same)
  moreover have "st\<lparr>s_qm := qm_update i f (s_qm st), s_fs := fs'\<rparr> =
      st\<lparr>s_qm := qm_update i f (s_qm st)\<rparr>\<lparr>s_fs := fs'\<rparr>" by simp
  ultimately show ?case by (simp only: sched_inv_s_fs)
next
  case (remove i st q fs')
  have q: "qm_inv (s_qm st)" using remove by (simp add: sched_inv_def)
  have "sched_inv (st\<lparr>s_qm := q\<rparr>)"
    using remove qm_inv_remove [OF q, of K i "s_fs st"] active_ids_remove [OF q, of K i "s_fs st"]
    by (intro sched_inv_qm) auto
  moreover have "st\<lparr>s_qm := q, s_fs := fs'\<rparr> = st\<lparr>s_qm := q\<rparr>\<lparr>s_fs := fs'\<rparr>" by simp
  ultimately show ?case by (simp only: sched_inv_s_fs)
qed (auto intro!: sched_inv_qm qm_inv_control qm_inv_add
      simp: sched_inv_def active_ids_control active_ids_add)

inductive sched_reachable :: "sql \<Rightarrow> kernel \<Rightarrow> sched \<Rightarrow> sched \<Rightarrow> bool" for Q K st0 where
  start: "sched_reachable Q K st0 st0"
| move: "sched_reachable Q K st0 st \<Longrightarrow> sched_step Q K st st' \<Longrightarrow> sched_reachable Q K st0 st'"

lemma sched_inv_reachable: "sched_reachable Q K st0 st \<Longrightarrow> sched_inv st0 \<Longrightarrow> sched_inv st"
  by (induction rule: sched_reachable.induct) (auto intro: sched_inv_step)

section \<open>Bounded retries\<close>

text \<open>One failing attempt: the tick starts the entry, the engine fails with a retryable code.\<close>

definition failing_attempt :: "sql \<Rightarrow> kernel \<Rightarrow> int \<Rightarrow> u32 \<Rightarrow> sched \<Rightarrow> sched" where
  "failing_attempt Q K now i st =
     download_thread_fn Q K (-1) now i (on_qm (qm_update i activate) st)"

lemma failing_attempt_entry:
  assumes "queue_manager_find_by_id i (s_qm st) = Some d"
    and "\<not> dl_cancel_requested d" "\<not> dl_pause_requested d"
  shows "queue_manager_find_by_id i (s_qm (failing_attempt Q K now i st)) = Some
    (if dl_retry_count d < g_retry_max_attempts (s_cfg st)
     then d\<lparr>dl_retry_count := dl_retry_count d + 1, dl_status := DOWNLOAD_QUEUED,
            dl_next_retry_at := now + retry_backoff_seconds (s_cfg st) (dl_retry_count d + 1)\<rparr>
     else d\<lparr>dl_retry_count := 0, dl_next_retry_at := 0, dl_status := DOWNLOAD_ERROR\<rparr>)"
proof -
  let ?st = "on_qm (qm_update i activate) st"
  have l: "queue_manager_find_by_id i (s_qm ?st) = Some (activate d)"
    using assms(1) by (simp add: frame_simps qs.lookup_update)
  show ?thesis
    unfolding failing_attempt_def thread_queue [OF l] using l assms(2,3)
    by (auto simp: qs.lookup_update thread_effect_id frame_simps)
       (auto simp: thread_effect_def set_retry_def)
qed

lemma failing_attempt_cfg [simp]: "s_cfg (failing_attempt Q K now i st) = s_cfg st"
  by (simp add: failing_attempt_def frame_simps)

lemma retries_entry:
  assumes "queue_manager_find_by_id i (s_qm st) = Some d" "dl_retry_count d = 0"
    "\<not> dl_cancel_requested d" "\<not> dl_pause_requested d"
    and "int n \<le> g_retry_max_attempts (s_cfg st)"
  shows "\<exists>e. queue_manager_find_by_id i (s_qm ((failing_attempt Q K now i ^^ n) st)) = Some e \<and>
      dl_retry_count e = int n \<and> \<not> dl_cancel_requested e \<and> \<not> dl_pause_requested e \<and>
      (0 < n \<longrightarrow> dl_status e = DOWNLOAD_QUEUED) \<and> s_cfg ((failing_attempt Q K now i ^^ n) st) = s_cfg st"
  using assms(5)
proof (induction n)
  case 0
  then show ?case using assms by auto
next
  case (Suc n)
  then obtain e where e: "queue_manager_find_by_id i (s_qm ((failing_attempt Q K now i ^^ n) st)) = Some e"
    "dl_retry_count e = int n" "\<not> dl_cancel_requested e" "\<not> dl_pause_requested e"
    "s_cfg ((failing_attempt Q K now i ^^ n) st) = s_cfg st" by auto
  from failing_attempt_entry [OF e(1,3,4), of Q K now] e Suc.prems show ?case by auto
qed

section \<open>Shutdown\<close>

lemma shutdown_pause_fold:
  assumes "sched_inv st"
  shows "sched_inv (fold (\<lambda>w st. if w_in_use w
      then on_qm (\<lambda>q. snd (queue_manager_pause (w_download_id w) q)) st else st) ws st)
    \<and> g_workers (fold (\<lambda>w st. if w_in_use w
      then on_qm (\<lambda>q. snd (queue_manager_pause (w_download_id w) q)) st else st) ws st) = g_workers st"
  using assms
proof (induction ws arbitrary: st)
  case Nil
  then show ?case by simp
next
  case (Cons w ws)
  let ?st = "on_qm (\<lambda>q. snd (queue_manager_pause (w_download_id w) q)) st"
  have "sched_inv ?st" unfolding on_qm_def using Cons.prems
    by (intro sched_inv_qm qm_inv_control) (auto simp: sched_inv_def active_ids_control)
  from Cons.IH [OF this] Cons.IH [OF Cons.prems] show ?case by (simp add: frame_simps)
qed

lemma join_worker_inv:
  assumes inv: "sched_inv st" and k: "k < length (g_workers st)"
  shows "sched_inv (join_worker Q K rcs now k st)"
    and "\<exists>w. \<not> w_in_use w \<and> g_workers (join_worker Q K rcs now k st) = (g_workers st)[k := w]"
proof -
  have len: "length (g_workers st) = SCHEDULER_MAX_WORKERS" using inv by (simp add: sched_inv_def)
  show "\<exists>w. \<not> w_in_use w \<and> g_workers (join_worker Q K rcs now k st) = (g_workers st)[k := w]"
  proof (cases "w_in_use (g_workers st ! k)")
    case False
    then show ?thesis by (intro exI [of _ "g_workers st ! k"]) (simp add: join_worker_def)
  next
    case True
    let ?w = "g_workers st ! k"
    show ?thesis
    proof (cases "w_done ?w")
      case fin: True
      show ?thesis
        by (rule exI [of _ "?w\<lparr>w_download_id := 0, w_in_use := False\<rparr>"])
           (simp add: join_worker_def Let_def True fin)
    next
      case False
      show ?thesis
        by (rule exI [of _ "?w\<lparr>w_done := True, w_download_id := 0, w_in_use := False\<rparr>"])
           (simp add: join_worker_def scheduler_worker_fn_def Let_def frame_simps True False k)
    qed
  qed
  have clear: "sched_inv (s\<lparr>g_workers := (g_workers s)[k := (g_workers s ! k)\<lparr>w_download_id := 0, w_in_use := False\<rparr>]\<rparr>)"
    if "sched_inv s" "w_done (g_workers s ! k)" for s
    using that k len running_same [of k "g_workers s"] by (simp add: sched_inv_def)
  show "sched_inv (join_worker Q K rcs now k st)"
  proof (cases "w_in_use (g_workers st ! k) \<and> \<not> w_done (g_workers st ! k)")
    case True
    then have f: "sched_inv (scheduler_worker_fn Q K (rcs k) now k st)"
      using inv k by (intro sched_inv_finish) auto
    have "w_done (g_workers (scheduler_worker_fn Q K (rcs k) now k st) ! k)"
      using k by (simp add: scheduler_worker_fn_def Let_def frame_simps)
    with clear [OF f] True show ?thesis by (simp add: join_worker_def Let_def)
  next
    case False
    with inv clear [OF inv] show ?thesis by (auto simp: join_worker_def Let_def)
  qed
qed

lemma join_all:
  assumes "sched_inv st" and "n \<le> length (g_workers st)"
  shows "sched_inv (fold (join_worker Q K rcs now) [0..<n] st) \<and>
    length (g_workers (fold (join_worker Q K rcs now) [0..<n] st)) = length (g_workers st) \<and>
    (\<forall>j<n. \<not> w_in_use (g_workers (fold (join_worker Q K rcs now) [0..<n] st) ! j))"
  using assms(2)
proof (induction n)
  case 0
  then show ?case using assms by simp
next
  case (Suc n)
  let ?s = "fold (join_worker Q K rcs now) [0..<n] st"
  have s: "sched_inv ?s" "length (g_workers ?s) = length (g_workers st)"
    "\<forall>j<n. \<not> w_in_use (g_workers ?s ! j)" using Suc by auto
  then have k: "n < length (g_workers ?s)" using Suc.prems by simp
  obtain w where w: "\<not> w_in_use w" "g_workers (join_worker Q K rcs now n ?s) = (g_workers ?s)[n := w]"
    using join_worker_inv(2) [OF s(1) k] by blast
  from join_worker_inv(1) [OF s(1) k] w s k show ?case
    by (auto simp: less_Suc_eq nth_list_update)
qed

lemma shutdown_stops_all:
  assumes "sched_inv st"
  shows "sched_inv (scheduler_shutdown Q K rcs now st)"
    and "active_ids (s_qm (scheduler_shutdown Q K rcs now st)) = {}"
proof -
  let ?p = "shutdown_pause st"
  have p: "sched_inv ?p" "g_workers ?p = g_workers st"
    using shutdown_pause_fold [OF assms] by (auto simp: shutdown_pause_def)
  let ?r = "scheduler_shutdown Q K rcs now st"
  have r: "sched_inv ?r" "\<forall>w\<in>set (g_workers ?r). \<not> w_in_use w"
    using join_all [OF p(1), of "length (g_workers st)" Q K rcs now] p(2)
    by (auto simp: scheduler_shutdown_def in_set_conv_nth)
  then have "running (g_workers ?r) = []" by (simp add: running_def)
  with r show "active_ids (s_qm ?r) = {}" by (simp add: sched_inv_def)
  show "sched_inv ?r" by (rule r(1))
qed

section \<open>What a crash would restore\<close>

definition status_text :: "download_status \<Rightarrow> string" where
  "status_text s = (case s of DOWNLOAD_QUEUED \<Rightarrow> ''QUEUED'' | DOWNLOAD_ACTIVE \<Rightarrow> ''ACTIVE''
     | DOWNLOAD_PAUSED \<Rightarrow> ''PAUSED'' | DOWNLOAD_DONE \<Rightarrow> ''DONE'' | DOWNLOAD_ERROR \<Rightarrow> ''ERROR''
     | DOWNLOAD_CANCELED \<Rightarrow> ''CANCELED'')"

definition persisted :: "sched \<Rightarrow> u32 \<Rightarrow> bool" where
  "persisted st i \<longleftrightarrow>
     (case queue_manager_get_status i (s_qm st) of
        None \<Rightarrow> True
      | Some s \<Rightarrow>
          (case find_row (s_db st) (sint i) of
             None \<Rightarrow> False
           | Some r \<Rightarrow> (s = DOWNLOAD_DONE \<longleftrightarrow> row_status r = ''DONE'') \<and>
                       (s \<noteq> DOWNLOAD_DONE \<longrightarrow> status_of_text (row_status r) = crash_image s)))"

lemma thread_db_inv:
  "db_inv (s_db st) \<Longrightarrow> db_inv (s_db (download_thread_fn Q K rc now i st))"
  "db_ready (s_db (download_thread_fn Q K rc now i st)) = db_ready (s_db st)"
  by (auto simp: download_thread_fn_def finish_error_def finish_done_def finish_canceled_def
      finish_paused_def finish_retry_def Let_def frame_simps split: option.splits intro!: db_inv_writes)

lemma thread_row_status:
  assumes "queue_manager_find_by_id i (s_qm st) = Some dl"
    and "db_ready (s_db st)" and "Q StUpdateStatus = Runs"
  shows "map_option row_status (find_row (s_db (download_thread_fn Q K rc now i st)) (sint j)) =
     (if j = i then map_option (\<lambda>_. status_text (thread_outcome rc (s_cfg st) dl)) (find_row (s_db st) (sint i))
      else map_option row_status (find_row (s_db st) (sint j)))"
proof -
  have i: "dl_id dl = i" using assms(1) by (rule qs.lookup_key)
  show ?thesis
    unfolding download_thread_fn_def assms(1) option.case
    using assms(2,3)
    by (simp add: finish_error_def finish_done_def finish_canceled_def finish_paused_def finish_retry_def
        thread_outcome_def status_text_def Let_def frame_simps i row_status_update
        row_status_other_writes)
qed

lemma persisted_in_store: "persisted st i \<longleftrightarrow> in_store (s_qm st) (s_db st) i"
  by (auto simp: persisted_def in_store_def status_agrees_def split: option.splits)

lemma persisted_alt:
  "persisted st i \<longleftrightarrow>
     (case (queue_manager_get_status i (s_qm st), map_option row_status (find_row (s_db st) (sint i))) of
        (None, _) \<Rightarrow> True
      | (Some s, None) \<Rightarrow> False
      | (Some s, Some t) \<Rightarrow> (s = DOWNLOAD_DONE \<longleftrightarrow> t = ''DONE'') \<and>
                            (s \<noteq> DOWNLOAD_DONE \<longrightarrow> status_of_text t = crash_image s))"
  by (auto simp: persisted_def split: option.splits)

lemma status_of_status_text:
  "status_text s = ''DONE'' \<longleftrightarrow> s = DOWNLOAD_DONE"
  "s \<noteq> DOWNLOAD_DONE \<Longrightarrow> status_of_text (status_text s) = crash_image s"
  by (auto simp: status_text_def status_of_text_def crash_image_def split: download_status.splits)

lemma thread_persists:
  assumes "queue_manager_find_by_id i (s_qm st) = Some dl"
    and "db_ready (s_db st)" and "Q StUpdateStatus = Runs" and "persisted st i" and "persisted st j"
  shows "persisted (download_thread_fn Q K rc now i st) j"
proof -
  have "queue_manager_get_status i (s_qm st) \<noteq> None" using assms(1) by (simp add: get_status_find)
  then have "find_row (s_db st) (sint i) \<noteq> None"
    using assms(4) by (auto simp: persisted_def split: option.splits)
  then show ?thesis
    using assms(5) status_of_status_text
    by (auto simp: persisted_alt thread_status [OF assms(1)] thread_row_status [where Q = Q, OF assms(1-3)])
qed

lemma tick_status:
  assumes "qm_inv (s_qm st)"
  shows "\<exists>i. queue_manager_get_status j (s_qm (scheduler_tick thread_ok now st)) =
     queue_manager_get_status j (s_qm st) \<or>
     (j = i \<and> queue_manager_get_status i (s_qm st) = Some DOWNLOAD_QUEUED \<and>
      queue_manager_get_status j (s_qm (scheduler_tick thread_ok now st)) = Some DOWNLOAD_ACTIVE)"
proof (cases "queue_manager_find_next_queued now (s_qm st)")
  case None
  then show ?thesis by (simp add: scheduler_tick_def reap_finished_workers_def Let_def)
next
  case (Some d)
  have l: "queue_manager_find_by_id (dl_id d) (s_qm st) = Some d"
    using next_queued_lookup(1) [OF assms Some] .
  have "dl_status d = DOWNLOAD_QUEUED"
    using find_next_queued_SomeD(2) [OF Some] by (simp add: eligible_def)
  then have "queue_manager_get_status (dl_id d) (s_qm st) = Some DOWNLOAD_QUEUED"
    using l by (simp add: get_status_find)
  then show ?thesis
    using Some l
    by (intro exI [of _ "dl_id d"])
       (auto simp: scheduler_tick_def reap_finished_workers_def Let_def on_qm_def get_status_update
         qs.lookup_update split: option.splits)
qed

lemma tick_db [simp]: "s_db (scheduler_tick thread_ok now st) = s_db st"
  by (auto simp: scheduler_tick_def reap_finished_workers_def Let_def on_qm_def split: option.splits)

lemma tick_persists:
  assumes "qm_inv (s_qm st)" and "persisted st j"
  shows "persisted (scheduler_tick thread_ok now st) j"
  using tick_status [OF assms(1), of j thread_ok now] assms(2)
  by (auto simp: persisted_def crash_image_def split: option.splits)

lemma restart_status:
  assumes "db_inv (s_db st)" "db_ready (s_db st)" "Q StRestore = Runs" "\<And>site. k_alloc K site"
    and "persisted st i" and "queue_manager_get_status i (s_qm st) = Some s"
  shows "queue_manager_get_status i (snd (db_restore_queue Q K (s_db st) qm_init)) =
     (if s = DOWNLOAD_DONE then None else Some (crash_image s))"
proof -
  obtain r where r: "find_row (s_db st) (sint i) = Some r" "(s = DOWNLOAD_DONE) = (row_status r = ''DONE'')"
    "s \<noteq> DOWNLOAD_DONE \<Longrightarrow> status_of_text (row_status r) = crash_image s"
    using assms(5,6) by (auto simp: persisted_def split: option.splits)
  obtain d where d: "restore_row Q K (s_db st) r = Some d" using restore_row_Some assms(4) by blast
  show ?thesis
    using restore_queue_lookup [of "s_db st" Q K i] assms(1-4) r d restore_row_fields(4) [OF d]
    by (auto simp: get_status_find)
qed

section \<open>Properties\<close>


definition sched_start :: "qm_state \<Rightarrow> sched" where
  "sched_start q =
     \<lparr>s_qm = q, s_db = \<lparr>db_ready = True, db_columns = [], t_downloads = [], t_chunks = []\<rparr>,
      s_fs = (\<lambda>_. None),
      s_cfg = \<lparr>g_max_concurrent = 3, g_default_dir = ''/tmp'', g_retry_max_attempts = 5,
               g_retry_base_delay_sec = 2, g_retry_max_delay_sec = 60, g_max_speed_bps = 0\<rparr>,
      g_workers = replicate SCHEDULER_MAX_WORKERS free_worker, s_broadcasts = [], s_notices = []\<rparr>"

lemma sched_inv_start: "sched_inv (sched_start qm_init)"
  using qm_inv_init
  by (simp add: sched_inv_def sched_start_def running_def free_worker_def active_ids_def
      queue_manager_get_status_def) (simp add: qm_init_def)


text \<open>
  The verdict of a worker thread: DONE exactly when the engine succeeded; otherwise a cancel
  request wins over a pause request, verification failures and destination conflicts are final, and
  any other failure is queued again while attempts remain. No other entry changes its status.
\<close>

lemma thread_verdict:
  assumes "queue_manager_find_by_id i (s_qm st) = Some dl"
  shows "queue_manager_get_status j (s_qm (download_thread_fn Q K rc now i st)) =
    (if j \<noteq> i then queue_manager_get_status j (s_qm st)
     else Some (if rc = 0 then DOWNLOAD_DONE
                else if dl_cancel_requested dl then DOWNLOAD_CANCELED
                else if dl_pause_requested dl then DOWNLOAD_PAUSED
                else if rc \<in> {-2, -3, -4} then DOWNLOAD_ERROR
                else if dl_retry_count dl < g_retry_max_attempts (s_cfg st) then DOWNLOAD_QUEUED
                else DOWNLOAD_ERROR))"
  using thread_status [OF assms] by (simp add: thread_outcome_def)

text \<open>
  C29: A download that keeps failing with a retryable error is retried exactly the configured number
  of times: it is queued again after each of the first failures, and the next failure makes it an
  ERROR with its counter reset.
\<close>

theorem retries_are_bounded:
  assumes "queue_manager_find_by_id i (s_qm st) = Some d" and "dl_retry_count d = 0"
    and "\<not> dl_cancel_requested d" and "\<not> dl_pause_requested d"
    and "g_retry_max_attempts (s_cfg st) = int m"
  shows "(\<forall>n. 1 \<le> n \<and> n \<le> m \<longrightarrow>
      queue_manager_get_status i (s_qm ((failing_attempt Q K now i ^^ n) st)) = Some DOWNLOAD_QUEUED) \<and>
    queue_manager_get_status i (s_qm ((failing_attempt Q K now i ^^ Suc m) st)) = Some DOWNLOAD_ERROR \<and>
    map_option dl_retry_count (queue_manager_find_by_id i (s_qm ((failing_attempt Q K now i ^^ Suc m) st))) = Some 0"
proof -
  have "queue_manager_get_status i (s_qm ((failing_attempt Q K now i ^^ n) st)) = Some DOWNLOAD_QUEUED"
    if "1 \<le> n" "n \<le> m" for n
    using retries_entry [OF assms(1-4), of n Q K now] assms(5) that by (auto simp: get_status_find)
  moreover obtain e where e: "queue_manager_find_by_id i (s_qm ((failing_attempt Q K now i ^^ m) st)) = Some e"
    "dl_retry_count e = int m" "\<not> dl_cancel_requested e" "\<not> dl_pause_requested e"
    "s_cfg ((failing_attempt Q K now i ^^ m) st) = s_cfg st"
    using retries_entry [OF assms(1-4), of m Q K now] assms(5) by auto
  ultimately show ?thesis
    using failing_attempt_entry [OF e(1,3,4), of Q K now] e(2,5) assms(5) by (simp add: get_status_find)
qed

theorem retries_are_bounded_witness:
  "queue_manager_get_status 1 (s_qm ((failing_attempt (\<lambda>_. Runs) good_kernel 0 1 ^^ 6)
     (sched_start \<lparr>g_head = [zero_download\<lparr>dl_id := 1\<rparr>], g_next_id = 2\<rparr>))) = Some DOWNLOAD_ERROR"
  using retries_are_bounded [of 1 "sched_start \<lparr>g_head = [zero_download\<lparr>dl_id := 1\<rparr>], g_next_id = 2\<rparr>"
      "zero_download\<lparr>dl_id := 1\<rparr>" 5 "\<lambda>_. Runs" good_kernel 0]
  by (simp add: sched_start_def queue_manager_find_by_id_def zero_download_def numeral_eq_Suc)

text \<open>
  C28: The backoff before retry \<open>n\<close> doubles from the base delay and is capped at the maximum, as long
  as the doubled delay fits in 31 bits. The overflow guard is not complete, though: with a base delay
  of 4 seconds the shift wraps to zero from the 31st attempt on, and the download is retried without
  any delay.
\<close>

theorem backoff_doubles_until_overflow:
  assumes "config_ok c"
  shows "(1 \<le> n \<and> n \<le> 31 \<and> g_retry_base_delay_sec c * 2 ^ nat (n - 1) < 2 ^ 31 \<longrightarrow>
      retry_backoff_seconds c n = min (g_retry_max_delay_sec c) (g_retry_base_delay_sec c * 2 ^ nat (n - 1))) \<and>
    (g_retry_base_delay_sec c = 4 \<and> 31 \<le> n \<longrightarrow> retry_backoff_seconds c n = 0)"
  using retry_backoff_exact [OF assms] retry_backoff_wraps assms by (auto simp: config_ok_def)

theorem backoff_doubles_until_overflow_witness:
  "retry_backoff_seconds (s_cfg (sched_start qm_init)) 4 = 16 \<and>
   retry_backoff_seconds ((s_cfg (sched_start qm_init))\<lparr>g_retry_base_delay_sec := 4\<rparr>) 40 = 0"
  using backoff_doubles_until_overflow [of "s_cfg (sched_start qm_init)" 4]
    backoff_doubles_until_overflow [of "(s_cfg (sched_start qm_init))\<lparr>g_retry_base_delay_sec := 4\<rparr>" 40]
  by (simp add: sched_start_def config_ok_def)

text \<open>
  C37: Shutting the scheduler down from any consistent state leaves no download ACTIVE and keeps the
  queue consistent, whatever each engine returns.
\<close>

theorem shutdown_leaves_nothing_active:
  assumes "sched_inv st"
  shows "queue_manager_count_by_status DOWNLOAD_ACTIVE (s_qm (scheduler_shutdown Q K rcs now st)) = 0 \<and>
    sched_inv (scheduler_shutdown Q K rcs now st)"
proof -
  have inv: "sched_inv (scheduler_shutdown Q K rcs now st)" using assms by (rule shutdown_stops_all)
  then have "qm_inv (s_qm (scheduler_shutdown Q K rcs now st))" by (simp add: sched_inv_def)
  with inv show ?thesis using shutdown_stops_all(2) [OF assms] by (simp add: count_active_card)
qed

theorem shutdown_leaves_nothing_active_witness:
  "sched_inv (scheduler_shutdown (\<lambda>_. Runs) good_kernel (\<lambda>_. -1) 0
     (scheduler_tick True 0 (sched_start qm_init)))"
  using shutdown_leaves_nothing_active [OF sched_inv_tick [OF sched_inv_start]] by blast

text \<open>
  Crash consistency: if the store agrees with the queue before a thread finishes, then a daemon
  restarted right after it finds every entry the queue held with the same status (a running one is
  queued again), except the finished ones, which are not restored.
\<close>

lemma crash_restores_status:
  assumes "queue_manager_find_by_id i (s_qm st) = Some dl" and "\<forall>j. persisted st j"
    and "db_inv (s_db st)" and "db_ready (s_db st)" and "\<forall>c. Q c = Runs" and "\<forall>site. k_alloc K site"
    and "queue_manager_get_status j (s_qm (download_thread_fn Q K rc now i st)) = Some s"
  shows "queue_manager_get_status j (snd (db_restore_queue Q K (s_db (download_thread_fn Q K rc now i st)) qm_init))
    = (if s = DOWNLOAD_DONE then None else Some (crash_image s))"
proof -
  have "persisted (download_thread_fn Q K rc now i st) j"
    using assms(1,2,4,5) by (intro thread_persists) auto
  then show ?thesis using assms(3-7) thread_db_inv(1) [OF assms(3)] by (intro restart_status) (auto simp: thread_db_inv(2))
qed

end
