(* ===== verification/Bandwidth.thy ===== *)
theory Bandwidth
  imports Config
begin

text \<open>
  \<open>src/platform/bandwidth.c\<close>: the token bucket shared by all workers. The daemon refills it, the
  workers take from it with a compare-and-swap; a successful exchange is one atomic step. The theory
  bounds what all workers together can be granted over any interval.
\<close>

record bucket =
  g_tokens :: int               \<comment> \<open>\<open>int64_t\<close>\<close>
  g_last_refill_ms :: u64

definition as_int64 :: "u64 \<Rightarrow> int" where
  "as_int64 x = sint x"

definition bucket_max :: "u64 \<Rightarrow> int" where
  "bucket_max cap = (let m = as_int64 ((cap * 500) div 1000) in if m < 1 then 1 else m)"

text \<open>\<open>bandwidth_tick\<close> at time \<open>now\<close>; the loop around the exchange ends with the values it read.\<close>

definition bandwidth_tick :: "u64 \<Rightarrow> u64 \<Rightarrow> bucket \<Rightarrow> bucket" where
  "bandwidth_tick cap now b =
     (if cap = 0 then b
      else if g_last_refill_ms b = 0 then b\<lparr>g_last_refill_ms := now\<rparr>
      else let elapsed = now - g_last_refill_ms b
           in if elapsed = 0 then b
              else let add = as_int64 ((cap * elapsed) div 1000);
                       new_tokens = g_tokens b + add
                   in b\<lparr>g_last_refill_ms := now,
                        g_tokens := (if new_tokens > bucket_max cap then bucket_max cap else new_tokens)\<rparr>)"

text \<open>What a loop iteration of \<open>bandwidth_acquire\<close> takes when it sees \<open>old\<close> tokens.\<close>

definition token_share :: "int \<Rightarrow> u64 \<Rightarrow> u64" where
  "token_share old remaining = (if word_of_int old < remaining then word_of_int old else remaining)"

text \<open>
  \<open>bandwidth_acquire\<close> against a sequence of observations, one per iteration: whether a flag is set,
  the tokens read, and whether the exchange succeeds. The result is the return value (\<open>None\<close>: still
  waiting when the observations end) and the amounts taken by the successful exchanges.
\<close>

fun acquire_loop :: "u64 \<Rightarrow> (bool \<times> int \<times> bool) list \<Rightarrow> bool option \<times> u64 list" where
  "acquire_loop remaining obs =
     (if remaining = 0 then (Some True, [])
      else case obs of
             [] \<Rightarrow> (None, [])
           | (stop, old, cas) # rest \<Rightarrow>
               if stop then (Some False, [])
               else if old \<le> 0 then acquire_loop remaining rest
               else if \<not> cas then acquire_loop remaining rest
               else let t = token_share old remaining
                    in case acquire_loop (remaining - t) rest of (r, ts) \<Rightarrow> (r, t # ts))"

declare acquire_loop.simps [simp del]

definition bandwidth_acquire :: "u64 \<Rightarrow> u64 \<Rightarrow> (bool \<times> int \<times> bool) list \<Rightarrow> bool option \<times> u64 list" where
  "bandwidth_acquire cap bytes obs = (if cap = 0 then (Some True, []) else acquire_loop bytes obs)"

section \<open>One worker\<close>

lemma token_share_le: "token_share old remaining \<le> remaining"
  by (auto simp: token_share_def)

text \<open>A worker that is let through has taken exactly the bytes it asked for.\<close>

lemma acquire_loop_total:
  "acquire_loop remaining obs = (Some True, ts) \<Longrightarrow> (\<Sum>t\<leftarrow>ts. unat t) = unat remaining"
proof (induction obs arbitrary: remaining ts)
  case Nil
  then show ?case by (auto simp: acquire_loop.simps [of remaining] split: if_splits)
next
  case (Cons ob obs)
  obtain stop old cas where o: "ob = (stop, old, cas)" by (cases ob) auto
  show ?case
  proof (cases "remaining = 0")
    case True
    with Cons.prems show ?thesis by (auto simp: acquire_loop.simps [of 0])
  next
    case False
    let ?t = "token_share old remaining"
    obtain r ts' where rec: "acquire_loop (remaining - ?t) obs = (r, ts')" by fastforce
    consider (again) "acquire_loop remaining obs = (Some True, ts)"
      | (took) "r = Some True" "ts = ?t # ts'"
      using Cons.prems False o rec
      by (subst (asm) acquire_loop.simps) (auto simp: Let_def split: if_splits)
    then show ?thesis
    proof cases
      case again
      then show ?thesis by (rule Cons.IH)
    next
      case took
      have le: "?t \<le> remaining" by (rule token_share_le)
      from Cons.IH [OF rec [unfolded took(1)]] took(2) unat_diff_le [OF le] le show ?thesis
        by (simp add: word_le_nat_alt)
    qed
  qed
qed

section \<open>All workers\<close>

text \<open>
  The bucket with the total granted so far: refills at non-decreasing times, small enough not to
  overflow, and successful exchanges by any worker.
\<close>

inductive bw_step :: "u64 \<Rightarrow> bucket \<times> nat \<Rightarrow> bucket \<times> nat \<Rightarrow> bool" for cap where
  refill: "g_last_refill_ms b \<le> now \<Longrightarrow> unat cap * unat now < 2 ^ 63 \<Longrightarrow>
    bw_step cap (b, granted) (bandwidth_tick cap now b, granted)"
| share: "0 < g_tokens b \<Longrightarrow> g_tokens b < 2 ^ 63 \<Longrightarrow>
    bw_step cap (b, granted) (b\<lparr>g_tokens := g_tokens b - uint (token_share (g_tokens b) remaining)\<rparr>,
                              granted + unat (token_share (g_tokens b) remaining))"

inductive bw_run :: "u64 \<Rightarrow> bucket \<times> nat \<Rightarrow> bucket \<times> nat \<Rightarrow> bool" for cap x where
  start: "bw_run cap x x"
| move: "bw_run cap x y \<Longrightarrow> bw_step cap y z \<Longrightarrow> bw_run cap x z"

definition bw_inv :: "u64 \<Rightarrow> int \<Rightarrow> u64 \<Rightarrow> bucket \<times> nat \<Rightarrow> bool" where
  "bw_inv cap T0 t0 x \<longleftrightarrow>
     (case x of (b, granted) \<Rightarrow>
        0 \<le> g_tokens b \<and> t0 \<le> g_last_refill_ms b \<and> 0 < t0 \<and>
        1000 * (int granted + g_tokens b) \<le> 1000 * T0 + uint cap * (uint (g_last_refill_ms b) - uint t0))"

lemma token_share_bounds:
  assumes "0 < old" and "old < 2 ^ 63"
  shows "uint (token_share old remaining) \<le> old"
proof -
  have "uint (word_of_int old :: u64) = old"
    using assms by (simp add: uint_word_of_int)
  then show ?thesis by (auto simp: token_share_def word_less_def)
qed

lemma refill_amount:
  assumes "prev \<le> now" and "unat cap * unat now < 2 ^ 63"
  shows "as_int64 ((cap * (now - prev)) div 1000) = uint cap * (uint now - uint prev) div 1000"
    and "0 \<le> uint cap * (uint now - uint prev) div 1000"
proof -
  have d: "unat (now - prev) = unat now - unat prev" using assms(1) by (rule unat_diff_le)
  have "unat cap * (unat now - unat prev) \<le> unat cap * unat now" by simp
  then have lt: "unat cap * (unat now - unat prev) < 2 ^ 63" using assms(2) by (rule le_less_trans)
  then have "unat (cap * (now - prev)) = unat cap * (unat now - unat prev)"
    by (subst unat_mult_nowrap) (simp_all add: d)
  then have u: "unat ((cap * (now - prev)) div 1000) = unat cap * (unat now - unat prev) div 1000"
    by (simp add: unat_div)
  also have "\<dots> < 2 ^ 63" using lt by (rule le_less_trans [OF div_le_dividend])
  finally have "as_int64 ((cap * (now - prev)) div 1000) = int (unat cap * (unat now - unat prev) div 1000)"
    unfolding as_int64_def using u by (simp only: sint_small)
  moreover have "unat prev \<le> unat now" using assms(1) by (simp add: word_le_nat_alt)
  ultimately show "as_int64 ((cap * (now - prev)) div 1000) = uint cap * (uint now - uint prev) div 1000"
    by (simp add: zdiv_int of_nat_diff)
  have "0 \<le> uint now - uint prev" using assms(1) by (simp add: word_le_def)
  then show "0 \<le> uint cap * (uint now - uint prev) div 1000" by (simp add: pos_imp_zdiv_nonneg_iff)
qed

lemma bw_inv_step: "bw_step cap x y \<Longrightarrow> bw_inv cap T0 t0 x \<Longrightarrow> bw_inv cap T0 t0 y"
proof (induction rule: bw_step.induct)
  case (refill b now granted)
  let ?e = "uint now - uint (g_last_refill_ms b)"
  let ?add = "uint cap * ?e div 1000"
  have nz: "g_last_refill_ms b \<noteq> 0"
    using refill.prems by (auto simp: bw_inv_def)
  show ?case
  proof (cases "cap = 0 \<or> now = g_last_refill_ms b")
    case True
    then have "bandwidth_tick cap now b = b" using nz by (auto simp: bandwidth_tick_def Let_def)
    with refill.prems show ?thesis by simp
  next
    case False
    have new: "bandwidth_tick cap now b = b\<lparr>g_last_refill_ms := now,
        g_tokens := min (bucket_max cap) (g_tokens b + ?add)\<rparr>"
      using False nz refill_amount(1) [OF refill(1,2)] by (auto simp: bandwidth_tick_def Let_def)
    have m: "1 \<le> bucket_max cap" by (simp add: bucket_max_def Let_def)
    have t: "0 \<le> ?add" using refill_amount(2) [OF refill(1,2)] .
    have inv: "0 \<le> g_tokens b" "t0 \<le> g_last_refill_ms b" "0 < t0"
      "1000 * (int granted + g_tokens b) \<le> 1000 * T0 + uint cap * (uint (g_last_refill_ms b) - uint t0)"
      using refill.prems by (auto simp: bw_inv_def)
    have "1000 * ?add \<le> uint cap * ?e" by simp
    then have "1000 * (int granted + (g_tokens b + ?add)) \<le> 1000 * T0 + uint cap * (uint now - uint t0)"
      using inv(4) by (simp add: algebra_simps)
    moreover have "t0 \<le> now" using inv(2) refill(1) by (rule order_trans)
    ultimately show ?thesis using inv m t unfolding new by (auto simp: bw_inv_def min_def)
  qed
next
  case (share b granted remaining)
  have "uint (token_share (g_tokens b) remaining) \<le> g_tokens b"
    using share(1,2) by (rule token_share_bounds)
  with share.prems show ?case by (auto simp: bw_inv_def)
qed

lemma bw_inv_run: "bw_run cap x y \<Longrightarrow> bw_inv cap T0 t0 x \<Longrightarrow> bw_inv cap T0 t0 y"
  by (induction rule: bw_run.induct) (auto intro: bw_inv_step)

section \<open>Properties\<close>





end
