(* ===== verification/Daemon.thy ===== *)
theory Daemon
  imports Ipc_Client Scheduler Bandwidth
begin

text \<open>
  \<open>src/daemon/daemon.c\<close>: the daemon as the composition of its parts. The scheduler's state and the
  server's state share the queue, the store, the file system and the configuration; the loop runs
  the scheduler, the progress report, the bandwidth limiter and the server in turn, while worker
  threads finish at any point in between. The theory shows that one invariant ties the parts
  together along every such interleaving.
\<close>

section \<open>Shared state\<close>

record daemon =
  dn_sched :: sched      \<comment> \<open>queue, store, files and configuration, and the workers\<close>
  dn_ipc :: ipc          \<comment> \<open>clients, offers and their streams; its copy of the shared parts is not used\<close>
  dn_bucket :: bucket

definition ipc_view :: "daemon \<Rightarrow> ipc" where
  "ipc_view d = (dn_ipc d)\<lparr>ip_q := s_qm (dn_sched d), ip_db := s_db (dn_sched d), ip_fs := s_fs (dn_sched d),
     ip_cfg := s_cfg (dn_sched d)\<rparr>"

definition put_ipc :: "ipc \<Rightarrow> daemon \<Rightarrow> daemon" where
  "put_ipc ip d = d\<lparr>dn_ipc := ip, dn_sched := (dn_sched d)\<lparr>s_qm := ip_q ip, s_db := ip_db ip, s_fs := ip_fs ip, s_cfg := ip_cfg ip\<rparr>\<rparr>"

text \<open>The broadcasts a scheduler step has added, delivered to the clients in the order they were made.\<close>

definition announce :: "(int \<Rightarrow> bool) \<Rightarrow> sched \<Rightarrow> daemon \<Rightarrow> daemon" where
  "announce delivered st d =
     (let new = take (length (s_broadcasts st) - length (s_broadcasts (dn_sched d))) (s_broadcasts st);
          d1 = d\<lparr>dn_sched := st\<rparr>
      in put_ipc (fold (\<lambda>(i, t, p) ip. snd (ipc_broadcast_status delivered i t p ip)) (rev new) (ipc_view d1)) d1)"

section \<open>Start\<close>

text \<open>What the start meets: the lock, the probes of a running daemon, the kernel, SQL, the store on
  disk, the configuration parser and the outcome of starting the server.\<close>

record boot_env =
  be_lock :: lock_env
  be_probe :: connect_env
  be_running :: bool
  be_kernel :: kernel
  be_sql :: sql
  be_disk :: database
  be_toml :: "inode \<Rightarrow> toml_datum option"
  be_start :: start_env
  be_cfg :: config_state
  be_socket_path :: string
  be_renames :: bool

text \<open>\<open>rename\<close> of a directory moves everything below it; \<open>access(path, F_OK) == 0\<close>.\<close>

definition below :: "string \<Rightarrow> string \<Rightarrow> string option" where
  "below dir p =
     (if take (length dir) p = dir \<and> (length p = length dir \<or> p ! length dir = CHR ''/'')
      then Some (drop (length dir) p) else None)"

definition rename_tree :: "string \<Rightarrow> string \<Rightarrow> fs \<Rightarrow> fs" where
  "rename_tree old new fs =
     (\<lambda>p. case below new p of
            Some r \<Rightarrow> fs (old @ r)
          | None \<Rightarrow> if below old p \<noteq> None then None else fs p)"

definition access_ok :: "kernel \<Rightarrow> fs \<Rightarrow> string \<Rightarrow> bool" where
  "access_ok K fs p \<longleftrightarrow> k_fault K SysAccess p = None \<and> fs p \<noteq> None"

text \<open>\<open>get_data_dir\<close> on its first call; \<open>renames\<close>: the call of \<open>rename\<close> succeeds.\<close>

definition get_data_dir :: "kernel \<Rightarrow> bool \<Rightarrow> fs \<Rightarrow> string \<times> bool \<times> fs" where
  "get_data_dir K renames fs =
     (let home = (case k_getenv K ''HOME'' of None \<Rightarrow> ''/tmp'' | Some h \<Rightarrow> h);
          path = strncpy_buf 1024 (home @ ''/.local/share/cdm'');
          old_path = strncpy_buf 1024 (home @ ''/.local/share/downloadmgr'');
          parent = strncpy_buf 1024 (home @ ''/.local/share'');
          (migrated, fs1) =
            (if access_ok K fs old_path \<and> \<not> access_ok K fs path
             then (case file_ensure_directory K parent fs of
                     (rc, fs1) \<Rightarrow> if rc = 0 \<and> renames then (True, rename_tree old_path path fs1) else (False, fs1))
             else (False, fs))
      in (path, migrated, snd (file_ensure_directory K path fs1)))"

text \<open>\<open>run_daemon\<close> up to the loop: the exit status, or the running daemon.\<close>

definition fresh_ipc :: "qm_state \<Rightarrow> database \<Rightarrow> fs \<Rightarrow> config_state \<Rightarrow> ipc" where
  "fresh_ipc q db fs cfg = \<lparr>ip_listening = False, ip_clients = [], ip_offers = replicate MAX_BROWSER_OFFERS zero_slot,
     ip_q = q, ip_db = db, ip_fs = fs, ip_cfg = cfg, ip_rx = (\<lambda>_. [])\<rparr>"

definition run_daemon_start :: "boot_env \<Rightarrow> fs \<Rightarrow> int + daemon" where
  "run_daemon_start B fs0 =
     (let K = be_kernel B; (lock_result, fs1) = ipc_daemon_lock_acquire K (be_lock B) fs0
      in if lock_result \<noteq> 0 then Inl 1
         else if fst (ipc_server_get_pid (be_probe B) (be_socket_path B)) \<noteq> 0 then Inl 1
         else let (dir, migrated, fs2) = get_data_dir K (be_renames B) fs1;
                  (cfg, fs3) = config_init (be_toml B) K None (be_cfg B) fs2
              in if be_running B then Inl 1
                 else (case db_init (be_sql B) (strncpy_buf 1024 (dir @ ''/downloads.db'')) (be_disk B) (be_disk B) of
                         (rc, db) \<Rightarrow>
                           if rc \<noteq> 0 then Inl 1
                           else let q1 = snd (db_restore_queue (be_sql B) K db qm_init);
                                    q2 = queue_manager_seed_next_id (db_get_max_id (be_sql B) db + 1) q1
                                in (case ipc_server_start K (be_start B) (be_socket_path B) (fresh_ipc q2 db fs3 cfg) of
                                      (started, ip) \<Rightarrow>
                                        if started \<noteq> 0 then Inl 1
                                        else Inr \<lparr>dn_sched = \<lparr>s_qm = q2, s_db = db, s_fs = ip_fs ip, s_cfg = cfg,
                                                     g_workers = replicate SCHEDULER_MAX_WORKERS free_worker,
                                                     s_broadcasts = [], s_notices = []\<rparr>,
                                                   dn_ipc = ip, dn_bucket = \<lparr>g_tokens = 0, g_last_refill_ms = 0\<rparr>\<rparr>)))"

section \<open>The loop\<close>

text \<open>What one round meets.\<close>

record round_env =
  re_thread :: bool
  re_now :: int
  re_now_ms :: u64
  re_float :: "rat \<Rightarrow> rat"
  re_delivered :: "int \<Rightarrow> bool"
  re_poll :: poll_env

definition daemon_tick :: "round_env \<Rightarrow> daemon \<Rightarrow> daemon" where
  "daemon_tick R d = d\<lparr>dn_sched := scheduler_tick (re_thread R) (re_now R) (dn_sched d)\<rparr>"

definition daemon_report :: "sql \<Rightarrow> round_env \<Rightarrow> daemon \<Rightarrow> daemon" where
  "daemon_report Q R d = announce (re_delivered R) (scheduler_report_progress Q (re_float R) (dn_sched d)) d"

definition daemon_refill :: "round_env \<Rightarrow> daemon \<Rightarrow> daemon" where
  "daemon_refill R d = d\<lparr>dn_bucket := bandwidth_tick (g_max_speed_bps (s_cfg (dn_sched d))) (re_now_ms R) (dn_bucket d)\<rparr>"

definition daemon_poll :: "round_env \<Rightarrow> daemon \<Rightarrow> daemon" where
  "daemon_poll R d = put_ipc (snd (ipc_server_poll (re_poll R) (ipc_view d))) d"

definition daemon_round :: "sql \<Rightarrow> round_env \<Rightarrow> daemon \<Rightarrow> daemon" where
  "daemon_round Q R d = daemon_poll R (daemon_refill R (daemon_report Q R (daemon_tick R d)))"

text \<open>A worker thread that finishes, and the engine storing progress in the entry it runs.\<close>

definition daemon_worker :: "sql \<Rightarrow> kernel \<Rightarrow> round_env \<Rightarrow> int \<Rightarrow> nat \<Rightarrow> daemon \<Rightarrow> daemon" where
  "daemon_worker Q K R rc k d = announce (re_delivered R) (scheduler_worker_fn Q K rc (re_now R) k (dn_sched d)) d"

text \<open>The end of \<open>run_daemon\<close>, once a signal has been seen.\<close>

definition daemon_shutdown :: "sql \<Rightarrow> kernel \<Rightarrow> (nat \<Rightarrow> int) \<Rightarrow> int \<Rightarrow> string \<Rightarrow> daemon \<Rightarrow> daemon" where
  "daemon_shutdown Q K rcs now socket_path d =
     (let d1 = put_ipc (ipc_server_stop K socket_path (ipc_view d)) d;
          s1 = scheduler_shutdown Q K rcs now (dn_sched d1)
      in d1\<lparr>dn_sched := s1\<lparr>s_db := db_close (s_db s1)\<rparr>\<rparr>)"

section \<open>What the server keeps of the queue\<close>

text \<open>The queue's invariant and its running entries; at most \<open>n\<close> ids are used up.\<close>

definition ipc_keeps :: "nat \<Rightarrow> ipc \<Rightarrow> ipc \<Rightarrow> bool" where
  "ipc_keeps n st st' \<longleftrightarrow> qm_inv (ip_q st') \<and> active_ids (ip_q st') = active_ids (ip_q st) \<and>
     unat (g_next_id (ip_q st')) \<le> unat (g_next_id (ip_q st)) + n \<and>
     (db_inv (ip_db st) \<longrightarrow> db_inv (ip_db st')) \<and> db_ready (ip_db st') = db_ready (ip_db st)"

lemma ipc_keeps_same:
  "qm_inv (ip_q st) \<Longrightarrow> ip_q st' = ip_q st \<Longrightarrow> ip_db st' = ip_db st \<Longrightarrow> ipc_keeps n st st'"
  by (simp add: ipc_keeps_def)

lemma ipc_keeps_trans: "ipc_keeps m a b \<Longrightarrow> ipc_keeps n b c \<Longrightarrow> ipc_keeps (m + n) a c"
  by (auto simp: ipc_keeps_def)

lemma not_max_id: "unat (n :: u32) + 1 < 2 ^ 32 \<Longrightarrow> n \<noteq> - 1"
  by (auto simp: unsigned_minus_1_eq_mask mask_eq_exp_minus_1)

lemma next_id_add:
  assumes "queue_manager_add K url u opts s = (i, s1)" and "unat (g_next_id s) + n < 2 ^ 32" and "0 < n"
  shows "unat (g_next_id s1) \<le> unat (g_next_id s) + 1" and "g_next_id s \<noteq> - 1"
proof -
  show "g_next_id s \<noteq> - 1" using assms(2,3) by (intro not_max_id) simp
  have "unat (g_next_id s + 1) \<le> unat (g_next_id s) + 1"
    by (simp add: unat_word_ariths)
  then show "unat (g_next_id s1) \<le> unat (g_next_id s) + 1"
    using assms(1) by (auto simp: queue_manager_add_def Let_def split: if_splits)
qed

lemma qm_inv_next_id: "qm_inv s \<Longrightarrow> unat (g_next_id s) + 1 < 2 ^ 32 \<Longrightarrow> n = g_next_id s \<or> n = g_next_id s + 1 \<Longrightarrow> qm_inv (s\<lparr>g_next_id := n\<rparr>)"
proof -
  assume inv: "qm_inv s" and room: "unat (g_next_id s) + 1 < 2 ^ 32" and n: "n = g_next_id s \<or> n = g_next_id s + 1"
  have "g_next_id s < g_next_id s + 1" by (rule self_less_plus_one [OF not_max_id [OF room]])
  then show ?thesis using inv n by (auto simp: qm_inv_def intro: order_less_trans)
qed

lemma active_ids_next_id [simp]: "active_ids (s\<lparr>g_next_id := n\<rparr>) = active_ids s"
  by (simp add: active_ids_def)

lemma db_insert_keeps:
  assumes "db_insert_reserved_download Q i url u opts now db = (rc, db1)"
  shows "(db_inv db \<longrightarrow> db_inv db1) \<and> db_ready db1 = db_ready db"
proof -
  have "db1 = snd (insert_download Q i url u opts True now db)"
    using assms by (simp add: db_insert_reserved_download_def)
  then show ?thesis
    using db_inv_writes(1) by (auto simp: insert_download_def exec_write_def replace_row_def Let_def)
qed

lemma add_next_id: "queue_manager_add K url u opts s = (i, s1) \<Longrightarrow> g_next_id s1 = g_next_id s \<or> g_next_id s1 = g_next_id s + 1"
  by (auto simp: queue_manager_add_def Let_def split: if_splits)

lemma reserve_keeps:
  assumes "reserve_loop E k url dest opts st = (i, st')" and "qm_inv (ip_q st)"
    and "unat (g_next_id (ip_q st)) + k < 2 ^ 32"
  shows "ipc_keeps k st st'"
  using assms
proof (induction k arbitrary: st)
  case 0
  then show ?case by (simp add: ipc_keeps_def)
next
  case (Suc k)
  have room: "unat (g_next_id (ip_q st)) + 1 < 2 ^ 32" using Suc.prems(3) by simp
  from Suc.prems(1) show ?case
  proof (cases rule: reserve_cases)
    case full
    then show ?thesis using Suc.prems(2) by (simp add: ipc_keeps_same)
  next
    case (refused u q1)
    note n = next_id_add [OF refused(2) room]
    show ?thesis
      using qm_inv_add [OF Suc.prems(2), of "ie_kernel E" url u "Some opts"] n refused(2,4)
        active_ids_add [OF Suc.prems(2), of "ie_kernel E" url u "Some opts"] by (simp add: ipc_keeps_def)
  next
    case (stored u q1 fs1 db1)
    note n = next_id_add [OF stored(2) room]
    have q1: "qm_inv q1" "active_ids q1 = active_ids (ip_q st)"
      using qm_inv_add [OF Suc.prems(2), of "ie_kernel E" url u "Some opts"] n(2) stored(2)
        active_ids_add [OF Suc.prems(2), of "ie_kernel E" url u "Some opts"] by simp_all
    have "qm_inv (qm_update i (\<lambda>d. d\<lparr>dl_reserved_file := True\<rparr>) q1)"
      using q1(1) by (rule qm_inv_update) (simp_all add: wf_download_def)
    moreover have "active_ids (qm_update i (\<lambda>d. d\<lparr>dl_reserved_file := True\<rparr>) q1) = active_ids (ip_q st)"
      using q1(2) by (subst active_ids_update_status_same) simp_all
    ultimately show ?thesis
      using n(1) db_insert_keeps [OF stored(5)] by (simp add: ipc_keeps_def stored(6) qm_update_def)
  next
    case (undone u j q1 claim fs1 db1)
    note n = next_id_add [OF undone(2) room]
    have "(db_inv (ip_db st) \<longrightarrow> db_inv db1) \<and> db_ready db1 = db_ready (ip_db st)"
      using undone(5) db_insert_keeps by blast
    then show ?thesis
      using n(1) qm_inv_next_id [OF Suc.prems(2) room add_next_id [OF undone(2)]]
      by (simp add: ipc_keeps_def undone(7,8))
  next
    case (again u j q1 fs1)
    note n = next_id_add [OF again(2) room]
    let ?st = "st\<lparr>ip_q := (ip_q st)\<lparr>g_next_id := g_next_id q1\<rparr>, ip_fs := sys_unlink (ie_kernel E) u fs1\<rparr>"
    have "ipc_keeps k ?st st'"
      using Suc.IH [OF again(5)] qm_inv_next_id [OF Suc.prems(2) room add_next_id [OF again(2)]] n(1) Suc.prems(3) by simp
    then show ?thesis using n(1) by (simp add: ipc_keeps_def)
  qed
qed

abbreviation attempts :: nat where
  "attempts \<equiv> 1000000"

lemma reserve_download_keeps:
  "reserve_download E url dest opts st = (i, st') \<Longrightarrow> qm_inv (ip_q st) \<Longrightarrow> unat (g_next_id (ip_q st)) + attempts < 2 ^ 32 \<Longrightarrow>
   ipc_keeps attempts st st'"
  unfolding reserve_download_def by (rule reserve_keeps)

lemma ipc_keeps_touch [simp]: "ipc_keeps n st (touch_offer i now f st') = ipc_keeps n st st'"
  by (simp add: ipc_keeps_def)

lemma confirm_offer_keeps:
  "confirm_offer E oid dest st = (i, st') \<Longrightarrow> qm_inv (ip_q st) \<Longrightarrow> unat (g_next_id (ip_q st)) + attempts < 2 ^ 32 \<Longrightarrow>
   ipc_keeps attempts st st'"
  by (auto simp: confirm_offer_def Let_def ipc_keeps_same split: option.splits offer_state.splits prod.splits if_splits
      dest: reserve_download_keeps)

lemma control_next_id [simp]:
  "g_next_id (snd (queue_manager_pause i s)) = g_next_id s" "g_next_id (snd (queue_manager_resume i s)) = g_next_id s"
  "g_next_id (snd (queue_manager_cancel i s)) = g_next_id s" "g_next_id (queue_manager_clear_resume_state i s) = g_next_id s"
  by (auto simp: queue_manager_pause_def queue_manager_resume_def queue_manager_cancel_def queue_manager_clear_resume_state_def
      qm_update_def split: option.splits)

lemma active_ids_clear_resume [simp]: "active_ids (queue_manager_clear_resume_state i s) = active_ids s"
  unfolding queue_manager_clear_resume_state_def by (subst active_ids_update_status_same) (simp_all add: clear_resume_def)

lemma control_keeps:
  assumes inv: "qm_inv (ip_q st)"
  shows "handle_pause E fd len s st = (reply, rest, st') \<Longrightarrow> ipc_keeps n st st'"
    and "handle_resume E fd len s st = (reply, rest, st') \<Longrightarrow> ipc_keeps n st st'"
    and "handle_cancel E fd len s st = (reply, rest, st') \<Longrightarrow> ipc_keeps n st st'"
  using inv qm_inv_control(2-4) [OF inv] qm_inv_control(5) [OF qm_inv_control(2) [OF inv]]
  by (auto simp: handle_pause_def handle_resume_def handle_cancel_def discard_download_def Let_def case_prod_unfold ipc_keeps_def
      active_ids_control db_inv_writes split: option.splits if_splits)

lemma message_keeps:
  assumes "handle_message E fd hdr s st = (reply, rest, st')" and "qm_inv (ip_q st)"
    and "unat (g_next_id (ip_q st)) + attempts < 2 ^ 32"
  shows "ipc_keeps attempts st st'"
proof (cases "mh_type hdr")
  case None
  then show ?thesis using assms(1,2) by (simp add: handle_message_def ipc_keeps_same)
next
  case (Some t)
  let ?len = "unat (mh_length hdr)"
  have add: ?thesis if "handle_add_download E fd ?len s st = (reply, rest, st')"
    using that assms(2) reserve_download_keeps [OF _ assms(2,3)]
    by (auto simp: handle_add_download_def ipc_keeps_same split: prod.splits if_splits)
  have confirm: ?thesis if "handle_browser_confirm E fd ?len s st = (reply, rest, st')"
    using that assms(2) confirm_offer_keeps [OF _ assms(2,3)]
    by (auto simp: handle_browser_confirm_def Let_def ipc_keeps_same split: prod.splits option.splits if_splits)
  have proposal: ?thesis if "handle_browser_offer E fd ?len s st = (reply, rest, st')"
    using that assms(2) register_offer_frame
    by (auto simp: handle_browser_offer_def ipc_keeps_def split: prod.splits option.splits if_splits)
  have others: "ip_q st' = ip_q st \<and> ip_db st' = ip_db st"
    if "t \<notin> {MSG_ADD_DOWNLOAD, MSG_BROWSER_CONFIRM, MSG_BROWSER_OFFER, MSG_PAUSE, MSG_RESUME, MSG_CANCEL}"
    using that assms(1) unfolding handle_message_def Some Let_def
    by (cases t) (auto simp: handler_defs Let_def split: option.splits prod.splits offer_state.splits if_splits)
  show ?thesis
  proof (cases "t \<in> {MSG_ADD_DOWNLOAD, MSG_BROWSER_CONFIRM, MSG_BROWSER_OFFER, MSG_PAUSE, MSG_RESUME, MSG_CANCEL}")
    case True
    then show ?thesis
      using assms(1) add confirm proposal control_keeps [OF assms(2)]
      unfolding handle_message_def Some Let_def by auto
  next
    case False
    then show ?thesis using others assms(2) by (simp add: ipc_keeps_same)
  qed
qed

section \<open>A round of the server\<close>

definition store_ok :: "ipc \<Rightarrow> bool" where
  "store_ok st \<longleftrightarrow> db_inv (ip_db st) \<and> db_ready (ip_db st) \<and> (\<forall>j. j \<noteq> 0 \<longrightarrow> in_store (ip_q st) (ip_db st) j)"

definition poll_keeps :: "nat \<Rightarrow> ipc \<Rightarrow> ipc \<Rightarrow> bool" where
  "poll_keeps n st st' \<longleftrightarrow> ipc_keeps n st st' \<and> store_ok st'"

lemma poll_keeps_same:
  "qm_inv (ip_q st) \<Longrightarrow> store_ok st \<Longrightarrow> ip_q st' = ip_q st \<Longrightarrow> ip_db st' = ip_db st \<Longrightarrow> poll_keeps n st st'"
  by (simp add: poll_keeps_def ipc_keeps_same store_ok_def)

lemma poll_keeps_frame: "poll_keeps n a b \<Longrightarrow> ip_q c = ip_q b \<Longrightarrow> ip_db c = ip_db b \<Longrightarrow> poll_keeps n a c"
  by (auto simp: poll_keeps_def ipc_keeps_def store_ok_def)

lemma poll_keeps_start: "poll_keeps n a' b \<Longrightarrow> ip_q a' = ip_q a \<Longrightarrow> ip_db a' = ip_db a \<Longrightarrow> poll_keeps n a b"
  by (simp add: poll_keeps_def ipc_keeps_def)

lemma poll_client_keeps:
  assumes "poll_client P i st = (gone, reply, st')" and "qm_inv (ip_q st)" and "store_ok st"
    and "unat (g_next_id (ip_q st)) + attempts < 2 ^ 32" and "ie_sql (pe_ipc P) StUpdateStatus = Runs"
  shows "poll_keeps attempts st st'"
proof -
  have msg: "\<forall>rx. poll_keeps attempts st (st3\<lparr>ip_rx := rx\<rparr>)"
    if "handle_message (pe_ipc P) fd hdr b st1 = (r, rest, st3)" "ip_q st1 = ip_q st" "ip_db st1 = ip_db st"
    for fd hdr b st1 r rest st3
  proof -
    have ok: "store_ok st1" using assms(3) that(2,3) by (simp add: store_ok_def)
    have "ipc_keeps attempts st1 st3" using message_keeps [OF that(1)] assms(2,4) that(2) by simp
    moreover have "in_store (ip_q st3) (ip_db st3) j" if "j \<noteq> 0" for j
      using message_in_store [OF _ _ _ assms(5) that \<open>handle_message _ _ _ _ _ = _\<close>] ok by (simp add: store_ok_def)
    ultimately have "poll_keeps attempts st1 st3" using ok by (simp add: poll_keeps_def store_ok_def ipc_keeps_def)
    then have "poll_keeps attempts st st3" using that(2,3) by (rule poll_keeps_start)
    then show ?thesis by (auto intro: poll_keeps_frame)
  qed
  have "poll_keeps attempts st st" using assms(2,3) by (intro poll_keeps_same) simp_all
  then show ?thesis
    using assms(1) unfolding poll_client_def Let_def
    by (auto split: recv_result.splits if_splits prod.splits intro: poll_keeps_frame
        dest!: msg)
qed

lemma remove_client_frame [simp]: "ip_q (remove_client i st) = ip_q st" "ip_db (remove_client i st) = ip_db st"
  by (simp_all add: remove_client_def)

lemma poll_loop_keeps:
  assumes "qm_inv (ip_q st)" and "store_ok st" and "ie_sql (pe_ipc P) StUpdateStatus = Runs"
    and "unat (g_next_id (ip_q st)) + (length (ip_clients st) - i) * attempts < 2 ^ 32"
  shows "poll_keeps ((length (ip_clients st) - i) * attempts) st (snd (poll_loop P i st))"
  using assms
proof (induction P i st rule: poll_loop.induct)
  case (1 P i st)
  show ?case
  proof (cases "i \<ge> length (ip_clients st)")
    case True
    then show ?thesis using 1(3,4) by (subst poll_loop.simps) (simp add: poll_keeps_same)
  next
    case False
    then obtain m where m: "length (ip_clients st) - i = Suc m" by (cases "length (ip_clients st) - i") auto
    obtain gone reply st1 where c: "poll_client P i st = (gone, reply, st1)" by (metis prod.exhaust)
    have k: "poll_keeps attempts st st1"
      using poll_client_keeps [OF c 1(3,4) _ 1(5)] 1(6) m by simp
    then have q: "qm_inv (ip_q st1)" "store_ok st1"
      "unat (g_next_id (ip_q st1)) \<le> unat (g_next_id (ip_q st)) + attempts"
      by (simp_all add: poll_keeps_def ipc_keeps_def)
    have len: "length (ip_clients st1) = length (ip_clients st)" by (rule poll_client_length [OF c])
    have join: "poll_keeps (Suc m * attempts) st x" if "poll_keeps (m * attempts) st1 x" for x
      using ipc_keeps_trans [of attempts st st1 "m * attempts" x] k that by (simp add: poll_keeps_def)
    show ?thesis
    proof (cases gone)
      case True
      have l: "length (ip_clients (remove_client i st1)) - i = m" using False len m by (simp add: remove_client_def)
      have "poll_keeps (m * attempts) (remove_client i st1) (snd (poll_loop P i (remove_client i st1)))"
        using 1(1) [OF False refl c [symmetric] refl True] q 1(5,6) m by (simp add: l store_ok_def)
      then have "poll_keeps (m * attempts) st1 (snd (poll_loop P i (remove_client i st1)))"
        by (rule poll_keeps_start) simp_all
      then show ?thesis using False True c join by (subst poll_loop.simps) (simp add: m)
    next
      case keep: False
      have l: "length (ip_clients st1) - Suc i = m" using False len m by simp
      have "poll_keeps (m * attempts) st1 (snd (poll_loop P (Suc i) st1))"
        using 1(2) [OF False refl c [symmetric] refl keep] q 1(5,6) m by (simp add: l)
      then show ?thesis using False keep c join by (subst poll_loop.simps) (simp add: m case_prod_unfold)
    qed
  qed
qed

lemma server_poll_inv: "ipc_inv st \<Longrightarrow> ipc_inv (snd (ipc_server_poll P st))"
  using expire_inv [of st "ie_now (pe_ipc P)"]
  by (auto simp: ipc_server_poll_def Let_def split: option.splits intro: poll_loop_inv add_client_inv)

lemma expire_frame [simp]:
  "ip_q (browser_expire_offers now st) = ip_q st" "ip_db (browser_expire_offers now st) = ip_db st"
  by (simp_all add: browser_expire_offers_def)

lemma add_client_frame [simp]: "ip_q (add_client fd st) = ip_q st" "ip_db (add_client fd st) = ip_db st"
  by (simp_all add: add_client_def Let_def)

lemma server_poll_keeps:
  assumes "qm_inv (ip_q st)" and "store_ok st" and "ie_sql (pe_ipc P) StUpdateStatus = Runs" and "ipc_inv st"
    and "unat (g_next_id (ip_q st)) + MAX_CLIENTS * attempts < 2 ^ 32"
  shows "poll_keeps (MAX_CLIENTS * attempts) st (snd (ipc_server_poll P st))"
proof -
  define st1 where "st1 = (case pe_accept P of None \<Rightarrow> browser_expire_offers (ie_now (pe_ipc P)) st
      | Some fd \<Rightarrow> add_client fd (browser_expire_offers (ie_now (pe_ipc P)) st))"
  have q: "ip_q st1 = ip_q st" "ip_db st1 = ip_db st" by (simp_all add: st1_def split: option.splits)
  have "ipc_inv st1" using expire_inv [OF assms(4)] add_client_inv by (auto simp: st1_def split: option.splits)
  then have le: "length (ip_clients st1) * attempts \<le> MAX_CLIENTS * attempts" by (simp add: ipc_inv_def)
  then have "poll_keeps ((length (ip_clients st1) - 0) * attempts) st1 (snd (poll_loop P 0 st1))"
    using assms q by (intro poll_loop_keeps) (simp_all add: store_ok_def)
  then have "poll_keeps (MAX_CLIENTS * attempts) st1 (snd (poll_loop P 0 st1))"
    using le by (auto simp: poll_keeps_def ipc_keeps_def)
  then have go: "poll_keeps (MAX_CLIENTS * attempts) st (snd (poll_loop P 0 st1))" using q by (rule poll_keeps_start)
  have "poll_keeps (MAX_CLIENTS * attempts) st (browser_expire_offers (ie_now (pe_ipc P)) st)"
    using assms(1,2) by (intro poll_keeps_same) simp_all
  with go show ?thesis by (simp add: ipc_server_poll_def st1_def Let_def split: option.splits)
qed

section \<open>The invariant of the daemon\<close>

definition daemon_inv :: "daemon \<Rightarrow> bool" where
  "daemon_inv d \<longleftrightarrow> sched_core (dn_sched d) \<and> ipc_inv (dn_ipc d) \<and> db_inv (s_db (dn_sched d)) \<and> db_ready (s_db (dn_sched d)) \<and>
     (\<forall>j. j \<noteq> 0 \<longrightarrow> persisted (dn_sched d) j)"

lemma ipc_view_simps [simp]:
  "ip_q (ipc_view d) = s_qm (dn_sched d)" "ip_db (ipc_view d) = s_db (dn_sched d)" "ipc_inv (ipc_view d) = ipc_inv (dn_ipc d)"
  "ip_fs (ipc_view d) = s_fs (dn_sched d)" "ip_cfg (ipc_view d) = s_cfg (dn_sched d)"
  by (simp_all add: ipc_view_def)

lemma put_ipc_simps [simp]:
  "dn_ipc (put_ipc ip d) = ip" "dn_bucket (put_ipc ip d) = dn_bucket d"
  "s_qm (dn_sched (put_ipc ip d)) = ip_q ip" "s_db (dn_sched (put_ipc ip d)) = ip_db ip"
  "g_workers (dn_sched (put_ipc ip d)) = g_workers (dn_sched d)"
  by (simp_all add: put_ipc_def)

lemma store_ok_view: "store_ok (ipc_view d) \<longleftrightarrow> db_inv (s_db (dn_sched d)) \<and> db_ready (s_db (dn_sched d)) \<and>
    (\<forall>j. j \<noteq> 0 \<longrightarrow> persisted (dn_sched d) j)"
  by (simp add: store_ok_def persisted_in_store)

lemma broadcast_frame [simp]:
  "ip_q (snd (ipc_broadcast_status dl i t p ip)) = ip_q ip" "ip_db (snd (ipc_broadcast_status dl i t p ip)) = ip_db ip"
  "ip_fs (snd (ipc_broadcast_status dl i t p ip)) = ip_fs ip" "ip_cfg (snd (ipc_broadcast_status dl i t p ip)) = ip_cfg ip"
  by (simp_all add: ipc_broadcast_status_def Let_def case_prod_unfold)

lemma announce_fold:
  "let ip' = fold (\<lambda>(i, t, p) ip. snd (ipc_broadcast_status dl i t p ip)) bs ip
   in ip_q ip' = ip_q ip \<and> ip_db ip' = ip_db ip \<and> ip_fs ip' = ip_fs ip \<and> ip_cfg ip' = ip_cfg ip \<and> (ipc_inv ip \<longrightarrow> ipc_inv ip')"
  by (induction bs arbitrary: ip) (auto simp: Let_def broadcast_inv)

lemma announce_sched [simp]: "dn_sched (announce dl st d) = st"
  using announce_fold [where ip = "ipc_view (d\<lparr>dn_sched := st\<rparr>)" and dl = dl]
  by (simp add: announce_def Let_def put_ipc_def)

lemma announce_ipc: "ipc_inv (dn_ipc d) \<Longrightarrow> ipc_inv (dn_ipc (announce dl st d))"
  using announce_fold [where ip = "ipc_view (d\<lparr>dn_sched := st\<rparr>)" and dl = dl] by (simp add: announce_def Let_def)

text \<open>The report writes chunk progress only.\<close>

lemma chunk_progress_frame [simp]:
  "find_row (snd (db_update_chunk_progress Q i a n db)) k = find_row db k"
  "db_ready (snd (db_update_chunk_progress Q i a n db)) = db_ready db"
  by (simp_all add: db_update_chunk_progress_def exec_write_def update_chunks_def)

lemma report_frame:
  "s_qm (scheduler_report_progress Q fl st) = s_qm st \<and> g_workers (scheduler_report_progress Q fl st) = g_workers st \<and>
   (db_inv (s_db st) \<longrightarrow> db_inv (s_db (scheduler_report_progress Q fl st))) \<and>
   db_ready (s_db (scheduler_report_progress Q fl st)) = db_ready (s_db st) \<and>
   (\<forall>k. find_row (s_db (scheduler_report_progress Q fl st)) k = find_row (s_db st) k)"
proof -
  have b: "s_qm (fold (\<lambda>(i, got, size). broadcast i t (g i got size)) xs st) = s_qm st \<and>
      s_db (fold (\<lambda>(i, got, size). broadcast i t (g i got size)) xs st) = s_db st \<and>
      g_workers (fold (\<lambda>(i, got, size). broadcast i t (g i got size)) xs st) = g_workers st"
    for t and g :: "u32 \<Rightarrow> u64 \<Rightarrow> u64 \<Rightarrow> rat" and xs st
    by (induction xs arbitrary: st) (auto simp: broadcast_def)
  have c: "s_qm (fold (\<lambda>(i, a, n). on_db (db_update_chunk_progress Q i a n)) xs st) = s_qm st \<and>
      g_workers (fold (\<lambda>(i, a, n). on_db (db_update_chunk_progress Q i a n)) xs st) = g_workers st \<and>
      (db_inv (s_db st) \<longrightarrow> db_inv (s_db (fold (\<lambda>(i, a, n). on_db (db_update_chunk_progress Q i a n)) xs st))) \<and>
      db_ready (s_db (fold (\<lambda>(i, a, n). on_db (db_update_chunk_progress Q i a n)) xs st)) = db_ready (s_db st) \<and>
      (\<forall>k. find_row (s_db (fold (\<lambda>(i, a, n). on_db (db_update_chunk_progress Q i a n)) xs st)) k = find_row (s_db st) k)" for xs st
    by (induction xs arbitrary: st) (auto simp: on_db_def db_inv_writes)
  let ?g = "\<lambda>i got size. if size > 0 then fl (of_nat (unat got) / of_nat (unat size)) else 0"
  define st1 where "st1 = fold (\<lambda>(i, got, size). broadcast i ''Downloading'' (?g i got size))
      (queue_manager_snapshot_active_progress 64 (s_qm st)) st"
  have "s_qm st1 = s_qm st" "s_db st1 = s_db st" "g_workers st1 = g_workers st"
    unfolding st1_def using b [of "''Downloading''" ?g] by blast+
  then show ?thesis
    using c [of "queue_manager_snapshot_chunk_progress 64 (s_qm st1)" st1]
    unfolding scheduler_report_progress_def Let_def st1_def [symmetric] by simp
qed

section \<open>Every interleaving\<close>

text \<open>
  The loop's four calls, worker threads that finish and engines that store progress, in any order. A
  round of the server may use up a million ids per client, so it is taken while ids remain; the
  store's status updates are those of a working SQL library.
\<close>

inductive daemon_step :: "sql \<Rightarrow> kernel \<Rightarrow> daemon \<Rightarrow> daemon \<Rightarrow> bool" for Q K where
  tick: "daemon_step Q K d (daemon_tick R d)"
| report: "daemon_step Q K d (daemon_report Q R d)"
| refill: "daemon_step Q K d (daemon_refill R d)"
| poll: "ie_sql (pe_ipc (re_poll R)) = Q \<Longrightarrow> unat (g_next_id (s_qm (dn_sched d))) + MAX_CLIENTS * attempts < 2 ^ 32 \<Longrightarrow>
    daemon_step Q K d (daemon_poll R d)"
| worker: "k < length (g_workers (dn_sched d)) \<Longrightarrow> w_in_use (g_workers (dn_sched d) ! k) \<Longrightarrow>
    \<not> w_done (g_workers (dn_sched d) ! k) \<Longrightarrow> daemon_step Q K d (daemon_worker Q K R rc k d)"
| engine: "(\<And>x. dl_id (f x) = dl_id x) \<Longrightarrow> (\<And>x. dl_status (f x) = dl_status x) \<Longrightarrow>
    (\<And>x. wf_download x \<Longrightarrow> wf_download (f x)) \<Longrightarrow>
    daemon_step Q K d (d\<lparr>dn_sched := (dn_sched d)\<lparr>s_qm := qm_update i f (s_qm (dn_sched d)), s_fs := fs'\<rparr>\<rparr>)"

inductive daemon_reachable :: "sql \<Rightarrow> kernel \<Rightarrow> daemon \<Rightarrow> daemon \<Rightarrow> bool" for Q K d0 where
  start: "daemon_reachable Q K d0 d0"
| move: "daemon_reachable Q K d0 d \<Longrightarrow> daemon_step Q K d d' \<Longrightarrow> daemon_reachable Q K d0 d'"

lemma persisted_cong:
  "(\<And>i. queue_manager_get_status i (s_qm st') = queue_manager_get_status i (s_qm st)) \<Longrightarrow>
   (\<And>k. find_row (s_db st') k = find_row (s_db st) k) \<Longrightarrow> persisted st' j = persisted st j"
  by (simp add: persisted_in_store in_store_def)

lemma daemon_step_inv:
  assumes "daemon_step Q K d d'" and "daemon_inv d" and sql: "Q StUpdateStatus = Runs"
  shows "daemon_inv d'"
  using assms(1)
proof cases
  case (tick R)
  then show ?thesis
    using assms(2) sched_core_tick tick_persists by (auto simp: daemon_inv_def daemon_tick_def sched_core_def)
next
  case (report R)
  then show ?thesis
    using assms(2) report_frame [of Q "re_float R" "dn_sched d"] announce_ipc
      persisted_cong [of "scheduler_report_progress Q (re_float R) (dn_sched d)" "dn_sched d"]
    by (simp add: daemon_inv_def daemon_report_def sched_core_def)
next
  case (refill R)
  then show ?thesis using assms(2) by (simp add: daemon_inv_def daemon_refill_def)
next
  case (poll R)
  let ?ip = "snd (ipc_server_poll (re_poll R) (ipc_view d))"
  have "poll_keeps (MAX_CLIENTS * attempts) (ipc_view d) ?ip"
    using assms(2) sql poll by (intro server_poll_keeps) (auto simp: daemon_inv_def sched_core_def store_ok_view)
  moreover have "ipc_inv ?ip" using assms(2) by (intro server_poll_inv) (simp add: daemon_inv_def)
  moreover have "persisted (dn_sched (put_ipc ?ip d)) j = in_store (ip_q ?ip) (ip_db ?ip) j" for j
    by (simp add: persisted_in_store)
  ultimately show ?thesis
    using assms(2) poll(1) by (simp add: daemon_inv_def daemon_poll_def sched_core_def poll_keeps_def ipc_keeps_def store_ok_def)
next
  case (worker k R rc)
  let ?st = "dn_sched d" and ?i = "w_download_id (g_workers (dn_sched d) ! k)"
  have core: "sched_core ?st" using assms(2) by (simp add: daemon_inv_def)
  note fin = sched_core_finish [OF core worker(2-4)]
  from fin(4) obtain dl where dl: "queue_manager_find_by_id ?i (s_qm ?st) = Some dl" by blast
  have "?i \<noteq> 0"
    using dl core by (auto simp: sched_core_def qm_inv_def queue_manager_find_by_id_def dest!: find_SomeD)
  then have "persisted (download_thread_fn Q K rc (re_now R) ?i ?st) j" if "j \<noteq> 0" for j
    using thread_persists [where Q = Q, OF dl _ sql] assms(2) that by (simp add: daemon_inv_def)
  then have "persisted (scheduler_worker_fn Q K rc (re_now R) k ?st) j" if "j \<noteq> 0" for j
    using that by (simp add: scheduler_worker_fn_def Let_def persisted_in_store)
  moreover have "db_inv (s_db (scheduler_worker_fn Q K rc (re_now R) k ?st))" "db_ready (s_db (scheduler_worker_fn Q K rc (re_now R) k ?st))"
    using assms(2) thread_db_inv by (simp_all add: scheduler_worker_fn_def Let_def daemon_inv_def)
  ultimately show ?thesis
    using worker(1) assms(2) fin(1) [of Q K rc "re_now R"] announce_ipc by (simp add: daemon_inv_def daemon_worker_def)
next
  case (engine f fs' i)
  have "queue_manager_get_status j (qm_update i f (s_qm (dn_sched d))) = queue_manager_get_status j (s_qm (dn_sched d))" for j
    using engine(2,3) by (simp add: get_status_find qs.lookup_update_field)
  moreover from this have "active_ids (qm_update i f (s_qm (dn_sched d))) = active_ids (s_qm (dn_sched d))"
    by (simp add: active_ids_def)
  moreover have "qm_inv (qm_update i f (s_qm (dn_sched d)))"
    using assms(2) engine(2-4) by (intro qm_inv_update) (auto simp: daemon_inv_def sched_core_def)
  ultimately show ?thesis
    using assms(2) engine(1) by (simp add: daemon_inv_def sched_core_def persisted_in_store in_store_def)
qed

lemma daemon_reachable_inv: "daemon_reachable Q K d0 d \<Longrightarrow> Q StUpdateStatus = Runs \<Longrightarrow> daemon_inv d0 \<Longrightarrow> daemon_inv d"
  by (induction rule: daemon_reachable.induct) (auto intro: daemon_step_inv)

section \<open>A started daemon\<close>

lemma restore_loop_inv:
  assumes "\<And>site. k_alloc K site" and "distinct (map row_id rs)" and "\<forall>r \<in> set rs. 0 < row_id r \<and> row_id r < 2 ^ 31"
    and "qm_inv s" and "\<forall>r \<in> set rs. (word_of_int (row_id r) :: u32) \<notin> dl_id ` set (g_head s)"
  shows "qm_inv (restore_loop Q K db rs s)"
  using assms(2-)
proof (induction rs arbitrary: s)
  case (Cons r rs)
  obtain d where d: "restore_row Q K db r = Some d" using restore_row_Some assms(1) by blast
  have id: "dl_id d = word_of_int (row_id r)" by (rule restore_row_fields(1) [OF d])
  have u: "uint (word_of_int (row_id x) :: u32) = row_id x" if "x \<in> set (r # rs)" for x
    using Cons.prems(2) that by (auto simp: uint_word_of_int)
  have "uint (- 1 :: u32) = 2 ^ 32 - 1" by (simp add: unsigned_minus_1_eq_mask mask_eq_exp_minus_1)
  then have ne: "0 < dl_id d" "dl_id d \<noteq> - 1" using Cons.prems(2) u [of r] id by (auto simp: word_less_def)
  have "qm_inv (queue_manager_add_existing d s)"
    using Cons.prems(3,4) restore_row_wf [OF d] ne id by (intro qm_inv_add_existing) auto
  moreover have "\<forall>x \<in> set rs. (word_of_int (row_id x) :: u32) \<notin> dl_id ` set (g_head (queue_manager_add_existing d s))"
  proof
    fix x assume x: "x \<in> set rs"
    then have "row_id x \<in> row_id ` set rs" by (rule imageI)
    moreover have "row_id r \<notin> row_id ` set rs" using Cons.prems(1) by simp
    ultimately have "row_id x \<noteq> row_id r" by metis
    then have "(word_of_int (row_id x) :: u32) \<noteq> dl_id d" using u [of x] u [of r] x id by auto
    then show "(word_of_int (row_id x) :: u32) \<notin> dl_id ` set (g_head (queue_manager_add_existing d s))"
      using Cons.prems(4) x by (simp add: queue_manager_add_existing_def)
  qed
  ultimately show ?case using Cons d by simp
qed simp

lemma restored_queue:
  assumes "db_inv db" and "db_ready db" and "positive_ids db" and "Q StRestore = Runs" and "\<And>site. k_alloc K site"
  shows "qm_inv (snd (db_restore_queue Q K db qm_init))"
    and "in_store (snd (db_restore_queue Q K db qm_init)) db i"
    and "active_ids (snd (db_restore_queue Q K db qm_init)) = {}"
proof -
  let ?rs = "filter (\<lambda>r. row_status r \<noteq> ''DONE'') (t_downloads db)"
  have "distinct (map row_id ?rs)" by (rule distinct_map_filter [OF db_inv_distinct [OF assms(1)]])
  moreover have "\<forall>r \<in> set ?rs. 0 < row_id r \<and> row_id r < 2 ^ 31" using assms(1,3) by (auto simp: db_inv_def positive_ids_def)
  ultimately have "qm_inv (restore_loop Q K db ?rs qm_init)"
    using assms(5) qm_inv_init by (intro restore_loop_inv) (simp_all add: qm_init_def)
  then show "qm_inv (snd (db_restore_queue Q K db qm_init))" using assms(2,4) by (simp add: db_restore_queue_def rows_of_def)
  have st: "queue_manager_get_status j (snd (db_restore_queue Q K db qm_init)) =
      (case find_row db (sint j) of
         Some r \<Rightarrow> if row_status r \<noteq> ''DONE'' then Some (status_of_text (row_status r)) else None | None \<Rightarrow> None)" for j
  proof -
    have "map_option dl_status (restore_row Q K db r) = Some (status_of_text (row_status r))" for r
      using restore_row_Some [OF assms(5), of Q db r] restore_row_fields(4) by fastforce
    then show ?thesis
      using restore_queue_lookup [of db Q K j] assms(1,2,4,5) by (auto simp: get_status_find split: option.splits)
  qed
  have na: "status_of_text t \<noteq> DOWNLOAD_ACTIVE" "status_of_text t \<noteq> DOWNLOAD_DONE" for t by (simp_all add: status_of_text_def)
  show "in_store (snd (db_restore_queue Q K db qm_init)) db i"
    using na by (auto simp: in_store_def st status_agrees_def crash_image_def split: option.splits)
  show "active_ids (snd (db_restore_queue Q K db qm_init)) = {}"
    using na by (auto simp: active_ids_def st split: option.splits if_splits)
qed

lemma seed_status [simp]: "queue_manager_get_status i (queue_manager_seed_next_id n s) = queue_manager_get_status i s"
  by (simp add: queue_manager_seed_next_id_def queue_manager_get_status_def)

lemma db_init_ok:
  assumes "db_init Q path disk db = (0, db')"
  shows "t_downloads db' = t_downloads disk" and "t_chunks db' = t_chunks disk" and "db_ready db'"
  using assms by (auto simp: db_init_def db_close_def Let_def split: if_splits option.splits)

text \<open>What the source relies on of the store it opens: keys in range and unique (SQLite's integer
  primary keys, given by the daemon from 1).\<close>

lemma started_inv:
  assumes "run_daemon_start B fs0 = Inr d" and "db_inv (be_disk B)" and "positive_ids (be_disk B)"
    and "be_sql B StRestore = Runs" and "\<And>site. k_alloc (be_kernel B) site"
  shows "daemon_inv d"
proof -
  obtain dir fs3 cfg db q2 ip where db: "db_init (be_sql B) dir (be_disk B) (be_disk B) = (0, db)"
    and q2: "q2 = queue_manager_seed_next_id (db_get_max_id (be_sql B) db + 1) (snd (db_restore_queue (be_sql B) (be_kernel B) db qm_init))"
    and ip: "ipc_server_start (be_kernel B) (be_start B) (be_socket_path B) (fresh_ipc q2 db fs3 cfg) = (0, ip)"
    and d: "s_qm (dn_sched d) = q2" "s_db (dn_sched d) = db" "g_workers (dn_sched d) = replicate SCHEDULER_MAX_WORKERS free_worker"
      "dn_ipc d = ip"
    using assms(1) by (auto simp: run_daemon_start_def Let_def split: prod.splits if_splits)
  have "db_inv db" "positive_ids db" "db_ready db"
    using db_init_ok [OF db] assms(2,3) by (simp_all add: db_inv_def positive_ids_def)
  note r = restored_queue [of db "be_sql B" "be_kernel B", OF this(1,3,2) assms(4,5)]
  have "qm_inv q2" using r(1) by (simp add: q2 qm_inv_seed)
  moreover have "in_store q2 db j" for j using r(2) [of j] by (simp add: in_store_def q2)
  moreover have "active_ids q2 = {}" using r(3) by (simp add: active_ids_def q2)
  moreover have "ipc_inv ip"
    using ip by (auto simp: ipc_server_start_def Let_def ipc_inv_def offer_ids_def zero_slot_def zero_offer_def split: if_splits)
  ultimately show ?thesis
    using \<open>db_inv db\<close> \<open>db_ready db\<close> by (simp add: daemon_inv_def d sched_core_def persisted_in_store running_def free_worker_def)
qed


definition demo_boot :: boot_env where
  "demo_boot = \<lparr>be_lock = \<lparr>le_open = True, le_safe = True, le_flock = None, le_fchmod = True\<rparr>,
     be_probe = \<lparr>ce_socket = True, ce_connect = Some ENOENT, ce_peer = None\<rparr>, be_running = False,
     be_kernel = good_kernel, be_sql = (\<lambda>_. Runs),
     be_disk = \<lparr>db_ready = False, db_columns = [], t_downloads = [new_row 1 ''u'' ''/f'' None False 0], t_chunks = []\<rparr>,
     be_toml = (\<lambda>_. None),
     be_start = \<lparr>se_running = False, se_socket = True, se_bind = True, se_fchmod = True, se_listen = True\<rparr>,
     be_cfg = \<lparr>g_max_concurrent = 3, g_default_dir = [], g_retry_max_attempts = 5, g_retry_base_delay_sec = 2,
       g_retry_max_delay_sec = 60, g_max_speed_bps = 0\<rparr>,
     be_socket_path = ''/run/cdm.sock'', be_renames = True\<rparr>"

lemma demo_boot_starts:
  obtains d where "run_daemon_start demo_boot fs = Inr d" and "0 < g_max_concurrent (s_cfg (dn_sched d))"
    and "g_workers (dn_sched d) = replicate SCHEDULER_MAX_WORKERS free_worker"
    and "s_qm (dn_sched d) = queue_manager_seed_next_id 2 (snd (db_restore_queue (\<lambda>_. Runs) good_kernel
           (be_disk demo_boot\<lparr>db_ready := True, db_columns := base_columns @ migration_names\<rparr>) qm_init))"
proof -
  let ?db = "be_disk demo_boot\<lparr>db_ready := True, db_columns := base_columns @ migration_names\<rparr>"
  have lock: "ipc_daemon_lock_acquire good_kernel (be_lock demo_boot) fs = (0, fs)"
    by (simp add: ipc_daemon_lock_acquire_def get_ipc_base_def home_base_def demo_boot_def)
  have probe: "fst (ipc_server_get_pid (be_probe demo_boot) (be_socket_path demo_boot)) = 0"
    by (simp add: ipc_server_get_pid_def connect_daemon_socket_def demo_boot_def)
  obtain dir mig fs2 where dir: "get_data_dir good_kernel True fs = (dir, mig, fs2)" by (metis prod.exhaust)
  then have "dir = ''/tmp/.local/share/cdm''" by (auto simp: get_data_dir_def Let_def strncpy_buf_def split: prod.splits)
  then have path: "strncpy_buf 1024 (dir @ ''/downloads.db'') \<noteq> []" by (simp add: strncpy_buf_def)
  obtain cfg fs3 where cfg: "config_init (\<lambda>_. None) good_kernel None (be_cfg demo_boot) fs2 = (cfg, fs3)" by (metis prod.exhaust)
  then have pos: "0 < g_max_concurrent cfg"
    by (auto simp: config_init_def Let_def set_default_dir_def reset_defaults_def split: prod.splits option.splits if_splits)
  have "migrate (\<lambda>_. Runs) ns (xs @ ns) = Some (xs @ ns)" for ns xs
    by (induction ns arbitrary: xs) (simp_all, metis append.assoc append_Cons append_Nil)
  then have db: "db_init (\<lambda>_. Runs) (strncpy_buf 1024 (dir @ ''/downloads.db'')) (be_disk demo_boot) (be_disk demo_boot) = (0, ?db)"
    using path by (simp add: db_init_def demo_boot_def db_close_def Let_def)
  have seed: "db_get_max_id (\<lambda>_. Runs) ?db + 1 = 2"
    by (simp add: db_get_max_id_def rows_of_def demo_boot_def new_row_def)
  let ?q = "queue_manager_seed_next_id 2 (snd (db_restore_queue (\<lambda>_. Runs) good_kernel ?db qm_init))"
  obtain ip where ip: "ipc_server_start good_kernel (be_start demo_boot) (be_socket_path demo_boot) (fresh_ipc ?q ?db fs3 cfg) = (0, ip)"
    by (simp add: ipc_server_start_def demo_boot_def Let_def)
  have B: "be_kernel demo_boot = good_kernel" "be_renames demo_boot" "\<not> be_running demo_boot" "be_sql demo_boot = (\<lambda>_. Runs)"
    "be_toml demo_boot = (\<lambda>_. None)"
    by (simp_all add: demo_boot_def)
  show thesis
    by (rule that [of "\<lparr>dn_sched = \<lparr>s_qm = ?q, s_db = ?db, s_fs = ip_fs ip, s_cfg = cfg,
          g_workers = replicate SCHEDULER_MAX_WORKERS free_worker, s_broadcasts = [], s_notices = []\<rparr>,
          dn_ipc = ip, dn_bucket = \<lparr>g_tokens = 0, g_last_refill_ms = 0\<rparr>\<rparr>"])
       (simp_all add: run_daemon_start_def B lock probe dir cfg db seed ip pos)
qed

definition demo_round :: round_env where
  "demo_round = \<lparr>re_thread = True, re_now = 5, re_now_ms = 5000, re_float = id, re_delivered = (\<lambda>_. True),
     re_poll = \<lparr>pe_ready = True, pe_accept = None, pe_recv = (\<lambda>_. NotReady), pe_ipc = demo_ipc_env\<rparr>\<rparr>"


end
