(* ===== verification/Native_Host.thy ===== *)
theory Native_Host
  imports Ipc_Client
begin

text \<open>
  The host of the browser extension: \<open>src/native_host/main_host.c\<close> (frames on standard input and
  output, the table of offers, registration with the daemon, progress reports). The browser and the
  daemon are explicit: what the browser still sends, what each connection to the daemon answers.
\<close>

definition NATIVE_MAX_MESSAGE :: nat where
  "NATIVE_MAX_MESSAGE = 1024 * 1024"

definition HOST_MAX_OFFERS :: nat where
  "HOST_MAX_OFFERS = 64"

record host_offer =
  ho_offer :: offer
  ho_reported_state :: offer_state
  ho_reported_bytes :: u64
  ho_reported_status :: string

definition zero_host_offer :: host_offer where
  "zero_host_offer = \<lparr>ho_offer = zero_offer, ho_reported_state = IPC_BROWSER_WAITING, ho_reported_bytes = 0,
     ho_reported_status = []\<rparr>"

record host =
  hs_offers :: "host_offer list"
  hs_stdin :: "u8 list"             \<comment> \<open>everything the browser sends before it closes\<close>
  hs_stdout :: "u8 list"
  hs_frames :: nat                  \<comment> \<open>frames standard output still takes\<close>
  hs_probes :: "bool list"          \<comment> \<open>answers of successive \<open>ipc_server_is_running\<close>\<close>
  hs_connects :: "sock option list" \<comment> \<open>what successive connection attempts yield\<close>
  hs_popups :: "u32 list"           \<comment> \<open>offers a popup was launched for\<close>

text \<open>\<open>cJSON\<close>, the path of the executable and whether \<open>cdm\<close> beside it can be executed, whether the two
  spawns succeed, \<open>malloc\<close>, and the layout of the structs on the wire.\<close>

record host_env =
  hv_parse :: "string \<Rightarrow> json option"
  hv_printer :: json_printer
  hv_exe :: string
  hv_exe_ok :: bool
  hv_spawn :: bool
  hv_popup :: "u32 \<Rightarrow> bool"
  hv_alloc :: bool
  hv_offer_size :: nat
  hv_offer :: "u8 list \<Rightarrow> offer"
  hv_progress_size :: nat
  hv_progress :: "u8 list \<Rightarrow> browser_progress"

section \<open>Processes and connections\<close>

definition cdm_executable :: "host_env \<Rightarrow> bool" where
  "cdm_executable E \<longleftrightarrow>
     (case strrchr (CHR ''/'') (hv_exe E) of None \<Rightarrow> hv_exe E | Some k \<Rightarrow> drop (Suc k) (hv_exe E)) = ''cdm_native_host'' \<and> hv_exe_ok E"

definition next_probe :: "bool list \<Rightarrow> bool \<times> bool list" where
  "next_probe ps = (case ps of [] \<Rightarrow> (False, []) | p # ps' \<Rightarrow> (p, ps'))"

fun wait_for_daemon :: "nat \<Rightarrow> bool list \<Rightarrow> bool \<times> bool list" where
  "wait_for_daemon 0 ps = (False, ps)"
| "wait_for_daemon (Suc n) ps =
     (case next_probe ps of (up, ps1) \<Rightarrow> if up then (True, ps1) else wait_for_daemon n ps1)"

definition host_ensure_daemon_running :: "host_env \<Rightarrow> host \<Rightarrow> bool \<times> host" where
  "host_ensure_daemon_running E st =
     (case next_probe (hs_probes st) of
        (up, ps) \<Rightarrow>
          if up then (True, st\<lparr>hs_probes := ps\<rparr>)
          else if \<not> cdm_executable E \<or> \<not> hv_spawn E then (False, st\<lparr>hs_probes := ps\<rparr>)
          else (case wait_for_daemon 50 ps of (ok, ps1) \<Rightarrow> (ok, st\<lparr>hs_probes := ps1\<rparr>)))"

definition host_connect :: "host \<Rightarrow> sock option \<times> host" where
  "host_connect st =
     (case hs_connects st of [] \<Rightarrow> (None, st) | c # cs \<Rightarrow> (c, st\<lparr>hs_connects := cs\<rparr>))"

section \<open>Frames\<close>

definition native_send :: "host_env \<Rightarrow> (string \<times> json_value) list \<Rightarrow> host \<Rightarrow> bool \<times> host" where
  "native_send E message st =
     (case hv_printer E message of
        None \<Rightarrow> (False, st)
      | Some json \<Rightarrow>
          if length json > NATIVE_MAX_MESSAGE \<or> hs_frames st = 0 then (False, st)
          else (True, st\<lparr>hs_stdout := hs_stdout st @ put_u32 (of_nat (length json)) @ str_bytes json,
                         hs_frames := hs_frames st - 1\<rparr>))"

definition native_read :: "host_env \<Rightarrow> host \<Rightarrow> int \<times> string \<times> host" where
  "native_read E st =
     (case take_exact 4 (hs_stdin st) of
        None \<Rightarrow> (if hs_stdin st = [] then 0 else -1, [], st\<lparr>hs_stdin := []\<rparr>)
      | Some (b, s1) \<Rightarrow>
          if le_dec b = 0 \<or> le_dec b > NATIVE_MAX_MESSAGE then (-1, [], st\<lparr>hs_stdin := s1\<rparr>)
          else if \<not> hv_alloc E then (-1, [], st\<lparr>hs_stdin := s1\<rparr>)
          else (case take_exact (le_dec b) s1 of
                  None \<Rightarrow> (-1, [], st\<lparr>hs_stdin := []\<rparr>)
                | Some (json, s2) \<Rightarrow>
                    if 0 \<in> set json then (-1, [], st\<lparr>hs_stdin := s2\<rparr>)
                    else (1, cstr_of json, st\<lparr>hs_stdin := s2\<rparr>)))"

section \<open>Messages\<close>

definition copy_field :: "json \<Rightarrow> string \<Rightarrow> nat \<Rightarrow> bool \<Rightarrow> string option" where
  "copy_field obj name capacity required =
     (case obj name of
        None \<Rightarrow> if required then None else Some []
      | Some (JString v) \<Rightarrow> if (required \<and> v = []) \<or> length v \<ge> capacity then None else Some v
      | Some _ \<Rightarrow> None)"

definition parse_offer :: "json \<Rightarrow> offer option" where
  "parse_offer obj =
     (if obj ''type'' \<noteq> Some (JString ''download_offer'') then None
      else case (copy_field obj ''request_id'' 128 True, copy_field obj ''url'' 2048 True,
                 copy_field obj ''filename'' 512 False, copy_field obj ''mime'' 128 False,
                 copy_field obj ''referrer'' 2048 False) of
             (Some req, Some url, Some fname, Some mime, Some ref) \<Rightarrow>
               (let parsed = zero_offer\<lparr>of_request_id := req, of_url := url, of_filename := fname, of_mime := mime,
                               of_referrer := ref\<rparr>
                in case obj ''total_bytes'' of
                     None \<Rightarrow> Some parsed
                   | Some (JNumber v) \<Rightarrow>
                       if v < 0 \<or> v > 9007199254740991 then None
                       else Some (parsed\<lparr>of_total_bytes := word_of_int \<lfloor>v\<rfloor>\<rparr>)
                   | Some _ \<Rightarrow> None)
           | _ \<Rightarrow> None)"

definition error_message :: "string \<Rightarrow> string \<Rightarrow> (string \<times> json_value) list" where
  "error_message request_id message =
     [(''type'', JString ''error''), (''request_id'', JString request_id), (''error'', JString message)]"

definition send_error :: "host_env \<Rightarrow> string \<Rightarrow> string \<Rightarrow> host \<Rightarrow> bool \<times> host" where
  "send_error E request_id message st = native_send E (error_message request_id message) st"

definition registered_message :: "offer \<Rightarrow> (string \<times> json_value) list" where
  "registered_message x =
     [(''type'', JString ''offer_registered''), (''request_id'', JString (of_request_id x)),
      (''offer_id'', JNumber (of_nat (unat (of_offer_id x))))]"

definition send_registered :: "host_env \<Rightarrow> offer \<Rightarrow> host \<Rightarrow> bool \<times> host" where
  "send_registered E x st = native_send E (registered_message x) st"

definition state_name :: "offer_state \<Rightarrow> string" where
  "state_name s =
     (case s of IPC_BROWSER_WAITING \<Rightarrow> ''waiting'' | IPC_BROWSER_CONFIRMED \<Rightarrow> ''confirmed'' | IPC_BROWSER_DISMISSED \<Rightarrow> ''dismissed'')"

definition reported_name :: "offer \<Rightarrow> browser_progress option \<Rightarrow> string" where
  "reported_name x progress =
     (case progress of
        None \<Rightarrow> state_name (of_state x)
      | Some p \<Rightarrow>
          if bp_status p = ''DONE'' then ''complete''
          else if bp_status p = ''ERROR'' then ''error''
          else if bp_status p = ''CANCELED'' then ''error''
          else if bp_status p = ''ACTIVE'' then ''started''
          else state_name (of_state x))"

definition state_message :: "offer \<Rightarrow> browser_progress option \<Rightarrow> (string \<times> json_value) list" where
  "state_message x progress =
     [(''type'', JString ''offer_state''), (''request_id'', JString (of_request_id x)),
      (''state'', JString (reported_name x progress)),
      (''offer_id'', JNumber (of_nat (unat (of_offer_id x)))),
      (''download_id'', JNumber (of_nat (unat (of_download_id x))))] @
     (case progress of
        None \<Rightarrow> []
      | Some p \<Rightarrow>
          [(''progress'', JNumber (bp_progress p)), (''bytes_received'', JNumber (of_nat (unat (bp_bytes_received p)))),
           (''total_bytes'', JNumber (of_nat (unat (bp_total_bytes p))))] @
          (if bp_error p \<noteq> [] then [(''error'', JString (bp_error p))] else []))"

definition send_state :: "host_env \<Rightarrow> offer \<Rightarrow> browser_progress option \<Rightarrow> host \<Rightarrow> bool \<times> host" where
  "send_state E x progress st = native_send E (state_message x progress) st"

section \<open>Offers from the browser\<close>

definition find_offer_slot :: "string \<Rightarrow> host_offer list \<Rightarrow> nat option" where
  "find_offer_slot request_id slots =
     (case first_index (\<lambda>h. of_offer_id (ho_offer h) \<noteq> 0 \<and> of_request_id (ho_offer h) = request_id) slots of
        Some k \<Rightarrow> Some k
      | None \<Rightarrow> first_index (\<lambda>h. of_offer_id (ho_offer h) = 0) slots)"

definition registered_slot :: "offer \<Rightarrow> host_offer" where
  "registered_slot r = \<lparr>ho_offer = r, ho_reported_state = of_state r, ho_reported_bytes = 0, ho_reported_status = []\<rparr>"

text \<open>The popup of a new offer, once the browser has been told about it.\<close>

definition launch_popup :: "host_env \<Rightarrow> string \<Rightarrow> u32 \<Rightarrow> host \<Rightarrow> bool \<times> host" where
  "launch_popup E request_id offer_id st =
     (if \<not> cdm_executable E then send_error E request_id ''cannot locate cdm popup binary'' st
      else if \<not> hv_popup E offer_id then send_error E request_id ''could not launch cdm popup'' st
      else (True, st\<lparr>hs_popups := hs_popups st @ [offer_id]\<rparr>))"

definition host_handle_message :: "host_env \<Rightarrow> string \<Rightarrow> host \<Rightarrow> bool \<times> host" where
  "host_handle_message E json st =
     (case hv_parse E json of
        None \<Rightarrow> send_error E [] ''invalid JSON'' st
      | Some obj \<Rightarrow>
          (case parse_offer obj of
             None \<Rightarrow>
               send_error E (case obj ''request_id'' of Some (JString s) \<Rightarrow> s | _ \<Rightarrow> [])
                 ''invalid or unsupported download offer'' st
           | Some offered \<Rightarrow>
               (case find_offer_slot (of_request_id offered) (hs_offers st) of
                  None \<Rightarrow> send_error E (of_request_id offered) ''too many pending downloads'' st
                | Some k \<Rightarrow>
                    (case host_ensure_daemon_running E st of
                       (up, st1) \<Rightarrow>
                         if \<not> up then send_error E (of_request_id offered) ''cdm daemon could not start'' st1
                         else (case host_connect st1 of
                                 (None, st2) \<Rightarrow> send_error E (of_request_id offered) ''cdm daemon is unavailable'' st2
                               | (Some s, st2) \<Rightarrow>
                                   (case fst (ipc_browser_offer (hv_printer E) (hv_offer_size E) (hv_offer E) offered s) of
                                      None \<Rightarrow> send_error E (of_request_id offered) ''daemon rejected download offer'' st2
                                    | Some registered \<Rightarrow>
                                        let launch = (of_offer_id (ho_offer (hs_offers st2 ! k)) \<noteq> of_offer_id registered \<and>
                                                      of_state registered = IPC_BROWSER_WAITING);
                                            st3 = st2\<lparr>hs_offers := (hs_offers st2)[k := registered_slot registered]\<rparr>
                                        in case send_registered E registered st3 of
                                             (sent, st4) \<Rightarrow>
                                               if \<not> sent then (False, st4)
                                               else if launch then launch_popup E (of_request_id offered) (of_offer_id registered) st4
                                               else (True, st4)))))))"

section \<open>Progress\<close>

definition final_status :: "string \<Rightarrow> bool" where
  "final_status s \<longleftrightarrow> s = ''DONE'' \<or> s = ''CANCELED'' \<or> s = ''ERROR''"

text \<open>The end of the loop body: the progress of a confirmed offer, asked over a connection of its own.\<close>

definition poll_progress :: "host_env \<Rightarrow> nat \<Rightarrow> offer \<Rightarrow> bool \<Rightarrow> host \<Rightarrow> bool \<times> host" where
  "poll_progress E k current ok st =
     (case host_connect st of
        (None, st1) \<Rightarrow> (ok, st1)
      | (Some s, st1) \<Rightarrow>
          (case fst (ipc_browser_subscribe_progress (hv_progress_size E) (hv_progress E) (of_download_id current) s) of
             None \<Rightarrow> (ok, st1)
           | Some snapshot \<Rightarrow>
               let slot = hs_offers st1 ! k;
                   (ok2, st2) =
                     (if bp_bytes_received snapshot \<noteq> ho_reported_bytes slot \<or> bp_status snapshot \<noteq> ho_reported_status slot
                      then (case send_state E current (Some snapshot) st1 of
                              (sent, st2) \<Rightarrow>
                                (sent, st2\<lparr>hs_offers := (hs_offers st2)[k := slot\<lparr>ho_reported_bytes := bp_bytes_received snapshot,
                                                 ho_reported_status := strncpy_buf 24 (bp_status snapshot)\<rparr>]\<rparr>))
                      else (ok, st1))
               in (ok2, if final_status (bp_status snapshot)
                        then st2\<lparr>hs_offers := (hs_offers st2)[k := zero_host_offer]\<rparr> else st2)))"

text \<open>A state the browser has not been told yet.\<close>

definition report_change :: "host_env \<Rightarrow> host_offer \<Rightarrow> offer \<Rightarrow> host \<Rightarrow> bool \<times> host" where
  "report_change E slot current st =
     (if of_state current \<noteq> ho_reported_state slot then send_state E current None st else (True, st))"

text \<open>The loop body for slot \<open>k\<close>; \<open>s\<close> is the connection \<open>daemon\<close>.\<close>

definition poll_slot :: "host_env \<Rightarrow> nat \<Rightarrow> sock \<Rightarrow> host \<Rightarrow> bool \<times> sock \<times> host" where
  "poll_slot E k s st =
     (let slot = hs_offers st ! k
      in if of_offer_id (ho_offer slot) = 0 then (True, s, st)
         else (case ipc_browser_get_offer (hv_offer_size E) (hv_offer E) (of_offer_id (ho_offer slot)) s of
                 (None, s1) \<Rightarrow>
                   (case send_error E (of_request_id (ho_offer slot)) ''download offer expired'' st of
                      (ok, st1) \<Rightarrow> (ok, s1, st1\<lparr>hs_offers := (hs_offers st1)[k := zero_host_offer]\<rparr>))
               | (Some current, s1) \<Rightarrow>
                   let (ok, st1) = report_change E slot current st;
                       st2 = st1\<lparr>hs_offers := (hs_offers st1)[k := slot\<lparr>ho_offer := current, ho_reported_state := of_state current\<rparr>]\<rparr>
                   in if of_state current = IPC_BROWSER_DISMISSED
                      then (ok, s1, st2\<lparr>hs_offers := (hs_offers st2)[k := zero_host_offer]\<rparr>)
                      else if of_state current \<noteq> IPC_BROWSER_CONFIRMED \<or> of_download_id current = 0 then (ok, s1, st2)
                      else (case poll_progress E k current ok st2 of (ok3, st3) \<Rightarrow> (ok3, s1, st3))))"

fun host_poll_loop :: "host_env \<Rightarrow> nat list \<Rightarrow> sock \<Rightarrow> host \<Rightarrow> bool \<times> host" where
  "host_poll_loop E [] s st = (True, st)"
| "host_poll_loop E (k # ks) s st =
     (case poll_slot E k s st of (ok, s1, st1) \<Rightarrow> if ok then host_poll_loop E ks s1 st1 else (False, st1))"

text \<open>The daemon is gone: every offer is reported and forgotten.\<close>

fun drop_offers :: "host_env \<Rightarrow> nat list \<Rightarrow> bool \<Rightarrow> host \<Rightarrow> bool \<times> host" where
  "drop_offers E [] notified st = (notified, st)"
| "drop_offers E (k # ks) notified st =
     (if of_offer_id (ho_offer (hs_offers st ! k)) = 0 then drop_offers E ks notified st
      else (case send_error E (of_request_id (ho_offer (hs_offers st ! k))) ''cdm daemon disconnected'' st of
              (ok, st1) \<Rightarrow> drop_offers E ks (ok \<and> notified) (st1\<lparr>hs_offers := (hs_offers st1)[k := zero_host_offer]\<rparr>)))"

definition poll_offers :: "host_env \<Rightarrow> host \<Rightarrow> bool \<times> host" where
  "poll_offers E st =
     (if \<not> list_ex (\<lambda>h. of_offer_id (ho_offer h) \<noteq> 0) (hs_offers st) then (True, st)
      else (case host_connect st of
              (None, st1) \<Rightarrow> drop_offers E [0..<HOST_MAX_OFFERS] True st1
            | (Some s, st1) \<Rightarrow> host_poll_loop E [0..<HOST_MAX_OFFERS] s st1))"

section \<open>The loop\<close>

text \<open>What \<open>select\<close> reports in a round: interrupted, failed, nothing to read, or input.\<close>

datatype select_result = SelectInterrupted | SelectFailed | SelectTimeout | SelectReadable

text \<open>One round: the exit status, if the host ends in it.\<close>

definition host_round :: "host_env \<Rightarrow> select_result \<Rightarrow> host \<Rightarrow> int option \<times> host" where
  "host_round E r st =
     (let finish = (\<lambda>st. case poll_offers E st of (ok, st1) \<Rightarrow> (if ok then None else Some 1, st1))
      in case r of
           SelectInterrupted \<Rightarrow> (None, st)
         | SelectFailed \<Rightarrow> (Some 1, st)
         | SelectTimeout \<Rightarrow> finish st
         | SelectReadable \<Rightarrow>
             (case native_read E st of
                (rc, json, st1) \<Rightarrow>
                  if rc = 0 then (Some 0, st1)
                  else if rc < 0 then (Some 1, st1)
                  else (case host_handle_message E json st1 of
                          (ok, st2) \<Rightarrow> if \<not> ok then (Some 1, st2) else finish st2)))"

fun host_main :: "host_env \<Rightarrow> select_result list \<Rightarrow> host \<Rightarrow> int option \<times> host" where
  "host_main E [] st = (None, st)"
| "host_main E (r # rs) st =
     (case host_round E r st of (None, st1) \<Rightarrow> host_main E rs st1 | (Some rc, st1) \<Rightarrow> (Some rc, st1))"

section \<open>Frames are exact\<close>

lemma le_enc_dec: "le_enc (length b) (le_dec b) = b"
proof (induction b)
  case (Cons x b)
  have "unat x < 256" using unat_lt2p [of x] by simp
  then have "(unat x + 256 * le_dec b) mod 256 = unat x" "(unat x + 256 * le_dec b) div 256 = le_dec b" by simp_all
  then show ?case using Cons.IH by simp
qed simp

lemma le_dec_less: "le_dec b < 256 ^ length b"
proof (induction b)
  case (Cons x b)
  have "unat x < 256" using unat_lt2p [of x] by simp
  then show ?case using Cons.IH by simp
qed simp

lemma put_u32_le_dec: "length b = 4 \<Longrightarrow> put_u32 (of_nat (le_dec b)) = b"
  using le_dec_less [of b] le_enc_dec [of b] by (simp add: put_u32_def unat_of_nat_small)

lemma str_bytes_cstr_of: "0 \<notin> set b \<Longrightarrow> str_bytes (cstr_of b) = b"
proof (induction b)
  case (Cons x b)
  have "unat x < 256" using unat_lt2p [of x] by simp
  moreover from Cons.prems have "unat x \<noteq> 0" by (simp add: unat_eq_zero)
  ultimately have c: "of_char (char_of (unat x)) = unat x" "char_of (unat x) \<noteq> CHR 0x00" by (auto simp: char_of_eq_iff take_bit_nat_eq_self)
  have "(of_nat (of_char (char_of (unat x) :: char)) :: u8) = x" unfolding c(1) by simp
  then show ?case using Cons c(2) by (simp add: cstr_of_def str_bytes_def del: of_nat_of_char)
qed (simp add: cstr_of_def str_bytes_def)

lemma cstr_of_no_nul: "CHR 0x00 \<notin> set (cstr_of b)"
  by (auto simp: cstr_of_def dest: set_takeWhileD)

lemma nul_byte: "(of_nat (of_char c) :: u8) = 0 \<longleftrightarrow> c = CHR 0x00"
proof
  assume "(of_nat (of_char c) :: u8) = 0"
  with char_of_byte [of c] have "char_of (unat (0 :: u8)) = c" by (simp only:)
  then have "c = char_of (0 :: nat)" by simp
  then show "c = CHR 0x00" by (simp add: char_of_def)
next
  assume "c = CHR 0x00"
  then have z: "of_char c = (0 :: nat)" by simp
  show "(of_nat (of_char c) :: u8) = 0" unfolding z by simp
qed

lemma nul_byte_iff: "0 \<in> set (str_bytes t) \<longleftrightarrow> CHR 0x00 \<in> set t"
proof -
  have "0 \<in> set (str_bytes t) \<longleftrightarrow> (\<exists>c \<in> set t. (of_nat (of_char c) :: u8) = 0)"
    unfolding str_bytes_def set_map image_iff by (simp only: eq_commute)
  then show ?thesis by (simp only: nul_byte) simp
qed

text \<open>A frame: the length as four bytes, then the text.\<close>

definition frame_of :: "string \<Rightarrow> u8 list" where
  "frame_of json = put_u32 (of_nat (length json)) @ str_bytes json"

lemma native_read_frame:
  assumes "hs_stdin st = frame_of json @ rest" "0 < length json" "length json \<le> NATIVE_MAX_MESSAGE" "CHR 0x00 \<notin> set json" "hv_alloc E"
  shows "native_read E st = (1, json, st\<lparr>hs_stdin := rest\<rparr>)"
proof -
  have "length json < 2 ^ 32" using assms(3) by (simp add: NATIVE_MAX_MESSAGE_def)
  then have "unat (of_nat (length json) :: u32) = length json" by (intro unat_of_nat_small) simp
  then show ?thesis
    using assms nul_byte_iff [of json] by (simp add: native_read_def frame_of_def cstr_of_str_bytes del: of_nat_unat)
qed

lemma native_read_inv:
  assumes "native_read E st = (1, json, st')"
  shows "hv_alloc E \<and> 0 < length json \<and> length json \<le> NATIVE_MAX_MESSAGE \<and> CHR 0x00 \<notin> set json \<and>
    (\<exists>rest. hs_stdin st = frame_of json @ rest \<and> st' = st\<lparr>hs_stdin := rest\<rparr>)"
proof -
  obtain b s1 where b: "take_exact 4 (hs_stdin st) = Some (b, s1)"
    using assms by (auto simp: native_read_def split: option.splits if_splits)
  with assms obtain j s2 where j: "take_exact (le_dec b) s1 = Some (j, s2)"
    by (auto simp: native_read_def split: option.splits if_splits)
  have len: "length b = 4" "length j = le_dec b" "hs_stdin st = b @ j @ s2"
    using b j by (auto simp: take_exact_def split: if_splits) (metis add.commute append_take_drop_id drop_drop)
  have r: "0 < le_dec b" "le_dec b \<le> NATIVE_MAX_MESSAGE" "hv_alloc E" "0 \<notin> set j" "json = cstr_of j" "st' = st\<lparr>hs_stdin := s2\<rparr>"
    using assms b j by (auto simp: native_read_def split: if_splits)
  have "str_bytes json = j" using str_bytes_cstr_of [OF r(4)] r(5) by simp
  moreover from this have "length json = le_dec b" using len(2) by (metis length_str_bytes)
  ultimately have "hs_stdin st = frame_of json @ s2" using len put_u32_le_dec [OF len(1)] by (simp add: frame_of_def)
  then show ?thesis using r \<open>length json = le_dec b\<close> cstr_of_no_nul by auto
qed

text \<open>
  C21: The frames of native messaging are exact in both directions. A message is read exactly when the
  input starts with the frame of a text of 1 to 1048576 bytes without NUL, and then the text is the
  message and nothing beyond the frame is consumed; what the host sends is a frame that such a reader
  accepts, with the printed text as the message.
\<close>

theorem native_frames_are_exact:
  "(native_read E st = (1, json, st') \<longleftrightarrow>
      hv_alloc E \<and> 0 < length json \<and> length json \<le> NATIVE_MAX_MESSAGE \<and> CHR 0x00 \<notin> set json \<and>
      (\<exists>rest. hs_stdin st = frame_of json @ rest \<and> st' = st\<lparr>hs_stdin := rest\<rparr>)) \<and>
   (fst (native_send E m out) \<longleftrightarrow>
      hs_frames out \<noteq> 0 \<and> (\<exists>t. hv_printer E m = Some t \<and> length t \<le> NATIVE_MAX_MESSAGE \<and>
        hs_stdout (snd (native_send E m out)) = hs_stdout out @ frame_of t))"
proof (rule conjI)
  show "native_read E st = (1, json, st') \<longleftrightarrow>
      hv_alloc E \<and> 0 < length json \<and> length json \<le> NATIVE_MAX_MESSAGE \<and> CHR 0x00 \<notin> set json \<and>
      (\<exists>rest. hs_stdin st = frame_of json @ rest \<and> st' = st\<lparr>hs_stdin := rest\<rparr>)"
    using native_read_inv [of E st json st'] native_read_frame [of st json _ E] by blast
qed (auto simp: native_send_def frame_of_def split: option.splits)

section \<open>Answers\<close>

definition printed_frame :: "host_env \<Rightarrow> (string \<times> json_value) list \<Rightarrow> u8 list" where
  "printed_frame E m = (case hv_printer E m of None \<Rightarrow> [] | Some t \<Rightarrow> frame_of t)"

definition sendable :: "host_env \<Rightarrow> (string \<times> json_value) list \<Rightarrow> bool" where
  "sendable E m \<longleftrightarrow> (case hv_printer E m of None \<Rightarrow> False | Some t \<Rightarrow> length t \<le> NATIVE_MAX_MESSAGE)"

lemma native_send_cases:
  "native_send E m st =
     (if sendable E m \<and> hs_frames st \<noteq> 0
      then (True, st\<lparr>hs_stdout := hs_stdout st @ printed_frame E m, hs_frames := hs_frames st - 1\<rparr>) else (False, st))"
  by (auto simp: native_send_def sendable_def printed_frame_def frame_of_def split: option.splits)

lemmas send_simps = send_error_def send_registered_def send_state_def native_send_cases

lemma ensure_daemon_frame:
  "host_ensure_daemon_running E st = (up, st1) \<Longrightarrow> \<exists>ps. st1 = st\<lparr>hs_probes := ps\<rparr>"
  by (auto simp: host_ensure_daemon_running_def split: prod.splits if_splits)

lemma connect_frame: "host_connect st = (c, st1) \<Longrightarrow> \<exists>cs. st1 = st\<lparr>hs_connects := cs\<rparr>"
  by (cases st) (auto simp: host_connect_def split: list.splits)

lemma browser_offer_id: "fst (ipc_browser_offer pr n layout x s) = Some r \<Longrightarrow> of_offer_id r \<noteq> 0"
  by (auto simp: ipc_browser_offer_def read_offer_def split: if_splits option.splits prod.splits)

definition request_name :: "host_env \<Rightarrow> string \<Rightarrow> string" where
  "request_name E json =
     (case hv_parse E json of
        None \<Rightarrow> []
      | Some obj \<Rightarrow> (case obj ''request_id'' of Some (JString s) \<Rightarrow> s | _ \<Rightarrow> []))"

lemma parse_offer_request: "hv_parse E json = Some obj \<Longrightarrow> parse_offer obj = Some x \<Longrightarrow> of_request_id x = request_name E json"
  by (auto simp: parse_offer_def request_name_def copy_field_def Let_def split: option.splits if_splits json_value.splits)

text \<open>How a message is handled: refused with an error, or registered in the slot chosen for it.\<close>

lemma handle_message_cases:
  obtains (refused) m ps cs where
    "host_handle_message E json st = send_error E (request_name E json) m (st\<lparr>hs_probes := ps, hs_connects := cs\<rparr>)"
  | (registered) k r ps cs where "find_offer_slot (request_name E json) (hs_offers st) = Some k" "of_offer_id r \<noteq> 0"
    "host_handle_message E json st =
       (case send_registered E r (st\<lparr>hs_probes := ps, hs_connects := cs, hs_offers := (hs_offers st)[k := registered_slot r]\<rparr>) of
          (sent, st4) \<Rightarrow>
            if \<not> sent then (False, st4)
            else if of_offer_id (ho_offer (hs_offers st ! k)) \<noteq> of_offer_id r \<and> of_state r = IPC_BROWSER_WAITING
            then launch_popup E (request_name E json) (of_offer_id r) st4 else (True, st4))"
proof -
  have same: "st = st\<lparr>hs_probes := hs_probes st, hs_connects := hs_connects st\<rparr>" by simp
  show thesis
  proof (cases "hv_parse E json")
    case None
    with same show thesis by (intro refused [where m = "''invalid JSON''" and ps = "hs_probes st" and cs = "hs_connects st"])
      (simp add: host_handle_message_def request_name_def)
  next
    case obj: (Some obj)
    show thesis
    proof (cases "parse_offer obj")
      case None
      with obj same show thesis
        by (intro refused [where m = "''invalid or unsupported download offer''" and ps = "hs_probes st" and cs = "hs_connects st"])
           (simp add: host_handle_message_def request_name_def)
    next
      case (Some x)
      note req = parse_offer_request [OF obj Some]
      obtain up st1 where up: "host_ensure_daemon_running E st = (up, st1)" by fastforce
      from ensure_daemon_frame [OF up] obtain ps where st1: "st1 = st\<lparr>hs_probes := ps\<rparr>" by blast
      obtain c st2 where c: "host_connect st1 = (c, st2)" by fastforce
      from connect_frame [OF c] st1 obtain cs where st2: "st2 = st\<lparr>hs_probes := ps, hs_connects := cs\<rparr>" by auto
      show thesis
      proof (cases "find_offer_slot (of_request_id x) (hs_offers st)")
        case None
        with obj Some same req show thesis
          by (intro refused [where m = "''too many pending downloads''" and ps = "hs_probes st" and cs = "hs_connects st"])
             (simp add: host_handle_message_def)
      next
        case k: (Some k)
        show thesis
        proof (cases "up \<and> c \<noteq> None \<and> fst (ipc_browser_offer (hv_printer E) (hv_offer_size E) (hv_offer E) x (the c)) \<noteq> None")
          case True
          then obtain s r where s: "c = Some s" "fst (ipc_browser_offer (hv_printer E) (hv_offer_size E) (hv_offer E) x s) = Some r" by auto
          from True show thesis
            using obj Some k up c s req browser_offer_id [OF s(2)] st2
            by (intro registered [where k = k and r = r and ps = ps and cs = cs]) (simp_all add: host_handle_message_def Let_def split: prod.splits)
        next
          case False
          let ?m = "if \<not> up then ''cdm daemon could not start'' else if c = None then ''cdm daemon is unavailable''
            else ''daemon rejected download offer''"
          have "st1 = st\<lparr>hs_probes := ps, hs_connects := hs_connects st\<rparr>" using st1 by simp
          with False obj Some k up c req st2 show thesis
            by (intro refused [where m = ?m and ps = ps and cs = "if \<not> up then hs_connects st else cs"])
               (auto simp: host_handle_message_def split: option.splits)
        qed
      qed
    qed
  qed
qed


section \<open>The table of offers\<close>

text \<open>A slot never keeps a final status: it is freed when one is reported.\<close>

definition slot_ok :: "host_offer \<Rightarrow> bool" where
  "slot_ok h \<longleftrightarrow> \<not> final_status (ho_reported_status h)"

definition host_inv :: "host \<Rightarrow> bool" where
  "host_inv st \<longleftrightarrow> length (hs_offers st) = HOST_MAX_OFFERS \<and> list_all slot_ok (hs_offers st)"

lemma slot_ok_simps [simp]: "slot_ok zero_host_offer" "slot_ok (registered_slot r)"
  "slot_ok (h\<lparr>ho_offer := x, ho_reported_state := y\<rparr>) = slot_ok h"
  by (simp_all add: slot_ok_def zero_host_offer_def registered_slot_def final_status_def)

lemma final_status_buffer: "final_status (strncpy_buf 24 t) = final_status t"
proof -
  have "take 23 t = x \<longleftrightarrow> t = x" if "length x < 23" for x
    using that by (metis length_take linorder_not_less min.absorb2 nat_less_le take_all_iff)
  then show ?thesis by (simp add: final_status_def strncpy_buf_def)
qed

lemma host_inv_update: "host_inv st \<Longrightarrow> slot_ok h \<Longrightarrow> host_inv (st\<lparr>hs_offers := (hs_offers st)[k := h]\<rparr>)"
  by (auto simp: host_inv_def list_all_iff dest!: set_update_subset_insert [THEN subsetD])

lemma host_inv_frame [simp]:
  "host_inv (st\<lparr>hs_stdin := a\<rparr>) = host_inv st" "host_inv (st\<lparr>hs_stdout := a, hs_frames := n\<rparr>) = host_inv st"
  "host_inv (st\<lparr>hs_probes := p\<rparr>) = host_inv st" "host_inv (st\<lparr>hs_connects := c\<rparr>) = host_inv st"
  "host_inv (st\<lparr>hs_popups := q\<rparr>) = host_inv st"
  by (simp_all add: host_inv_def)

lemma native_send_inv [simp]: "native_send E m st = (ok, st') \<Longrightarrow> host_inv st' = host_inv st"
  by (auto simp: native_send_cases split: if_splits)

lemma connect_inv: "host_connect st = (c, st') \<Longrightarrow> host_inv st' = host_inv st"
  using connect_frame by fastforce

lemma host_slot_ok: "host_inv st \<Longrightarrow> k < HOST_MAX_OFFERS \<Longrightarrow> slot_ok (hs_offers st ! k)"
  by (simp add: host_inv_def list_all_length)

lemma send_offers: "native_send E m st = (ok, st') \<Longrightarrow> hs_offers st' = hs_offers st"
  by (auto simp: native_send_cases split: if_splits)

lemma host_message_inv:
  assumes "host_inv st" and "host_handle_message E json st = (ok, st')"
  shows "host_inv st'"
proof (cases rule: handle_message_cases [of E json st])
  case (refused m ps cs)
  then show ?thesis using assms by (auto simp: send_simps split: if_splits)
next
  case (registered k r ps cs)
  have "host_inv (st\<lparr>hs_probes := ps, hs_connects := cs, hs_offers := (hs_offers st)[k := registered_slot r]\<rparr>)"
    using host_inv_update [of "st\<lparr>hs_probes := ps, hs_connects := cs\<rparr>" "registered_slot r" k] assms(1) by simp
  then show ?thesis
    using registered(3) assms(2) by (auto simp: send_simps launch_popup_def split: if_splits)
qed

lemma poll_progress_inv:
  assumes "host_inv st" and "k < HOST_MAX_OFFERS" and "poll_progress E k current ok st = (ok', st')"
  shows "host_inv st'"
proof -
  obtain c st1 where c: "host_connect st = (c, st1)" by fastforce
  have inv: "host_inv st1" using connect_inv [OF c] assms(1) by simp
  then have slot: "slot_ok (hs_offers st1 ! k)" using assms(2) by (rule host_slot_ok)
  show ?thesis
  proof (cases "c = None \<or> fst (ipc_browser_subscribe_progress (hv_progress_size E) (hv_progress E) (of_download_id current) (the c)) = None")
    case True
    then show ?thesis using assms(3) c inv by (auto simp: poll_progress_def split: option.splits)
  next
    case False
    then obtain s snap where s: "c = Some s"
      "fst (ipc_browser_subscribe_progress (hv_progress_size E) (hv_progress E) (of_download_id current) s) = Some snap" by auto
    let ?h = "(hs_offers st1 ! k)\<lparr>ho_reported_bytes := bp_bytes_received snap, ho_reported_status := strncpy_buf 24 (bp_status snap)\<rparr>"
    obtain sent st2 where send: "send_state E current (Some snap) st1 = (sent, st2)" by fastforce
    have i2: "host_inv st2" using send inv by (auto simp: send_state_def)
    have "slot_ok ?h" if "\<not> final_status (bp_status snap)" using that by (simp add: slot_ok_def final_status_buffer)
    then have "host_inv (st2\<lparr>hs_offers := (hs_offers st2)[k := ?h]\<rparr>)" if "\<not> final_status (bp_status snap)"
      using host_inv_update [OF i2] that by blast
    moreover have "host_inv (st2\<lparr>hs_offers := (hs_offers st2)[k := ?h, k := zero_host_offer]\<rparr>)"
      using host_inv_update [OF i2, of zero_host_offer k] by simp
    moreover have "host_inv (st1\<lparr>hs_offers := (hs_offers st1)[k := zero_host_offer]\<rparr>)"
      using host_inv_update [OF inv, of zero_host_offer k] by simp
    ultimately show ?thesis
      using assms(3) c s send inv by (auto simp: poll_progress_def Let_def split: if_splits)
  qed
qed

lemma poll_slot_inv:
  assumes "host_inv st" and "k < HOST_MAX_OFFERS" and "poll_slot E k s st = (ok, s', st')"
  shows "host_inv st'"
proof (cases "of_offer_id (ho_offer (hs_offers st ! k)) = 0")
  case True
  then show ?thesis using assms by (simp add: poll_slot_def)
next
  case False
  let ?slot = "hs_offers st ! k"
  obtain x s1 where g: "ipc_browser_get_offer (hv_offer_size E) (hv_offer E) (of_offer_id (ho_offer ?slot)) s = (x, s1)" by fastforce
  show ?thesis
  proof (cases x)
    case None
    obtain sent st1 where e: "send_error E (of_request_id (ho_offer ?slot)) ''download offer expired'' st = (sent, st1)" by fastforce
    then have "host_inv st1" using assms(1) by (auto simp: send_error_def)
    from host_inv_update [OF this, of zero_host_offer k] show ?thesis
      using assms(3) False g None e by (simp add: poll_slot_def Let_def)
  next
    case (Some current)
    obtain ok1 st1 where f: "report_change E ?slot current st = (ok1, st1)" by fastforce
    then have "host_inv st1" using assms(1) by (auto simp: report_change_def send_state_def split: if_splits)
    from host_inv_update [OF this, of "?slot\<lparr>ho_offer := current, ho_reported_state := of_state current\<rparr>" k]
    have i2: "host_inv (st1\<lparr>hs_offers := (hs_offers st1)[k := ?slot\<lparr>ho_offer := current, ho_reported_state := of_state current\<rparr>]\<rparr>)"
      using host_slot_ok [OF assms(1,2)] by simp
    define st2 where "st2 = st1\<lparr>hs_offers := (hs_offers st1)[k := ?slot\<lparr>ho_offer := current, ho_reported_state := of_state current\<rparr>]\<rparr>"
    have "poll_slot E k s st =
       (if of_state current = IPC_BROWSER_DISMISSED then (ok1, s1, st2\<lparr>hs_offers := (hs_offers st2)[k := zero_host_offer]\<rparr>)
        else if of_state current \<noteq> IPC_BROWSER_CONFIRMED \<or> of_download_id current = 0 then (ok1, s1, st2)
        else (case poll_progress E k current ok1 st2 of (ok3, st3) \<Rightarrow> (ok3, s1, st3)))"
      using False g Some f by (simp add: poll_slot_def Let_def st2_def)
    moreover have "host_inv st2" using i2 by (simp add: st2_def)
    ultimately show ?thesis
      using assms(3) host_inv_update [of st2 zero_host_offer k] poll_progress_inv [of st2 k E current ok1] assms(2)
      by (auto split: if_splits prod.splits)
  qed
qed

lemma poll_loop_host_inv:
  "host_inv st \<Longrightarrow> \<forall>k \<in> set ks. k < HOST_MAX_OFFERS \<Longrightarrow> host_poll_loop E ks s st = (ok, st') \<Longrightarrow> host_inv st'"
  by (induction ks arbitrary: s st) (auto split: prod.splits if_splits dest: poll_slot_inv)

lemma drop_offers_inv: "host_inv st \<Longrightarrow> drop_offers E ks b st = (ok, st') \<Longrightarrow> host_inv st'"
proof (induction ks arbitrary: b st)
  case (Cons k ks)
  obtain sent st1 where e: "send_error E (of_request_id (ho_offer (hs_offers st ! k))) ''cdm daemon disconnected'' st = (sent, st1)" by fastforce
  then have "host_inv st1" using Cons.prems(1) by (auto simp: send_error_def)
  then have "host_inv (st1\<lparr>hs_offers := (hs_offers st1)[k := zero_host_offer]\<rparr>)" by (rule host_inv_update) simp
  then show ?case using Cons e by (auto split: if_splits)
qed simp

lemma poll_offers_inv: "host_inv st \<Longrightarrow> poll_offers E st = (ok, st') \<Longrightarrow> host_inv st'"
  by (auto simp: poll_offers_def connect_inv split: if_splits prod.splits option.splits
      dest: poll_loop_host_inv [rotated 2] drop_offers_inv [rotated])

lemma native_read_keeps: "native_read E st = (rc, json, st') \<Longrightarrow> host_inv st' = host_inv st"
  by (auto simp: native_read_def split: option.splits if_splits prod.splits)

lemma host_round_inv: "host_inv st \<Longrightarrow> host_round E r st = (rc, st') \<Longrightarrow> host_inv st'"
  by (auto simp: host_round_def Let_def split: select_result.splits prod.splits if_splits
      dest: poll_offers_inv [rotated] host_message_inv [rotated] native_read_keeps)

lemma host_main_inv: "host_inv st \<Longrightarrow> host_main E rs st = (rc, st') \<Longrightarrow> host_inv st'"
  by (induction rs arbitrary: st) (auto split: prod.splits option.splits dest: host_round_inv [rotated])

lemma host_start_inv: "hs_offers st = replicate HOST_MAX_OFFERS zero_host_offer \<Longrightarrow> host_inv st"
  by (simp add: host_inv_def list_all_iff)

text \<open>
  C23: The browser always learns how a download ended, exactly once. In every state the host can reach,
  when the daemon answers that a confirmed offer is done, failed or canceled, the host sends the state
  change it had not sent yet and then the message with the outcome, and forgets the offer, so the
  outcome is not sent again.
\<close>

theorem final_outcome_is_reported:
  assumes "host_main E rs st0 = (None, st)" and "hs_offers st0 = replicate HOST_MAX_OFFERS zero_host_offer"
    and "k < HOST_MAX_OFFERS" and "of_offer_id (ho_offer (hs_offers st ! k)) \<noteq> 0"
    and get: "ipc_browser_get_offer (hv_offer_size E) (hv_offer E) (of_offer_id (ho_offer (hs_offers st ! k))) s = (Some current, s1)"
    and cur: "of_state current = IPC_BROWSER_CONFIRMED" "of_download_id current \<noteq> 0"
    and con: "hs_connects st = Some s2 # cs"
    and prog: "fst (ipc_browser_subscribe_progress (hv_progress_size E) (hv_progress E) (of_download_id current) s2) = Some snap"
    and fin: "final_status (bp_status snap)"
    and out: "2 \<le> hs_frames st" "sendable E (state_message current None)" "sendable E (state_message current (Some snap))"
  shows "\<exists>st'. poll_slot E k s st = (True, s1, st') \<and> hs_offers st' = (hs_offers st)[k := zero_host_offer] \<and>
    hs_stdout st' = hs_stdout st @
      (if ho_reported_state (hs_offers st ! k) = IPC_BROWSER_CONFIRMED then [] else printed_frame E (state_message current None)) @
      printed_frame E (state_message current (Some snap))"
proof -
  have inv: "host_inv st" by (rule host_main_inv [OF host_start_inv [OF assms(2)] assms(1)])
  let ?slot = "hs_offers st ! k"
  have len: "k < length (hs_offers st)" using inv assms(3) by (simp add: host_inv_def)
  have news: "bp_status snap \<noteq> ho_reported_status ?slot" using host_slot_ok [OF inv assms(3)] fin by (auto simp: slot_ok_def)
  obtain ok1 st1 where f: "report_change E ?slot current st = (ok1, st1)" by fastforce
  then have st1: "ok1" "st1 = (if ho_reported_state ?slot = IPC_BROWSER_CONFIRMED then st
      else st\<lparr>hs_stdout := hs_stdout st @ printed_frame E (state_message current None), hs_frames := hs_frames st - 1\<rparr>)"
    using out cur by (auto simp: report_change_def send_state_def native_send_cases split: if_splits)
  define st2 where "st2 = st1\<lparr>hs_offers := (hs_offers st1)[k := ?slot\<lparr>ho_offer := current, ho_reported_state := of_state current\<rparr>]\<rparr>"
  have "poll_slot E k s st = (case poll_progress E k current True st2 of (ok3, st3) \<Rightarrow> (ok3, s1, st3))"
    using assms(4) get cur f st1(1) by (simp add: poll_slot_def Let_def st2_def)
  moreover have o1: "hs_offers st1 = hs_offers st" "hs_connects st1 = hs_connects st" "hs_frames st1 \<noteq> 0"
    using out(1) by (simp_all add: st1(2))
  ultimately show ?thesis
    using con prog fin news out(3) len st1(2)
    by (auto simp: poll_progress_def host_connect_def st2_def Let_def send_state_def native_send_cases)
qed

definition demo_offer :: "offer_state \<Rightarrow> u32 \<Rightarrow> offer" where
  "demo_offer state dl = \<lparr>of_offer_id = 7, of_download_id = dl, of_total_bytes = 0, of_state = state, of_request_id = ''r'',
     of_url = ''u'', of_filename = ''f'', of_mime = [], of_referrer = []\<rparr>"

definition demo_host_env :: host_env where
  "demo_host_env = \<lparr>hv_parse = (\<lambda>_. Some [''type'' \<mapsto> JString ''download_offer'', ''request_id'' \<mapsto> JString ''r'', ''url'' \<mapsto> JString ''u'']),
     hv_printer = (\<lambda>_. Some ''m''), hv_exe = ''/b/cdm_native_host'', hv_exe_ok = True, hv_spawn = True, hv_popup = (\<lambda>_. True),
     hv_alloc = True, hv_offer_size = 1,
     hv_offer = (\<lambda>b. if b = [2] then demo_offer IPC_BROWSER_CONFIRMED 3 else demo_offer IPC_BROWSER_WAITING 0), hv_progress_size = 1,
     hv_progress = (\<lambda>_. \<lparr>bp_download_id = 3, bp_bytes_received = 10, bp_total_bytes = 10, bp_progress = 1, bp_status = ''DONE'',
        bp_error = [], bp_dest_path = []\<rparr>)\<rparr>"

definition answering :: "u8 \<Rightarrow> sock" where
  "answering b = \<lparr>so_in = [b], so_out = [], so_writes = 2\<rparr>"

definition demo_host :: host where
  "demo_host = \<lparr>hs_offers = replicate HOST_MAX_OFFERS zero_host_offer, hs_stdin = [1, 0, 0, 0, 123], hs_stdout = [], hs_frames = 9,
     hs_probes = [True], hs_connects = [Some (answering 1), Some (answering 1), Some (answering 0)], hs_popups = []\<rparr>"

lemma first_index_replicate: "first_index P (replicate n x) = (if 0 < n \<and> P x then Some 0 else None)"
  by (induction n) auto

lemma poll_loop_unused:
  "\<forall>k \<in> set ks. of_offer_id (ho_offer (hs_offers st ! k)) = 0 \<Longrightarrow> host_poll_loop E ks s st = (True, st)"
  by (induction ks arbitrary: s) (simp_all add: poll_slot_def)

definition demo_registered :: host where
  "demo_registered = demo_host\<lparr>hs_stdin := [], hs_probes := [], hs_stdout := [1, 0, 0, 0, 109], hs_frames := 8,
     hs_connects := [Some (answering 0)], hs_popups := [7],
     hs_offers := (hs_offers demo_host)[0 := registered_slot (demo_offer IPC_BROWSER_WAITING 0)]\<rparr>"

lemma demo_host_runs: "host_main demo_host_env [SelectReadable] demo_host = (None, demo_registered)"
proof -
  let ?st = "demo_host\<lparr>hs_stdin := []\<rparr>"
  have "frame_of [CHR 123] = [1, 0, 0, 0, 123]" by code_simp
  then have "native_read demo_host_env demo_host = (1, [CHR 123], ?st)"
    by (intro native_read_frame) (simp_all add: demo_host_def demo_host_env_def NATIVE_MAX_MESSAGE_def)
  moreover have "host_handle_message demo_host_env [CHR 123] ?st = (True, demo_registered\<lparr>hs_connects := [Some (answering 1), Some (answering 0)]\<rparr>)"
  proof -
    have p: "hv_parse demo_host_env [CHR 123] = Some [''type'' \<mapsto> JString ''download_offer'', ''request_id'' \<mapsto> JString ''r'', ''url'' \<mapsto> JString ''u'']"
      by (simp add: demo_host_env_def)
    have o: "parse_offer [''type'' \<mapsto> JString ''download_offer'', ''request_id'' \<mapsto> JString ''r'', ''url'' \<mapsto> JString ''u''] =
        Some (zero_offer\<lparr>of_request_id := ''r'', of_url := ''u''\<rparr>)"
      by (simp add: parse_offer_def copy_field_def zero_offer_def)
    have k: "find_offer_slot ''r'' (hs_offers demo_host) = Some 0"
      by (simp add: find_offer_slot_def demo_host_def first_index_replicate zero_host_offer_def zero_offer_def HOST_MAX_OFFERS_def)
    have r: "fst (ipc_browser_offer (hv_printer demo_host_env) (hv_offer_size demo_host_env) (hv_offer demo_host_env)
        (zero_offer\<lparr>of_request_id := ''r'', of_url := ''u''\<rparr>) (answering 1)) = Some (demo_offer IPC_BROWSER_WAITING 0)"
      by (simp add: ipc_browser_offer_def demo_host_env_def browser_write_request_def sock_write_def answering_def read_offer_def
          sock_read_def take_exact_def demo_offer_def IPC_MAX_FRAME_SIZE_def str_bytes_def)
    have f: "printed_frame demo_host_env m = [1, 0, 0, 0, 109]" "sendable demo_host_env m" for m
    proof -
      have "frame_of ''m'' = [1, 0, 0, 0, 109]" by code_simp
      then show "printed_frame demo_host_env m = [1, 0, 0, 0, 109]" "sendable demo_host_env m"
        by (simp_all add: printed_frame_def sendable_def demo_host_env_def NATIVE_MAX_MESSAGE_def)
    qed
    have x: "cdm_executable demo_host_env" "hv_popup demo_host_env 7" by (simp_all add: cdm_executable_def demo_host_env_def)
    have e: "host_ensure_daemon_running demo_host_env ?st = (True, ?st\<lparr>hs_probes := []\<rparr>)"
      by (simp add: host_ensure_daemon_running_def next_probe_def demo_host_def)
    have c: "host_connect (?st\<lparr>hs_probes := []\<rparr>) =
        (Some (answering 1), ?st\<lparr>hs_probes := [], hs_connects := [Some (answering 1), Some (answering 0)]\<rparr>)"
      by (simp add: host_connect_def demo_host_def)
    have d: "hs_frames demo_host = 9" "hs_stdout demo_host = []" "hs_popups demo_host = []" "of_offer_id (ho_offer (hs_offers demo_host ! 0)) = 0"
      by (simp_all add: demo_host_def HOST_MAX_OFFERS_def zero_host_offer_def zero_offer_def)
    have w: "of_offer_id (demo_offer s i) = 7" "of_state (demo_offer s i) = s" for s i by (simp_all add: demo_offer_def)
    show ?thesis
      by (simp add: host_handle_message_def p o k e c r d w Let_def send_registered_def native_send_cases f launch_popup_def x demo_registered_def)
  qed
  moreover have "poll_offers demo_host_env (demo_registered\<lparr>hs_connects := [Some (answering 1), Some (answering 0)]\<rparr>) = (True, demo_registered)"
  proof -
    let ?r = "demo_registered\<lparr>hs_connects := [Some (answering 1), Some (answering 0)]\<rparr>"
    have o0: "hs_offers demo_registered = registered_slot (demo_offer IPC_BROWSER_WAITING 0) # replicate 63 zero_host_offer"
      by (simp add: demo_registered_def demo_host_def HOST_MAX_OFFERS_def numeral_eq_Suc)
    have "host_connect ?r = (Some (answering 1), demo_registered)" by (simp add: host_connect_def) (simp add: demo_registered_def)
    moreover have "\<exists>s1. poll_slot demo_host_env 0 (answering 1) demo_registered = (True, s1, demo_registered)"
      by (simp add: poll_slot_def o0 registered_slot_def demo_offer_def ipc_browser_get_offer_def browser_write_request_def sock_write_def
          answering_def read_offer_def sock_read_def take_exact_def demo_host_env_def report_change_def IPC_MAX_FRAME_SIZE_def Let_def)
    moreover have "\<forall>k \<in> set [1..<HOST_MAX_OFFERS]. of_offer_id (ho_offer (hs_offers demo_registered ! k)) = 0"
      by (auto simp: o0 nth_Cons' HOST_MAX_OFFERS_def zero_host_offer_def zero_offer_def)
    moreover have "[0..<HOST_MAX_OFFERS] = 0 # [1..<HOST_MAX_OFFERS]" by (simp add: HOST_MAX_OFFERS_def upt_conv_Cons)
    ultimately show ?thesis
      by (auto simp: poll_offers_def o0 registered_slot_def demo_offer_def poll_loop_unused)
  qed
  ultimately show ?thesis by (simp add: host_round_def Let_def)
qed

theorem final_outcome_is_reported_witness:
  "\<exists>s1 st'. poll_slot demo_host_env 0 (answering 2) demo_registered = (True, s1, st') \<and>
     hs_stdout st' = [1, 0, 0, 0, 109, 1, 0, 0, 0, 109, 1, 0, 0, 0, 109] \<and> of_offer_id (ho_offer (hs_offers st' ! 0)) = 0"
proof -
  let ?cur = "demo_offer IPC_BROWSER_CONFIRMED 3"
  let ?snap = "hv_progress demo_host_env []"
  have o0: "hs_offers demo_registered ! 0 = registered_slot (demo_offer IPC_BROWSER_WAITING 0)"
    by (simp add: demo_registered_def demo_host_def HOST_MAX_OFFERS_def)
  have "\<exists>s1. ipc_browser_get_offer (hv_offer_size demo_host_env) (hv_offer demo_host_env)
      (of_offer_id (ho_offer (hs_offers demo_registered ! 0))) (answering 2) = (Some ?cur, s1)"
    by (simp add: o0 registered_slot_def demo_offer_def ipc_browser_get_offer_def browser_write_request_def sock_write_def
        answering_def read_offer_def sock_read_def take_exact_def demo_host_env_def IPC_MAX_FRAME_SIZE_def)
  then obtain s1 where get: "ipc_browser_get_offer (hv_offer_size demo_host_env) (hv_offer demo_host_env)
      (of_offer_id (ho_offer (hs_offers demo_registered ! 0))) (answering 2) = (Some ?cur, s1)" by blast
  have prog: "fst (ipc_browser_subscribe_progress (hv_progress_size demo_host_env) (hv_progress demo_host_env) (of_download_id ?cur) (answering 0)) = Some ?snap"
    by (simp add: ipc_browser_subscribe_progress_def browser_write_request_def sock_write_def answering_def sock_read_def take_exact_def
        demo_host_env_def IPC_MAX_FRAME_SIZE_def demo_offer_def)
  have "frame_of ''m'' = [1, 0, 0, 0, 109]" by code_simp
  then have f: "printed_frame demo_host_env m = [1, 0, 0, 0, 109]" "sendable demo_host_env m" for m
    by (simp_all add: printed_frame_def sendable_def demo_host_env_def NATIVE_MAX_MESSAGE_def)
  have fin: "final_status (bp_status ?snap)" by (simp add: demo_host_env_def final_status_def)
  have d: "hs_offers demo_host = replicate HOST_MAX_OFFERS zero_host_offer" "hs_connects demo_registered = Some (answering 0) # []"
    "hs_stdout demo_registered = [1, 0, 0, 0, 109]" "2 \<le> hs_frames demo_registered"
    by (simp_all add: demo_host_def demo_registered_def)
  have "\<exists>st'. poll_slot demo_host_env 0 (answering 2) demo_registered = (True, s1, st') \<and>
    hs_offers st' = (hs_offers demo_registered)[0 := zero_host_offer] \<and>
    hs_stdout st' = hs_stdout demo_registered @
      (if ho_reported_state (hs_offers demo_registered ! 0) = IPC_BROWSER_CONFIRMED then [] else printed_frame demo_host_env (state_message ?cur None)) @
      printed_frame demo_host_env (state_message ?cur (Some ?snap))"
    by (rule final_outcome_is_reported [OF demo_host_runs d(1) _ _ get _ _ d(2) prog fin d(4) f(2) f(2)])
       (simp_all add: o0 registered_slot_def demo_offer_def HOST_MAX_OFFERS_def)
  then obtain st' where "poll_slot demo_host_env 0 (answering 2) demo_registered = (True, s1, st')"
    "hs_offers st' = (hs_offers demo_registered)[0 := zero_host_offer]"
    "hs_stdout st' = [1, 0, 0, 0, 109, 1, 0, 0, 0, 109, 1, 0, 0, 0, 109]"
    by (auto simp: f o0 registered_slot_def demo_offer_def d(3))
  moreover have "0 < length (hs_offers demo_registered)" by (simp add: demo_registered_def demo_host_def HOST_MAX_OFFERS_def)
  ultimately show ?thesis by (intro exI [of _ s1] exI [of _ st']) (simp add: zero_host_offer_def zero_offer_def)
qed

end
