(* ===== verification/Atomic_File.thy ===== *)
theory Atomic_File
  imports File_Io
begin

text \<open>
  Replacing a file through a temporary beside it, the way \<open>write_entry\<close> of
  \<open>src/platform/daemon_autostart.c\<close> and \<open>write_manifest\<close> of \<open>src/native_host/browser_install.c\<close> both do:
  \<open>mkstemp\<close>, writing, \<open>fsync\<close>, closing, \<open>rename\<close>, and \<open>unlink\<close> of the temporary when any of it failed.
  The run is the list of the file systems after each system call, so that a crash between two calls
  is a state of the model; the locale states what a reader of the file can rely on.
\<close>

text \<open>What the calls meet: the six characters \<open>mkstemp\<close> chooses, and which calls succeed; \<open>te_written\<close>
  is how many bytes reach the file before a write fails (\<open>None\<close>: all of them).\<close>

record tmp_env =
  te_suffix :: string
  te_mkstemp :: bool
  te_prepare :: bool          \<comment> \<open>\<open>fchmod\<close>, or \<open>fdopen\<close>\<close>
  te_written :: "nat option"
  te_sync :: bool
  te_close :: bool
  te_rename :: bool

definition temporary_of :: "tmp_env \<Rightarrow> string \<Rightarrow> string" where
  "temporary_of T path = path @ ''.tmp.'' @ te_suffix T"

definition reached :: "tmp_env \<Rightarrow> string \<Rightarrow> u8 list" where
  "reached T content =
     (if \<not> te_prepare T then []
      else case te_written T of None \<Rightarrow> str_bytes content | Some n \<Rightarrow> take n (str_bytes content))"

definition writes_ok :: "tmp_env \<Rightarrow> bool" where
  "writes_ok T \<longleftrightarrow> te_prepare T \<and> te_written T = None \<and> te_sync T \<and> te_close T"

definition replace_file :: "kernel \<Rightarrow> tmp_env \<Rightarrow> string \<Rightarrow> string \<Rightarrow> fs \<Rightarrow> int \<times> fs list" where
  "replace_file K T path content fs =
     (let temporary = temporary_of T path
      in if \<not> te_mkstemp T \<or> fs temporary \<noteq> None then (-1, [fs])
         else let fs1 = fs(temporary \<mapsto> Regular []);
                  fs2 = fs1(temporary \<mapsto> Regular (reached T content))
              in if writes_ok T \<and> te_rename T
                 then (0, [fs, fs1, fs2, fs2(path \<mapsto> Regular (str_bytes content), temporary := None)])
                 else (-1, [fs, fs1, fs2, sys_unlink K temporary fs2]))"

section \<open>Directories above a file\<close>

lemma mkdir_prefixes_longer:
  "mkdir_prefixes K temp is fs = (r, fs') \<Longrightarrow> length temp < length q \<Longrightarrow> fs' q = fs q"
proof (induction "is" arbitrary: fs)
  case (Cons i "is")
  have "sys_mkdir K (take i temp) fs = (e, f) \<Longrightarrow> f q = fs q" for e f
    using Cons.prems(2) by (auto simp: sys_mkdir_def split: option.splits if_splits)
  then show ?case using Cons by (auto split: if_splits prod.splits option.splits)
qed simp

lemma ensure_directory_longer:
  assumes "file_ensure_directory K path fs = (r, fs')" and "length path < length q"
  shows "fs' q = fs q"
proof -
  let ?t = "strncpy_buf 1024 path"
  have t: "length ?t < length q" using assms(2) by (simp add: strncpy_buf_def)
  obtain b f where m: "mkdir_prefixes K ?t [1..<length ?t] fs = (b, f)" by fastforce
  have "f q = fs q" by (rule mkdir_prefixes_longer [OF m t])
  moreover have "sys_mkdir K ?t f = (e, g) \<Longrightarrow> g q = f q" for e g
    using t by (auto simp: sys_mkdir_def split: option.splits if_splits)
  ultimately show ?thesis
    using assms(1) m by (auto simp: file_ensure_directory_def Let_def split: if_splits bool.splits prod.splits option.splits)
qed

lemma mkdir_prefixes_ok: "\<forall>p. k_fault K SysMkdir p = None \<Longrightarrow> fst (mkdir_prefixes K temp is fs)"
  by (induction "is" arbitrary: fs) (auto simp: sys_mkdir_def split: option.splits if_splits prod.splits)

lemma ensure_directory_ok: "\<forall>p. k_fault K SysMkdir p = None \<Longrightarrow> path \<noteq> [] \<Longrightarrow> fst (file_ensure_directory K path fs) = 0"
  using mkdir_prefixes_ok [of K "strncpy_buf 1024 path" "[1..<length (strncpy_buf 1024 path)]" fs]
  by (auto simp: file_ensure_directory_def Let_def sys_mkdir_def split: option.splits if_splits prod.splits bool.splits)

section \<open>What a reader can rely on\<close>

text \<open>
  A writer of the file \<open>path\<close>: a result code and the file systems it goes through. It may create
  directories above the file and its own temporary; it never leaves anything but the old or the
  whole new file under \<open>path\<close>.
\<close>

locale atomic_writer =
  fixes run :: "fs \<Rightarrow> int \<times> fs list" and path :: string and temporary :: string and content :: string
  assumes nonempty: "snd (run fs) \<noteq> []"
    and old_or_new: "s \<in> set (snd (run fs)) \<Longrightarrow> s path = fs path \<or> s path = Some (Regular (str_bytes content))"
    and others: "s \<in> set (snd (run fs)) \<Longrightarrow> q \<noteq> path \<Longrightarrow> q \<noteq> temporary \<Longrightarrow> fs q \<noteq> None \<Longrightarrow> s q = fs q"
    and success: "fst (run fs) = 0 \<Longrightarrow> last (snd (run fs)) path = Some (Regular (str_bytes content))"
    and failure: "fst (run fs) \<noteq> 0 \<Longrightarrow> last (snd (run fs)) path = fs path"
begin

text \<open>Any property of the file's text that both the old and the new text have holds throughout.\<close>

lemma reader_sees:
  assumes "s \<in> set (snd (run fs))" and "P (fs path)" and "P (Some (Regular (str_bytes content)))"
  shows "P (s path)"
  using old_or_new [OF assms(1)] assms(2,3) by auto

lemma result_decides:
  "last (snd (run fs)) path = (if fst (run fs) = 0 then Some (Regular (str_bytes content)) else fs path)"
  using success [of fs] failure [of fs] by simp

text \<open>A run that starts where a run ended: the second writer of the same text finds it or replaces it.\<close>

lemma again: "fst (run fs) = 0 \<Longrightarrow> last (snd (run (last (snd (run fs))))) path = Some (Regular (str_bytes content))"
  using result_decides [of "last (snd (run fs))"] result_decides [of fs] by simp

end

lemma temporary_of_neq [simp]: "temporary_of T path \<noteq> path"
  by (simp add: temporary_of_def)

interpretation replacing: atomic_writer "replace_file K T path content" path "temporary_of T path" content
  for K T path content
  by unfold_locales
     (auto simp: replace_file_def Let_def sys_unlink_def temporary_of_neq [symmetric] split: if_splits)

end
