(* ===== verification/Browser_Install.thy ===== *)
theory Browser_Install
  imports Atomic_File Ipc_Client
begin

text \<open>
  \<open>src/native_host/browser_install.c\<close>: registering the native messaging host with a browser by
  writing its manifest, and removing it again. The JSON printer and parser of \<open>cJSON\<close>, the path of the
  executable and the answers of \<open>access(X_OK)\<close> are parameters.
\<close>

definition HOST_NAME :: string where
  "HOST_NAME = ''org.cdm.browser''"

datatype manifest_value = MString string | MStrings "string list"

record install_env =
  iv_kernel :: kernel
  iv_exe :: string
  iv_exec_ok :: "string \<Rightarrow> bool"
  iv_print :: "(string \<times> manifest_value) list \<Rightarrow> string option"
  iv_parse :: "string \<Rightarrow> json option"
  iv_tmp :: tmp_env

definition manifest_dir :: "string \<Rightarrow> string option" where
  "manifest_dir browser =
     (if browser = ''--chrome'' then Some ''/.config/google-chrome/NativeMessagingHosts''
      else if browser = ''--chromium'' then Some ''/.config/chromium/NativeMessagingHosts''
      else if browser = ''--firefox'' then Some ''/.mozilla/native-messaging-hosts''
      else None)"

definition valid_chromium_id :: "string \<Rightarrow> bool" where
  "valid_chromium_id i \<longleftrightarrow> length i = 32 \<and> list_all (\<lambda>c. 97 \<le> (of_char c :: nat) \<and> (of_char c :: nat) \<le> 112) i"

definition get_manifest_path :: "install_env \<Rightarrow> string \<Rightarrow> nat \<Rightarrow> bool \<Rightarrow> fs \<Rightarrow> string option \<times> fs" where
  "get_manifest_path V browser capacity create fs =
     (case (manifest_dir browser, k_getenv (iv_kernel V) ''HOME'') of
        (Some suffix, Some home) \<Rightarrow>
          if take 1 home \<noteq> ''/'' then (None, fs)
          else let dir = home @ suffix
               in if length dir \<ge> 1024 then (None, fs)
                  else let (rc, fs1) = (if create then file_ensure_directory (iv_kernel V) dir fs else (0, fs));
                           out = dir @ ''/'' @ HOST_NAME @ ''.json''
                       in (if rc \<noteq> 0 \<or> length out \<ge> capacity then None else Some out, fs1)
      | _ \<Rightarrow> (None, fs))"

definition get_host_path :: "install_env \<Rightarrow> nat \<Rightarrow> string option" where
  "get_host_path V capacity =
     (let exe = strncpy_buf capacity (iv_exe V)
      in case strrchr (CHR ''/'') exe of
           None \<Rightarrow> None
         | Some k \<Rightarrow>
             if drop (Suc k) exe \<noteq> ''cdm'' then None
             else if Suc k + 16 > capacity then None
             else let out = take (Suc k) exe @ ''cdm_native_host''
                  in if iv_exec_ok V out then Some out else None)"

definition manifest_members :: "string \<Rightarrow> string \<Rightarrow> string \<Rightarrow> (string \<times> manifest_value) list" where
  "manifest_members host_path browser i =
     [(''name'', MString HOST_NAME), (''description'', MString ''Core Download Manager browser host''),
      (''path'', MString host_path), (''type'', MString ''stdio'')] @
     (if browser = ''--firefox'' then [(''allowed_extensions'', MStrings [i])]
      else [(''allowed_origins'', MStrings [strncpy_buf 80 (''chrome-extension://'' @ i @ ''/'')])])"

text \<open>The printed manifest and a newline, put in place of what was there.\<close>

definition write_manifest :: "install_env \<Rightarrow> string \<Rightarrow> string \<Rightarrow> string \<Rightarrow> string \<Rightarrow> fs \<Rightarrow> int \<times> fs list" where
  "write_manifest V path host_path browser i fs =
     (case iv_print V (manifest_members host_path browser i) of
        None \<Rightarrow> (-1, [fs])
      | Some json \<Rightarrow>
          if length (path @ ''.tmp.XXXXXX'') \<ge> 1200 then (-1, [fs])
          else replace_file (iv_kernel V) (iv_tmp V) path (json @ [CHR 0x0A]) fs)"

definition is_our_manifest :: "install_env \<Rightarrow> string \<Rightarrow> fs \<Rightarrow> bool" where
  "is_our_manifest V path fs =
     (if k_fault (iv_kernel V) SysOpen path \<noteq> None \<or> fs path = None then False
      else let contents = (case fs path of Some (Regular b) \<Rightarrow> cstr_of (take 8191 b) | _ \<Rightarrow> [])
           in case iv_parse V contents of
                None \<Rightarrow> False
              | Some obj \<Rightarrow>
                  (case (obj ''name'', obj ''path'') of
                     (Some (JString name), Some (JString host)) \<Rightarrow>
                       name = HOST_NAME \<and>
                       (case strrchr (CHR ''/'') host of None \<Rightarrow> False | Some k \<Rightarrow> drop (Suc k) host = ''cdm_native_host'')
                   | _ \<Rightarrow> False))"

datatype install_report =
  InstallUsage | BadFirefoxId | BadChromiumId | NoManifestDir | NoHostBinary | ManifestNotWritten string | Registered string
| NothingInstalled | ForeignManifest string | ManifestNotRemoved string | ManifestRemoved string

text \<open>\<open>unlink\<close> fails with a fault, or when there is nothing to remove.\<close>

definition unlink_ok :: "kernel \<Rightarrow> string \<Rightarrow> fs \<Rightarrow> bool" where
  "unlink_ok K p fs \<longleftrightarrow> k_fault K SysUnlink p = None \<and> fs p \<noteq> None"

definition install_manifest :: "install_env \<Rightarrow> string \<Rightarrow> string \<Rightarrow> fs \<Rightarrow> int \<times> install_report \<times> fs list" where
  "install_manifest V browser i fs =
     (case get_manifest_path V browser 1200 True fs of
        (None, fs1) \<Rightarrow> (1, NoManifestDir, [fs1])
      | (Some manifest, fs1) \<Rightarrow>
          (case get_host_path V 1024 of
             None \<Rightarrow> (1, NoHostBinary, [fs1])
           | Some host_path \<Rightarrow>
               (case write_manifest V manifest host_path browser i fs1 of
                  (rc, states) \<Rightarrow>
                    if rc \<noteq> 0 then (1, ManifestNotWritten manifest, states) else (0, Registered manifest, states))))"

definition uninstall_manifest :: "install_env \<Rightarrow> string \<Rightarrow> fs \<Rightarrow> int \<times> install_report \<times> fs list" where
  "uninstall_manifest V browser fs =
     (case get_manifest_path V browser 1200 False fs of
        (None, fs1) \<Rightarrow> (1, NoManifestDir, [fs1])
      | (Some manifest, fs1) \<Rightarrow>
          if sys_access (iv_kernel V) manifest fs1 \<noteq> None then (0, NothingInstalled, [fs1])
          else if \<not> is_our_manifest V manifest fs1 then (1, ForeignManifest manifest, [fs1])
          else if \<not> unlink_ok (iv_kernel V) manifest fs1 then (1, ManifestNotRemoved manifest, [fs1])
          else (0, ManifestRemoved manifest, [fs1, sys_unlink (iv_kernel V) manifest fs1]))"

text \<open>\<open>argv\<close> starts with \<open>browser\<close>, as \<open>main\<close> passes it.\<close>

definition browser_install_main :: "install_env \<Rightarrow> string list \<Rightarrow> fs \<Rightarrow> int \<times> install_report \<times> fs list" where
  "browser_install_main V argv fs =
     (case argv of
        _ # verb # browser # rest \<Rightarrow>
          if manifest_dir browser = None then (1, InstallUsage, [fs])
          else if verb = ''install''
          then (case rest of
                  [flag, i] \<Rightarrow>
                    if flag \<noteq> ''--id'' then (1, InstallUsage, [fs])
                    else if browser = ''--firefox''
                    then (if i \<noteq> ''browser@cdm.local'' then (1, BadFirefoxId, [fs]) else install_manifest V browser i fs)
                    else if \<not> valid_chromium_id i then (1, BadChromiumId, [fs])
                    else install_manifest V browser i fs
                | _ \<Rightarrow> (1, InstallUsage, [fs]))
          else if verb = ''uninstall''
          then (if rest = [] then uninstall_manifest V browser fs else (1, InstallUsage, [fs]))
          else (1, InstallUsage, [fs])
      | _ \<Rightarrow> (1, InstallUsage, [fs]))"

section \<open>Lemmas\<close>

text \<open>\<open>write_manifest\<close> is a writer of the printed text (of nothing, when it cannot be printed).\<close>

definition manifest_text :: "install_env \<Rightarrow> string \<Rightarrow> string \<Rightarrow> string \<Rightarrow> string" where
  "manifest_text V host_path browser i =
     (case iv_print V (manifest_members host_path browser i) of None \<Rightarrow> [] | Some json \<Rightarrow> json @ [CHR 0x0A])"

interpretation manifest: atomic_writer "write_manifest V path host_path browser i" path "temporary_of (iv_tmp V) path"
    "manifest_text V host_path browser i"
  for V path host_path browser i
proof
  fix fs s :: fs and q
  show "snd (write_manifest V path host_path browser i fs) \<noteq> []"
    using replacing.nonempty by (simp add: write_manifest_def split: option.splits)
  { assume s: "s \<in> set (snd (write_manifest V path host_path browser i fs))"
    then show "s path = fs path \<or> s path = Some (Regular (str_bytes (manifest_text V host_path browser i)))"
      by (auto simp: write_manifest_def manifest_text_def split: option.splits if_splits dest: replacing.old_or_new)
    assume "q \<noteq> path" "q \<noteq> temporary_of (iv_tmp V) path" "fs q \<noteq> None"
    with s show "s q = fs q"
      by (auto simp: write_manifest_def split: option.splits if_splits dest: replacing.others) }
  show "fst (write_manifest V path host_path browser i fs) = 0 \<Longrightarrow>
      last (snd (write_manifest V path host_path browser i fs)) path = Some (Regular (str_bytes (manifest_text V host_path browser i)))"
    using replacing.success by (auto simp: write_manifest_def manifest_text_def split: option.splits if_splits)
  show "fst (write_manifest V path host_path browser i fs) \<noteq> 0 \<Longrightarrow> last (snd (write_manifest V path host_path browser i fs)) path = fs path"
    using replacing.failure by (auto simp: write_manifest_def split: option.splits if_splits)
qed

lemma get_manifest_path_frame:
  assumes "get_manifest_path V browser n create fs = (r, fs1)" and "fs q \<noteq> None"
  shows "fs1 q = fs q"
  using assms file_ensure_directory_frame [of "iv_kernel V" _ fs _ fs1 q]
  by (auto simp: get_manifest_path_def Let_def split: option.splits if_splits prod.splits)

lemma get_manifest_path_untouched:
  assumes "get_manifest_path V browser n create fs = (Some p, fs1)"
  shows "fs1 p = fs p"
  using assms ensure_directory_longer [of "iv_kernel V" _ fs _ fs1 p]
  by (auto simp: get_manifest_path_def Let_def split: option.splits if_splits prod.splits)

text \<open>The path does not depend on whether the directory is created.\<close>

lemma get_manifest_path_again:
  assumes "get_manifest_path V browser n True fs = (Some p, fs1)"
  shows "get_manifest_path V browser n False fs' = (Some p, fs')"
  using assms by (auto simp: get_manifest_path_def Let_def split: option.splits if_splits prod.splits)

text \<open>What the code relies on of \<open>cJSON\<close>: a printed object parses back with the string members it was
  given, and the text holds no NUL.\<close>

definition prints_and_parses :: "install_env \<Rightarrow> bool" where
  "prints_and_parses V \<longleftrightarrow> (\<forall>ms json. iv_print V ms = Some json \<longrightarrow> CHR 0x00 \<notin> set json \<and>
     (\<exists>obj. iv_parse V (json @ [CHR 0x0A]) = Some obj \<and> (\<forall>k v. map_of ms k = Some (MString v) \<longrightarrow> obj k = Some (JString v))))"

lemma get_host_path_name:
  assumes "get_host_path V n = Some h"
  shows "case strrchr (CHR ''/'') h of None \<Rightarrow> False | Some k \<Rightarrow> drop (Suc k) h = ''cdm_native_host''"
proof -
  obtain k where k: "strrchr (CHR ''/'') (strncpy_buf n (iv_exe V)) = Some k" "h = take (Suc k) (strncpy_buf n (iv_exe V)) @ ''cdm_native_host''"
    using assms by (auto simp: get_host_path_def Let_def split: option.splits if_splits)
  let ?e = "strncpy_buf n (iv_exe V)"
  from strrchr_SomeD [OF k(1)] have "k < length ?e" "?e ! k = CHR ''/''" by simp_all
  then have "h = take k ?e @ CHR ''/'' # ''cdm_native_host''" "length (take k ?e) = k" using k(2) by (simp_all add: take_Suc_conv_app_nth)
  moreover have "strrchr (CHR ''/'') (take k ?e @ CHR ''/'' # ''cdm_native_host'') = Some (length (take k ?e))"
    by (rule strrchr_append) simp
  ultimately show ?thesis by simp
qed

lemma written_manifest_is_ours:
  assumes "prints_and_parses V" and "iv_print V (manifest_members h browser i) = Some json" and "length json < 8191"
    and "get_host_path V n = Some h" and "k_fault (iv_kernel V) SysOpen path = None"
    and "fs path = Some (Regular (str_bytes (json @ [CHR 0x0A])))"
  shows "is_our_manifest V path fs"
proof -
  from assms(1,2) obtain obj where obj: "CHR 0x00 \<notin> set json" "iv_parse V (json @ [CHR 0x0A]) = Some obj"
    "\<And>k v. map_of (manifest_members h browser i) k = Some (MString v) \<Longrightarrow> obj k = Some (JString v)"
    unfolding prints_and_parses_def by blast
  have "cstr_of (take 8191 (str_bytes (json @ [CHR 0x0A]))) = json @ [CHR 0x0A]"
    using obj(1) assms(3) cstr_of_str_bytes [of "json @ [CHR 0x0A]"] by simp
  moreover have "obj ''name'' = Some (JString HOST_NAME)" "obj ''path'' = Some (JString h)"
    by (rule obj(3); simp add: manifest_members_def)+
  ultimately show ?thesis
    using get_host_path_name [OF assms(4)] assms(5,6) obj(2) by (simp add: is_our_manifest_def)
qed


definition demo_members :: "(string \<times> manifest_value) list" where
  "demo_members = manifest_members ''/b/cdm_native_host'' ''--firefox'' ''browser@cdm.local''"

definition demo_install :: install_env where
  "demo_install = \<lparr>iv_kernel = good_kernel\<lparr>k_getenv := (\<lambda>_. Some ''/h'')\<rparr>, iv_exe = ''/b/cdm'', iv_exec_ok = (\<lambda>_. True),
     iv_print = (\<lambda>ms. if ms = demo_members then Some ''j'' else None),
     iv_parse = (\<lambda>_. Some (\<lambda>k. case map_of demo_members k of Some (MString v) \<Rightarrow> Some (JString v) | _ \<Rightarrow> None)),
     iv_tmp = \<lparr>te_suffix = ''abcdef'', te_mkstemp = True, te_prepare = True, te_written = None, te_sync = True, te_close = True,
       te_rename = True\<rparr>\<rparr>"


end
