(* ===== verification/Autostart.thy ===== *)
theory Autostart
  imports Atomic_File Ipc_Client
begin

text \<open>
  \<open>src/platform/daemon_autostart.c\<close>: the desktop entry that starts the daemon at login: finding it,
  reading its keys, rewriting its \<open>Hidden\<close> key, replacing it atomically, and the commands \<open>enable\<close>,
  \<open>disable\<close> and \<open>status\<close>. The path of the executable, the answers of \<open>access(X_OK)\<close> and the ownership
  checks are parameters.
\<close>

definition ENTRY_NAME :: string where
  "ENTRY_NAME = ''cdm-daemon.desktop''"

definition MAX_ENTRY_SIZE :: nat where
  "MAX_ENTRY_SIZE = 65536"

definition PATH_MAX :: nat where
  "PATH_MAX = 4096"

record autostart_env =
  av_kernel :: kernel
  av_exe :: string
  av_exec_ok :: "string \<Rightarrow> bool"
  av_owned :: "string \<Rightarrow> bool"      \<comment> \<open>owned by the user\<close>
  av_dir :: "string \<Rightarrow> bool"        \<comment> \<open>what is not a regular file there is a directory\<close>
  av_tmp :: tmp_env
  av_probe :: connect_env
  av_socket :: string

section \<open>Paths\<close>

definition append_text :: "nat \<Rightarrow> string \<Rightarrow> string \<Rightarrow> string option" where
  "append_text capacity out data = (if length data \<ge> capacity - length out then None else Some (out @ data))"

definition join_entry_path :: "nat \<Rightarrow> string \<Rightarrow> string \<Rightarrow> string option" where
  "join_entry_path n base suffix = (if length (base @ ''/'' @ suffix) < n then Some (base @ ''/'' @ suffix) else None)"

text \<open>The parts a \<open>while (*p)\<close> loop with \<open>strchr\<close> visits: a separator at the end starts no part.\<close>

lemma rest_shorter: "s \<noteq> [] \<Longrightarrow> length (drop 1 (dropWhile P s)) < length s"
proof -
  assume "s \<noteq> []"
  then have "0 < length s" by simp
  with length_dropWhile_le [of P s] show ?thesis unfolding length_drop by linarith
qed

function pieces :: "char \<Rightarrow> string \<Rightarrow> string list" where
  "pieces c s = (if s = [] then [] else takeWhile (\<lambda>x. x \<noteq> c) s # pieces c (drop 1 (dropWhile (\<lambda>x. x \<noteq> c) s)))"
  by pat_completeness auto
termination
  by (relation "measure (\<lambda>(c, s). length s)") (rule wf_measure, simp only: in_measure split_conv, rule rest_shorter)

declare pieces.simps [simp del]

definition user_entry_path :: "autostart_env \<Rightarrow> nat \<Rightarrow> string option" where
  "user_entry_path V n =
     (let config = (case k_getenv (av_kernel V) ''XDG_CONFIG_HOME'' of
                      Some (x # xs) \<Rightarrow> if x = CHR ''/'' then Some (x # xs) else None | _ \<Rightarrow> None);
          base = (case config of
                    Some c \<Rightarrow> Some c
                  | None \<Rightarrow>
                      (case k_getenv (av_kernel V) ''HOME'' of
                         Some (x # xs) \<Rightarrow> if x = CHR ''/'' then join_entry_path PATH_MAX (x # xs) ''.config'' else None
                       | _ \<Rightarrow> None))
      in case base of
           None \<Rightarrow> None
         | Some b \<Rightarrow>
             (case join_entry_path PATH_MAX b ''autostart'' of
                None \<Rightarrow> None
              | Some dir \<Rightarrow> join_entry_path n dir ENTRY_NAME))"

text \<open>The entry a directory of \<open>XDG_CONFIG_DIRS\<close> holds, if it holds one.\<close>

definition system_candidate :: "autostart_env \<Rightarrow> fs \<Rightarrow> string \<Rightarrow> string option" where
  "system_candidate V fs part =
     (if part = [] \<or> hd part \<noteq> CHR ''/'' \<or> length part \<ge> PATH_MAX then None
      else case join_entry_path PATH_MAX part ''autostart'' of
             None \<Rightarrow> None
           | Some dir \<Rightarrow>
               (case join_entry_path PATH_MAX dir ENTRY_NAME of
                  None \<Rightarrow> None
                | Some candidate \<Rightarrow> if sys_access (av_kernel V) candidate fs = None then Some candidate else None))"

text \<open>0 and the path, 1 when there is none, -1 when it does not fit.\<close>

fun system_search :: "autostart_env \<Rightarrow> fs \<Rightarrow> nat \<Rightarrow> string list \<Rightarrow> int \<times> string" where
  "system_search V fs n [] = (1, [])"
| "system_search V fs n (part # parts) =
     (case system_candidate V fs part of
        Some candidate \<Rightarrow> if length candidate \<ge> n then (-1, []) else (0, candidate)
      | None \<Rightarrow> system_search V fs n parts)"

definition config_dirs :: "autostart_env \<Rightarrow> string list" where
  "config_dirs V =
     pieces (CHR '':'') (case k_getenv (av_kernel V) ''XDG_CONFIG_DIRS'' of Some (x # xs) \<Rightarrow> x # xs | _ \<Rightarrow> ''/etc/xdg'')"

definition system_entry_path :: "autostart_env \<Rightarrow> nat \<Rightarrow> fs \<Rightarrow> int \<times> string" where
  "system_entry_path V n fs = system_search V fs n (config_dirs V)"

section \<open>Reading an entry\<close>

datatype entry_read = EntryAbsent | EntryUnreadable | EntryText string

definition read_desktop_entry :: "autostart_env \<Rightarrow> string \<Rightarrow> bool \<Rightarrow> fs \<Rightarrow> entry_read" where
  "read_desktop_entry V path user_file fs =
     (case k_fault (av_kernel V) SysLstat path of
        Some e \<Rightarrow> if e = ENOENT then EntryAbsent else EntryUnreadable
      | None \<Rightarrow>
          (case fs path of
             None \<Rightarrow> EntryAbsent
           | Some Nonregular \<Rightarrow> EntryUnreadable
           | Some (Regular b) \<Rightarrow>
               if length b > MAX_ENTRY_SIZE \<or> (user_file \<and> \<not> av_owned V path) then EntryUnreadable
               else if k_fault (av_kernel V) SysOpen path \<noteq> None then EntryUnreadable
               else if \<not> k_alloc (av_kernel V) ''entry'' then EntryUnreadable
               else if k_fault (av_kernel V) SysRead path \<noteq> None \<and> b \<noteq> [] then EntryUnreadable
               else EntryText (cstr_of b)))"

definition entry_heading :: string where
  "entry_heading = ''[Desktop Entry]''"

text \<open>One line: whether it lies in the entry's section, and the value found last.\<close>

definition key_step :: "string \<Rightarrow> nat \<Rightarrow> string \<Rightarrow> bool \<times> string option \<Rightarrow> bool \<times> string option" where
  "key_step key n line st =
     (case st of
        (in_section, found) \<Rightarrow>
          if length line \<ge> 2 \<and> hd line = CHR ''['' then (line = entry_heading, found)
          else if in_section \<and> length line > length key \<and> take (length key) line = key \<and> line ! length key = CHR ''=''
          then (in_section, Some (strncpy_buf n (drop (Suc (length key)) line)))
          else (in_section, found))"

definition key_value :: "string \<Rightarrow> string \<Rightarrow> nat \<Rightarrow> string option" where
  "key_value content key n = snd (fold (key_step key n) (pieces (CHR 0x0A) content) (False, None))"

definition executable :: "autostart_env \<Rightarrow> string \<Rightarrow> bool" where
  "executable V v =
     (if v = [] then False
      else if CHR ''/'' \<in> set v then av_exec_ok V v
      else case k_getenv (av_kernel V) ''PATH'' of
             None \<Rightarrow> False
           | Some path \<Rightarrow>
               k_alloc (av_kernel V) ''PATH'' \<and>
               list_ex (\<lambda>dir. case join_entry_path PATH_MAX dir v of None \<Rightarrow> False | Some candidate \<Rightarrow> av_exec_ok V candidate)
                 (filter (\<lambda>d. d \<noteq> []) (pieces (CHR '':'') path)))"

definition entry_enabled :: "autostart_env \<Rightarrow> string \<Rightarrow> bool" where
  "entry_enabled V content =
     (if key_value content ''Type'' 32 \<noteq> Some ''Application'' then False
      else if key_value content ''Exec'' PATH_MAX = None \<or> key_value content ''Exec'' PATH_MAX = Some [] then False
      else if key_value content ''Hidden'' 16 = Some ''true'' then False
      else (case key_value content ''TryExec'' PATH_MAX of None \<Rightarrow> True | Some t \<Rightarrow> executable V t))"

definition system_entry_enabled :: "autostart_env \<Rightarrow> fs \<Rightarrow> int" where
  "system_entry_enabled V fs =
     (case system_entry_path V PATH_MAX fs of
        (found, path) \<Rightarrow>
          if found \<noteq> 0 then (if found < 0 then -1 else 0)
          else (case read_desktop_entry V path False fs of
                  EntryText content \<Rightarrow> if entry_enabled V content then 1 else 0
                | _ \<Rightarrow> -1))"

section \<open>Writing an entry\<close>

definition ensure_user_dir :: "autostart_env \<Rightarrow> string \<Rightarrow> fs \<Rightarrow> int \<times> fs" where
  "ensure_user_dir V entry fs =
     (if length entry \<ge> PATH_MAX then (-1, fs)
      else case strrchr (CHR ''/'') entry of
             None \<Rightarrow> (-1, fs)
           | Some k \<Rightarrow>
               let dir = take k entry;
                   ours = (\<lambda>fs1. fs1 dir = Some Nonregular \<and> av_dir V dir \<and> av_owned V dir);
                   fault = k_fault (av_kernel V) SysLstat dir
               in if fault = None \<and> fs dir \<noteq> None then (if ours fs then 0 else -1, fs)
                  else if fault \<noteq> None \<and> fault \<noteq> Some ENOENT then (-1, fs)
                  else (case file_ensure_directory (av_kernel V) dir fs of
                          (rc, fs1) \<Rightarrow>
                            if rc \<noteq> 0 \<or> fault \<noteq> None \<or> fs1 dir = None then (-1, fs1)
                            else (if ours fs1 then 0 else -1, fs1)))"

definition write_entry :: "autostart_env \<Rightarrow> string \<Rightarrow> string \<Rightarrow> fs \<Rightarrow> int \<times> fs list" where
  "write_entry V path content fs =
     (case ensure_user_dir V path fs of
        (rc, fs1) \<Rightarrow>
          if rc \<noteq> 0 then (-1, [fs, fs1])
          else if read_desktop_entry V path True fs1 = EntryUnreadable then (-1, [fs, fs1])
          else if length (path @ ''.tmp.XXXXXX'') \<ge> PATH_MAX then (-1, [fs, fs1])
          else (case replace_file (av_kernel V) (av_tmp V) path content fs1 of (r, states) \<Rightarrow> (r, fs # states)))"

section \<open>Switching an entry\<close>

record toggle =
  tg_out :: string
  tg_section :: bool
  tg_has_section :: bool
  tg_changed :: bool
  tg_extras_added :: bool

definition hidden_text :: "bool \<Rightarrow> string" where
  "hidden_text hidden = (if hidden then ''Hidden=true'' else ''Hidden=false'')"

definition append_line :: "nat \<Rightarrow> string \<Rightarrow> string \<Rightarrow> string option" where
  "append_line capacity line out = append_text capacity out (line @ [CHR 0x0A])"

text \<open>The keys an entry without them gets when it is switched on.\<close>

definition exec_text :: "string \<Rightarrow> string" where
  "exec_text exe = ''Exec='' @ exe @ '' daemon''"

definition add_extras :: "nat \<Rightarrow> bool \<Rightarrow> bool \<Rightarrow> bool \<Rightarrow> string \<Rightarrow> string \<Rightarrow> string option" where
  "add_extras capacity need_type need_name need_exec exe out =
     (case (if need_type then append_line capacity ''Type=Application'' out else Some out) of
        None \<Rightarrow> None
      | Some o1 \<Rightarrow>
          (case (if need_name then append_line capacity ''Name=Core Download Manager Daemon'' o1 else Some o1) of
             None \<Rightarrow> None
           | Some o2 \<Rightarrow>
               if \<not> need_exec then Some o2
               else if length (exec_text exe @ [CHR 0x0A]) \<ge> PATH_MAX + 32 then None
               else append_line capacity (exec_text exe) o2))"

definition put_hidden :: "nat \<Rightarrow> bool \<Rightarrow> toggle \<Rightarrow> toggle option" where
  "put_hidden capacity hidden t =
     (if tg_changed t then Some t
      else case append_line capacity (hidden_text hidden) (tg_out t) of
             None \<Rightarrow> None
           | Some out \<Rightarrow> Some (t\<lparr>tg_out := out, tg_changed := True\<rparr>))"

definition put_extras :: "nat \<Rightarrow> bool \<times> bool \<times> bool \<Rightarrow> string \<Rightarrow> toggle \<Rightarrow> toggle option" where
  "put_extras capacity need exe t =
     (if tg_extras_added t then Some t
      else case need of
             (need_type, need_name, need_exec) \<Rightarrow>
               (case add_extras capacity need_type need_name need_exec exe (tg_out t) of
                  None \<Rightarrow> None
                | Some out \<Rightarrow> Some (t\<lparr>tg_out := out, tg_extras_added := True\<rparr>)))"

text \<open>A line that is a heading ends the section it follows.\<close>

definition toggle_heading :: "nat \<Rightarrow> bool \<Rightarrow> bool \<times> bool \<times> bool \<Rightarrow> string \<Rightarrow> string \<Rightarrow> toggle \<Rightarrow> toggle option" where
  "toggle_heading capacity hidden need exe line t =
     (if line = [] \<or> hd line \<noteq> CHR ''['' then Some t
      else case (if tg_section t then put_hidden capacity hidden t else Some t) of
             None \<Rightarrow> None
           | Some t1 \<Rightarrow>
               (case (if tg_section t then put_extras capacity need exe t1 else Some t1) of
                  None \<Rightarrow> None
                | Some t2 \<Rightarrow> Some (t2\<lparr>tg_section := (line = entry_heading), tg_has_section := (tg_has_section t2 \<or> line = entry_heading)\<rparr>)))"

definition toggle_line :: "nat \<Rightarrow> bool \<Rightarrow> bool \<times> bool \<times> bool \<Rightarrow> string \<Rightarrow> string \<Rightarrow> toggle \<Rightarrow> toggle option" where
  "toggle_line capacity hidden need exe line t =
     (case toggle_heading capacity hidden need exe line t of
        None \<Rightarrow> None
      | Some t1 \<Rightarrow>
          if tg_section t1 \<and> length line \<ge> 7 \<and> take 7 line = ''Hidden='' then put_hidden capacity hidden t1
          else (case append_text capacity (tg_out t1) line of
                  None \<Rightarrow> None
                | Some o1 \<Rightarrow>
                    (case append_text capacity o1 [CHR 0x0A] of
                       None \<Rightarrow> None | Some o2 \<Rightarrow> Some (t1\<lparr>tg_out := o2\<rparr>))))"

fun toggle_lines :: "nat \<Rightarrow> bool \<Rightarrow> bool \<times> bool \<times> bool \<Rightarrow> string \<Rightarrow> string list \<Rightarrow> toggle \<Rightarrow> toggle option" where
  "toggle_lines capacity hidden need exe [] t = Some t"
| "toggle_lines capacity hidden need exe (l # ls) t =
     (case toggle_line capacity hidden need exe l t of None \<Rightarrow> None | Some t1 \<Rightarrow> toggle_lines capacity hidden need exe ls t1)"

definition toggle_hidden :: "autostart_env \<Rightarrow> string \<Rightarrow> bool \<Rightarrow> nat \<Rightarrow> string option" where
  "toggle_hidden V source hidden capacity =
     (let need = (\<not> hidden \<and> key_value source ''Type'' 32 = None, \<not> hidden \<and> key_value source ''Name'' 256 = None,
                  \<not> hidden \<and> key_value source ''Exec'' PATH_MAX = None);
          exe = (if snd (snd need) then strncpy_buf PATH_MAX (av_exe V) else [])
      in if snd (snd need) \<and> take 1 exe \<noteq> ''/'' then None
         else case toggle_lines capacity hidden need exe (pieces (CHR 0x0A) source)
                     \<lparr>tg_out = [], tg_section = False, tg_has_section = False, tg_changed = False, tg_extras_added = False\<rparr> of
                None \<Rightarrow> None
              | Some t \<Rightarrow>
                  if \<not> tg_has_section t then None
                  else (case put_hidden capacity hidden t of
                          None \<Rightarrow> None
                        | Some t1 \<Rightarrow> (case put_extras capacity need exe t1 of None \<Rightarrow> None | Some t2 \<Rightarrow> Some (tg_out t2))))"

section \<open>Commands\<close>

datatype autostart_action = AUTOSTART_WROTE | AUTOSTART_UPDATED | AUTOSTART_REMOVED | AUTOSTART_USING_SYSTEM

definition disabled_entry :: string where
  "disabled_entry = ''[Desktop Entry]'' @ [CHR 0x0A] @ ''Type=Application'' @ [CHR 0x0A] @ ''Name=Core Download Manager Daemon'' @ [CHR 0x0A] @
     ''Hidden=true'' @ [CHR 0x0A] @ ''X-CDM-Generated=true'' @ [CHR 0x0A]"

definition enabled_entry :: "string \<Rightarrow> string" where
  "enabled_entry exe = ''[Desktop Entry]'' @ [CHR 0x0A] @ ''Type=Application'' @ [CHR 0x0A] @ ''Name=Core Download Manager Daemon'' @ [CHR 0x0A] @
     ''Exec='' @ exe @ '' daemon'' @ [CHR 0x0A] @ ''TryExec='' @ exe @ [CHR 0x0A] @ ''Terminal=false'' @ [CHR 0x0A] @
     ''NoDisplay=true'' @ [CHR 0x0A] @ ''Hidden=false'' @ [CHR 0x0A] @ ''X-CDM-Generated=true'' @ [CHR 0x0A]"

text \<open>Writing an entry of the program's own and saying which action that was.\<close>

definition put_entry :: "autostart_env \<Rightarrow> string \<Rightarrow> string \<Rightarrow> autostart_action \<Rightarrow> fs \<Rightarrow> autostart_action option \<times> string \<times> fs list" where
  "put_entry V path content action fs =
     (case write_entry V path content fs of (rc, states) \<Rightarrow> (if rc \<noteq> 0 then None else Some action, path, states))"

definition fresh_enable :: "autostart_env \<Rightarrow> string \<Rightarrow> bool \<Rightarrow> fs \<Rightarrow> autostart_action option \<times> string \<times> fs list" where
  "fresh_enable V path had_entry fs =
     (let system_state = system_entry_enabled V fs
      in if system_state < 0 then (None, path, [fs])
         else if system_state = 1
         then (case system_entry_path V PATH_MAX fs of
                 (found, spath) \<Rightarrow> if found \<noteq> 0 then (None, path, [fs]) else (Some AUTOSTART_USING_SYSTEM, spath, [fs]))
         else let exe = strncpy_buf PATH_MAX (av_exe V)
              in if take 1 exe \<noteq> ''/'' then (None, path, [fs])
                 else if length (enabled_entry exe) \<ge> PATH_MAX * 2 then (None, path, [fs])
                 else put_entry V path (enabled_entry exe) (if had_entry then AUTOSTART_UPDATED else AUTOSTART_WROTE) fs)"

text \<open>\<open>None\<close> as the action: the result is -1. The path is the one of the report, empty when it is not known.\<close>

definition set_enabled :: "autostart_env \<Rightarrow> bool \<Rightarrow> fs \<Rightarrow> autostart_action option \<times> string \<times> fs list" where
  "set_enabled V enabled fs =
     (case user_entry_path V PATH_MAX of
        None \<Rightarrow> (None, [], [fs])
      | Some path \<Rightarrow>
          (case read_desktop_entry V path True fs of
             EntryUnreadable \<Rightarrow> (None, path, [fs])
           | EntryText current \<Rightarrow>
               if enabled \<and> key_value current ''X-CDM-Generated'' 16 = Some ''true''
               then (let system_state = system_entry_enabled V fs
                     in if system_state < 0 then (None, path, [fs])
                        else if system_state = 1
                        then (if k_fault (av_kernel V) SysUnlink path \<noteq> None then (None, path, [fs])
                              else (Some AUTOSTART_REMOVED, path, [fs, sys_unlink (av_kernel V) path fs]))
                        else fresh_enable V path True fs)
               else (case toggle_hidden V current (\<not> enabled) (MAX_ENTRY_SIZE + 128) of
                       None \<Rightarrow> (None, path, [fs])
                     | Some updated \<Rightarrow> put_entry V path updated AUTOSTART_UPDATED fs)
           | EntryAbsent \<Rightarrow>
               if \<not> enabled then put_entry V path disabled_entry AUTOSTART_WROTE fs
               else fresh_enable V path False fs))"

datatype autostart_status = AutoEnabled | AutoDisabled | AutoUnavailable

text \<open>What is printed: the state, the entry and the process id of a running daemon; an error code otherwise.\<close>

definition show_status :: "autostart_env \<Rightarrow> fs \<Rightarrow> int + autostart_status \<times> string \<times> int option" where
  "show_status V fs =
     (case user_entry_path V PATH_MAX of
        None \<Rightarrow> Inl (-1)
      | Some path \<Rightarrow>
          (case (case read_desktop_entry V path True fs of
                   EntryUnreadable \<Rightarrow> None
                 | EntryText c \<Rightarrow> Some (path, Some c)
                 | EntryAbsent \<Rightarrow>
                     (case system_entry_path V PATH_MAX fs of
                        (found, spath) \<Rightarrow>
                          if found < 0 then None
                          else if found = 0
                          then (case read_desktop_entry V spath False fs of EntryText c \<Rightarrow> Some (spath, Some c) | _ \<Rightarrow> None)
                          else Some ([], None))) of
             None \<Rightarrow> Inl (-1)
           | Some (shown, content) \<Rightarrow>
               (case ipc_server_get_pid (av_probe V) (av_socket V) of
                  (daemon_state, pid) \<Rightarrow>
                    if daemon_state < 0 then Inl (-2)
                    else Inr (case content of
                                None \<Rightarrow> AutoUnavailable
                              | Some c \<Rightarrow> if entry_enabled V c then AutoEnabled else AutoDisabled,
                              shown, if daemon_state = 1 then Some pid else None))))"

datatype autostart_report =
  AutostartChanged bool autostart_action string | AutostartNotUpdated string | AutostartNotInspected
| AutostartShown autostart_status string "int option" | AutostartNoPid

definition daemon_autostart_command :: "autostart_env \<Rightarrow> string \<Rightarrow> fs \<Rightarrow> int \<times> autostart_report \<times> fs list" where
  "daemon_autostart_command V action fs =
     (if action = ''enable'' \<or> action = ''disable''
      then (case set_enabled V (action = ''enable'') fs of
              (Some a, path, states) \<Rightarrow> (0, AutostartChanged (action = ''enable'') a path, states)
            | (None, path, states) \<Rightarrow> (1, if path \<noteq> [] then AutostartNotUpdated path else AutostartNotInspected, states))
      else if action = ''status''
      then (case show_status V fs of
              Inr (state, entry, pid) \<Rightarrow> (0, AutostartShown state (if entry \<noteq> [] then entry else ''(none)'') pid, [fs])
            | Inl rc \<Rightarrow> (1, if rc = -1 then AutostartNotInspected else AutostartNoPid, [fs]))
      else (1, AutostartNotInspected, [fs]))"

section \<open>Lines\<close>

definition unlines :: "string list \<Rightarrow> string" where
  "unlines ls = concat (map (\<lambda>l. l @ [CHR 0x0A]) ls)"

definition clean :: "string \<Rightarrow> bool" where
  "clean l \<longleftrightarrow> CHR 0x0A \<notin> set l \<and> CHR 0x00 \<notin> set l"

definition scan :: "string \<Rightarrow> nat \<Rightarrow> string list \<Rightarrow> bool \<times> string option" where
  "scan key n ls = fold (key_step key n) ls (False, None)"

lemma unlines_simps [simp]:
  "unlines [] = []" "unlines (l # ls) = l @ CHR 0x0A # unlines ls" "unlines (ls @ ms) = unlines ls @ unlines ms"
  by (simp_all add: unlines_def)

lemma scan_Nil [simp]: "scan k n [] = (False, None)"
  by (simp add: scan_def)

lemma scan_snoc: "scan k n (ls @ [l]) = key_step k n l (scan k n ls)"
  by (simp add: scan_def)

lemma pieces_Nil [simp]: "pieces c [] = []"
  by (subst pieces.simps) simp

lemma pieces_line: "c \<notin> set l \<Longrightarrow> pieces c (l @ c # s) = l # pieces c s"
proof -
  assume "c \<notin> set l"
  then have "takeWhile (\<lambda>x. x \<noteq> c) (l @ c # s) = l" "dropWhile (\<lambda>x. x \<noteq> c) (l @ c # s) = c # s"
    by (auto simp: takeWhile_tail dropWhile_append3)
  then show ?thesis by (subst pieces.simps) simp
qed

lemma pieces_unlines: "\<forall>l\<in>set ls. clean l \<Longrightarrow> pieces (CHR 0x0A) (unlines ls) = ls"
  by (induction ls) (auto simp: pieces_line clean_def)

lemma pieces_chars: "l \<in> set (pieces c s) \<Longrightarrow> c \<notin> set l \<and> set l \<subseteq> set s"
proof (induction c s rule: pieces.induct)
  case (1 c s)
  have "set (drop 1 (dropWhile (\<lambda>x. x \<noteq> c) s)) \<subseteq> set s" by (meson set_drop_subset set_dropWhileD subset_code(1) subset_trans)
  moreover have "l = takeWhile (\<lambda>x. x \<noteq> c) s \<or> l \<in> set (pieces c (drop 1 (dropWhile (\<lambda>x. x \<noteq> c) s)))" "s \<noteq> []"
    using 1(2) by (subst (asm) pieces.simps, auto split: if_splits)+
  ultimately show ?case using 1(1) by (auto dest: set_takeWhileD)
qed

lemma key_value_unlines: "\<forall>l\<in>set ls. clean l \<Longrightarrow> key_value (unlines ls) k n = snd (scan k n ls)"
  by (simp add: key_value_def scan_def pieces_unlines)

lemma cstr_of_unlines: "\<forall>l\<in>set ls. clean l \<Longrightarrow> cstr_of (str_bytes (unlines ls)) = unlines ls"
proof -
  assume "\<forall>l\<in>set ls. clean l"
  then have "CHR 0x00 \<notin> set (unlines ls)" by (induction ls) (auto simp: clean_def)
  then show ?thesis by (rule cstr_of_str_bytes)
qed

text \<open>A line gives a key a value when the text up to its first \<open>=\<close> is the key.\<close>

definition line_key :: "string \<Rightarrow> string option" where
  "line_key l = (if length l \<ge> 2 \<and> hd l = CHR ''['' \<or> CHR ''='' \<notin> set l then None else Some (takeWhile (\<lambda>c. c \<noteq> CHR ''='') l))"

lemma prefix_is_key:
  "CHR ''='' \<notin> set k \<Longrightarrow> (length l > length k \<and> take (length k) l = k \<and> l ! length k = CHR ''='') =
     (CHR ''='' \<in> set l \<and> takeWhile (\<lambda>c. c \<noteq> CHR ''='') l = k)"
proof
  assume k: "CHR ''='' \<notin> set k" and l: "length l > length k \<and> take (length k) l = k \<and> l ! length k = CHR ''=''"
  then obtain r where r: "l = k @ CHR ''='' # r" by (metis append_take_drop_id Cons_nth_drop_Suc)
  then show "CHR ''='' \<in> set l \<and> takeWhile (\<lambda>c. c \<noteq> CHR ''='') l = k"
    using k unfolding r by (auto simp: takeWhile_tail)
next
  assume k: "CHR ''='' \<notin> set k" and l: "CHR ''='' \<in> set l \<and> takeWhile (\<lambda>c. c \<noteq> CHR ''='') l = k"
  then obtain u r where r: "l = u @ CHR ''='' # r" "CHR ''='' \<notin> set u" by (meson split_list_first)
  then have "takeWhile (\<lambda>c. c \<noteq> CHR ''='') l = u" by (auto simp: takeWhile_tail)
  then have "l = k @ CHR ''='' # r" using l r(1) by simp
  then show "length l > length k \<and> take (length k) l = k \<and> l ! length k = CHR ''=''" by simp
qed

lemma key_step_line:
  "CHR ''='' \<notin> set k \<Longrightarrow> key_step k n l (s, f) =
     (if length l \<ge> 2 \<and> hd l = CHR ''['' then l = entry_heading else s,
      if s \<and> line_key l = Some k then Some (strncpy_buf n (drop (Suc (length k)) l)) else f)"
  unfolding key_step_def line_key_def using prefix_is_key [of k l] by auto

lemma scan_section: "fst (scan k n ls) = fst (scan k' n' ls)"
  by (induction ls rule: rev_induct) (auto simp: scan_snoc key_step_def split: prod.splits)

section \<open>What switching does to the keys\<close>

definition bool_text :: "bool \<Rightarrow> string" where
  "bool_text b = (if b then ''true'' else ''false'')"

text \<open>The values switching on gives to the keys an entry lacks, and the lines that do so.\<close>

definition extra_value :: "bool \<times> bool \<times> bool \<Rightarrow> string \<Rightarrow> string \<Rightarrow> string option" where
  "extra_value need exe k =
     (case need of
        (need_type, need_name, need_exec) \<Rightarrow>
          if k = ''Type'' \<and> need_type then Some ''Application''
          else if k = ''Name'' \<and> need_name then Some ''Core Download Manager Daemon''
          else if k = ''Exec'' \<and> need_exec then Some (exe @ '' daemon'') else None)"

definition extra_lines :: "bool \<times> bool \<times> bool \<Rightarrow> string \<Rightarrow> string list" where
  "extra_lines need exe =
     (case need of
        (need_type, need_name, need_exec) \<Rightarrow>
          (if need_type then [''Type=Application''] else []) @ (if need_name then [''Name=Core Download Manager Daemon''] else []) @
          (if need_exec then [exec_text exe] else []))"

lemma append_line_unlines: "append_line capacity l (unlines ls) = Some out \<Longrightarrow> out = unlines (ls @ [l])"
  by (auto simp: append_line_def append_text_def split: if_splits)

lemma add_extras_unlines:
  "add_extras capacity need_type need_name need_exec exe (unlines ls) = Some out \<Longrightarrow>
     out = unlines (ls @ extra_lines (need_type, need_name, need_exec) exe)"
  by (auto simp: add_extras_def extra_lines_def append_line_def append_text_def split: if_splits option.splits)

text \<open>Appending a line of a key inside the section.\<close>

lemma scan_key_line:
  assumes "fst (scan k n ls)" and "CHR ''='' \<notin> set k" and "CHR ''='' \<notin> set j" and "j \<noteq> []" and "hd j \<noteq> CHR ''[''"
  shows "scan k n (ls @ [j @ CHR ''='' # v]) = (True, if k = j then Some (strncpy_buf n v) else snd (scan k n ls))"
proof -
  have "line_key (j @ CHR ''='' # v) = Some j" using assms(3-5) by (auto simp: line_key_def takeWhile_tail)
  then show ?thesis
    using assms key_step_line [OF assms(2), of n "j @ CHR ''='' # v" True "snd (scan k n ls)"]
    by (cases "scan k n ls") (auto simp: scan_snoc)
qed

lemmas scan_known_lines =
  scan_key_line [where j = "''Hidden''", simplified] scan_key_line [where j = "''Type''", simplified]
  scan_key_line [where j = "''Name''", simplified] scan_key_line [where j = "''Exec''", simplified]

lemma scan_hidden_line:
  assumes "fst (scan k n ls)" and "CHR ''='' \<notin> set k"
  shows "scan k n (ls @ [hidden_text hidden]) = (True, if k = ''Hidden'' then Some (strncpy_buf n (bool_text hidden)) else snd (scan k n ls))"
  using scan_known_lines(1) [OF assms, of "bool_text hidden"] by (simp add: hidden_text_def bool_text_def split: if_splits)

lemma scan_extra_lines:
  assumes "fst (scan k n ls)" and "CHR ''='' \<notin> set k"
  shows "scan k n (ls @ extra_lines need exe) =
    (True, case extra_value need exe k of None \<Rightarrow> snd (scan k n ls) | Some v \<Rightarrow> Some (strncpy_buf n v))"
proof -
  obtain a b c where need: "need = (a, b, c)" by (metis prod.exhaust)
  let ?l1 = "ls @ (if a then [''Type=Application''] else [])"
  let ?l2 = "?l1 @ (if b then [''Name=Core Download Manager Daemon''] else [])"
  have 1: "scan k n ?l1 = (True, if k = ''Type'' \<and> a then Some (strncpy_buf n ''Application'') else snd (scan k n ls))"
    using scan_known_lines(2) [OF assms, of "''Application''"] assms(1) by (auto simp: prod_eq_iff)
  have 2: "scan k n ?l2 = (True, if k = ''Name'' \<and> b then Some (strncpy_buf n ''Core Download Manager Daemon'') else snd (scan k n ?l1))"
    using scan_known_lines(3) [of k n ?l1 "''Core Download Manager Daemon''"] assms 1 by (auto simp: prod_eq_iff)
  have 3: "scan k n (?l2 @ (if c then [exec_text exe] else [])) =
      (True, if k = ''Exec'' \<and> c then Some (strncpy_buf n (exe @ '' daemon'')) else snd (scan k n ?l2))"
    using scan_known_lines(4) [of k n ?l2 "exe @ '' daemon''"] assms 2 by (auto simp: prod_eq_iff exec_text_def)
  have "ls @ extra_lines need exe = ?l2 @ (if c then [exec_text exe] else [])" by (simp add: extra_lines_def need)
  then show ?thesis using 1 2 3 by (auto simp: extra_value_def need)
qed

text \<open>
  The state of the loop after the source lines \<open>src\<close>, with the lines \<open>ls\<close> written: both texts are in the
  same section; the \<open>Hidden\<close> key has its new value once it was written; a section that was left has
  everything; a missing key appears with the extras; every other key has the value of the source.
\<close>

definition switch_inv :: "bool \<Rightarrow> bool \<times> bool \<times> bool \<Rightarrow> string \<Rightarrow> string list \<Rightarrow> toggle \<Rightarrow> string list \<Rightarrow> bool" where
  "switch_inv hidden need exe src t ls \<longleftrightarrow>
     tg_out t = unlines ls \<and> (\<forall>l\<in>set ls. clean l) \<and>
     (\<forall>k n. fst (scan k n ls) = tg_section t \<and> fst (scan k n src) = tg_section t) \<and>
     (tg_section t \<longrightarrow> tg_has_section t) \<and> (tg_has_section t \<and> \<not> tg_section t \<longrightarrow> tg_changed t \<and> tg_extras_added t) \<and>
     (\<forall>n. snd (scan ''Hidden'' n ls) = (if tg_changed t then Some (strncpy_buf n (bool_text hidden)) else None)) \<and>
     (\<forall>k n. CHR ''='' \<notin> set k \<and> k \<noteq> ''Hidden'' \<longrightarrow>
        snd (scan k n ls) = (case extra_value need exe k of
                               Some v \<Rightarrow> if tg_extras_added t then Some (strncpy_buf n v) else snd (scan k n src)
                             | None \<Rightarrow> snd (scan k n src)))"

lemma clean_lines: "clean (hidden_text b)" "clean exe \<Longrightarrow> l \<in> set (extra_lines need exe) \<Longrightarrow> clean l"
  by (auto simp: clean_def hidden_text_def extra_lines_def exec_text_def split: prod.splits if_splits)

lemma extra_value_not_hidden [simp]: "extra_value need exe ''Hidden'' = None"
  by (simp add: extra_value_def split: prod.splits)

lemma put_hidden_inv:
  assumes "put_hidden capacity hidden t = Some t1" and "switch_inv hidden need exe src t ls" and "tg_section t"
  shows "\<exists>ms. switch_inv hidden need exe src t1 ms \<and> tg_changed t1 \<and> tg_section t1 \<and> tg_extras_added t1 = tg_extras_added t"
proof (cases "tg_changed t")
  case False
  then obtain out where o: "append_line capacity (hidden_text hidden) (unlines ls) = Some out" "t1 = t\<lparr>tg_out := out, tg_changed := True\<rparr>"
    using assms(1,2) by (auto simp: put_hidden_def switch_inv_def split: option.splits)
  have sec: "fst (scan k n ls)" for k n using assms(2,3) by (simp add: switch_inv_def)
  have "fst (scan k n (ls @ [hidden_text hidden]))" for k n
    using scan_section [of k n _ "''Hidden''" n] scan_hidden_line [OF sec, of "''Hidden''" n hidden] by simp
  moreover note scan_hidden_line [OF sec, where hidden = hidden] append_line_unlines [OF o(1)] clean_lines(1) [of hidden]
  ultimately have "switch_inv hidden need exe src t1 (ls @ [hidden_text hidden])"
    using assms(2,3) o(2) by (auto simp: switch_inv_def split: option.splits)
  then show ?thesis using o(2) assms(3) by auto
qed (use assms in \<open>auto simp: put_hidden_def\<close>)

lemma put_extras_inv:
  assumes "put_extras capacity need exe t = Some t1" and "switch_inv hidden need exe src t ls" and "tg_section t" and "clean exe"
  shows "\<exists>ms. switch_inv hidden need exe src t1 ms \<and> tg_extras_added t1 \<and> tg_section t1 \<and> tg_changed t1 = tg_changed t"
proof (cases "tg_extras_added t")
  case False
  then obtain out where o: "out = unlines (ls @ extra_lines need exe)" "t1 = t\<lparr>tg_out := out, tg_extras_added := True\<rparr>"
    using assms(1,2) add_extras_unlines by (auto simp: put_extras_def switch_inv_def split: option.splits prod.splits)
  have sec: "fst (scan k n ls)" for k n using assms(2,3) by (simp add: switch_inv_def)
  have "fst (scan k n (ls @ extra_lines need exe))" for k n
    using scan_section [of k n _ "''Hidden''" n] scan_extra_lines [OF sec, of "''Hidden''" n need exe] by simp
  moreover note scan_extra_lines [OF sec, where need = need and exe = exe] clean_lines(2) [OF assms(4), where need = need]
  ultimately have "switch_inv hidden need exe src t1 (ls @ extra_lines need exe)"
    using assms(2,3) o False by (auto simp: switch_inv_def split: option.splits)
  then show ?thesis using o(2) assms(3) by auto
qed (use assms in \<open>auto simp: put_extras_def\<close>)

text \<open>The source never gives a value to a key the extras provide.\<close>

definition lacks :: "bool \<times> bool \<times> bool \<Rightarrow> string \<Rightarrow> string list \<Rightarrow> bool" where
  "lacks need exe src \<longleftrightarrow> (\<forall>k n. extra_value need exe k \<noteq> None \<longrightarrow> snd (scan k n src) = None)"

lemma takeWhile_Cons_hd: "takeWhile P l = x # xs \<Longrightarrow> hd l = x"
  by (cases l) (auto split: if_splits)

lemma line_key_eq:
  assumes "CHR ''='' \<notin> set k" and "k \<noteq> []" and "hd k \<noteq> CHR ''[''"
  shows "line_key l = Some k \<longleftrightarrow> length l > length k \<and> take (length k) l = k \<and> l ! length k = CHR ''=''"
proof -
  have "hd l \<noteq> CHR ''[''" if "takeWhile (\<lambda>c. c \<noteq> CHR ''='') l = k"
    using assms(2,3) that takeWhile_Cons_hd [of "\<lambda>c. c \<noteq> CHR ''=''" l] by (metis list.collapse)
  then show ?thesis unfolding prefix_is_key [OF assms(1)] line_key_def by auto
qed

lemma hidden_line_key: "(length l \<ge> 7 \<and> take 7 l = ''Hidden='') = (line_key l = Some ''Hidden'')"
proof (cases "6 < length l")
  case True
  then have "take 7 l = take 6 l @ [l ! 6]" using take_Suc_conv_app_nth [of 6 l] by simp
  moreover have "''Hidden='' = ''Hidden'' @ [CHR ''='']" by simp
  ultimately have "take 7 l = ''Hidden='' \<longleftrightarrow> take 6 l = ''Hidden'' \<and> l ! 6 = CHR ''=''" by (simp only: append1_eq_conv)
  then show ?thesis using True line_key_eq [of "''Hidden''" l] by (simp add: eval_nat_numeral)
next
  case False
  then show ?thesis using line_key_eq [of "''Hidden''" l] by simp
qed

lemma scan_heading:
  assumes "length l \<ge> 2" and "hd l = CHR ''[''"
  shows "scan k n (ls @ [l]) = (l = entry_heading, snd (scan k n ls))"
  using assms by (simp add: scan_snoc key_step_def split: prod.splits)

lemma scan_plain:
  assumes "\<not> (length l \<ge> 2 \<and> hd l = CHR ''['')"
  shows "fst (scan k n (ls @ [l])) = fst (scan k n ls)"
    and "CHR ''='' \<notin> set k \<Longrightarrow> snd (scan k n (ls @ [l])) =
      (if fst (scan k n ls) \<and> line_key l = Some k then Some (strncpy_buf n (drop (Suc (length k)) l)) else snd (scan k n ls))"
proof -
  show "fst (scan k n (ls @ [l])) = fst (scan k n ls)"
    using assms by (cases "scan k n ls") (auto simp: scan_snoc key_step_def)
  assume "CHR ''='' \<notin> set k"
  from key_step_line [OF this, of n l "fst (scan k n ls)" "snd (scan k n ls)"]
  show "snd (scan k n (ls @ [l])) =
      (if fst (scan k n ls) \<and> line_key l = Some k then Some (strncpy_buf n (drop (Suc (length k)) l)) else snd (scan k n ls))"
    by (simp add: scan_snoc)
qed

lemma heading_inv:
  assumes "toggle_heading capacity hidden need exe l t = Some t1" and "switch_inv hidden need exe src t ls"
    and "length l \<ge> 2" and "hd l = CHR ''[''" and "clean exe" and "clean l"
  shows "\<exists>ms. switch_inv hidden need exe (src @ [l]) (t1\<lparr>tg_out := tg_out t1 @ l @ [CHR 0x0A]\<rparr>) ms"
proof -
  have "l \<noteq> []" using assms(3) by auto
  then obtain t2 where t1: "t1 = t2\<lparr>tg_section := (l = entry_heading), tg_has_section := (tg_has_section t2 \<or> l = entry_heading)\<rparr>"
    and "\<exists>ms. switch_inv hidden need exe src t2 ms \<and> (tg_has_section t2 \<longrightarrow> tg_changed t2 \<and> tg_extras_added t2)"
  proof (cases "tg_section t")
    case True
    then obtain ta tb where p: "put_hidden capacity hidden t = Some ta" "put_extras capacity need exe ta = Some tb"
      "t1 = tb\<lparr>tg_section := (l = entry_heading), tg_has_section := (tg_has_section tb \<or> l = entry_heading)\<rparr>"
      using assms(1,4) \<open>l \<noteq> []\<close> by (auto simp: toggle_heading_def split: option.splits)
    from put_hidden_inv [OF p(1) assms(2) True] obtain ms where "switch_inv hidden need exe src ta ms" "tg_changed ta" "tg_section ta" by blast
    with put_extras_inv [OF p(2) this(1,3) assms(5)] that [OF p(3)] show thesis by auto
  next
    case False
    then show thesis using that [of t] assms(1,2,4) \<open>l \<noteq> []\<close> by (auto simp: toggle_heading_def switch_inv_def)
  qed
  then obtain ms where "switch_inv hidden need exe src t2 ms" "tg_has_section t2 \<longrightarrow> tg_changed t2 \<and> tg_extras_added t2" by blast
  then have "switch_inv hidden need exe (src @ [l]) (t1\<lparr>tg_out := tg_out t1 @ l @ [CHR 0x0A]\<rparr>) (ms @ [l])"
    using assms(6) scan_heading [OF assms(3,4)] unfolding t1 switch_inv_def by (auto split: option.splits)
  then show ?thesis by blast
qed

lemma plain_inv:
  assumes "switch_inv hidden need exe src t ls" and "\<not> (length l \<ge> 2 \<and> hd l = CHR ''['')"
    and "\<not> (tg_section t \<and> line_key l = Some ''Hidden'')" and "clean l" and "lacks need exe (src @ [l])"
  shows "switch_inv hidden need exe (src @ [l]) (t\<lparr>tg_out := tg_out t @ l @ [CHR 0x0A]\<rparr>) (ls @ [l])"
proof -
  have "fst (scan k n ls) = tg_section t" "fst (scan k n src) = tg_section t" for k n using assms(1) by (simp_all add: switch_inv_def)
  note s = scan_plain [OF assms(2)] this
  have h: "snd (scan ''Hidden'' n (ls @ [l])) = snd (scan ''Hidden'' n ls)" for n using s(2) [of "''Hidden''" n ls] s(3) assms(3) by auto
  have x: "extra_value need exe k = Some v \<Longrightarrow> CHR ''='' \<notin> set k \<Longrightarrow> tg_section t \<Longrightarrow> line_key l \<noteq> Some k" for k v
    using assms(5) s(2) [of k 0 src] s(4) unfolding lacks_def by (metis option.distinct(1))
  show ?thesis
    using assms(1,4) unfolding switch_inv_def by (auto simp: s h x split: option.splits)
qed

lemma hidden_source_inv:
  assumes "switch_inv hidden need exe src t ls" and "line_key l = Some ''Hidden''"
  shows "switch_inv hidden need exe (src @ [l]) t ls"
proof -
  have p: "\<not> (length l \<ge> 2 \<and> hd l = CHR ''['')" using assms(2) by (auto simp: line_key_def)
  have "snd (scan k n (src @ [l])) = snd (scan k n src)" if "CHR ''='' \<notin> set k" "k \<noteq> ''Hidden''" for k n
    using scan_plain(2) [OF p that(1)] assms(2) that(2) by simp
  then show ?thesis using assms(1) scan_plain(1) [OF p] unfolding switch_inv_def by (auto split: option.splits)
qed

lemma append_text_line:
  "append_text capacity out l = Some o1 \<Longrightarrow> append_text capacity o1 [CHR 0x0A] = Some o2 \<Longrightarrow> o2 = out @ l @ [CHR 0x0A]"
  by (auto simp: append_text_def split: if_splits)

lemma toggle_line_inv:
  assumes step: "toggle_line capacity hidden need exe l t = Some t2" and inv: "switch_inv hidden need exe src t ls"
    and l: "l \<noteq> ''[''" "clean l" and exe: "clean exe" and lacks: "lacks need exe (src @ [l])"
  shows "\<exists>ms. switch_inv hidden need exe (src @ [l]) t2 ms"
proof (cases "l \<noteq> [] \<and> hd l = CHR ''[''")
  case True
  then have two: "length l \<ge> 2" "hd l = CHR ''[''" using l(1) by (cases l; cases "tl l"; auto)+
  from step obtain t1 where h: "toggle_heading capacity hidden need exe l t = Some t1" by (auto simp: toggle_line_def split: option.splits)
  have "line_key l \<noteq> Some ''Hidden''" using two by (simp add: line_key_def)
  then have "t2 = t1\<lparr>tg_out := tg_out t1 @ l @ [CHR 0x0A]\<rparr>"
    using step h hidden_line_key [of l] by (auto simp: toggle_line_def split: if_splits option.splits dest: append_text_line)
  then show ?thesis using heading_inv [OF h inv two exe l(2)] by simp
next
  case False
  then have h: "toggle_heading capacity hidden need exe l t = Some t" and p: "\<not> (length l \<ge> 2 \<and> hd l = CHR ''['')"
    by (auto simp: toggle_heading_def)
  show ?thesis
  proof (cases "tg_section t \<and> line_key l = Some ''Hidden''")
    case True
    then have "put_hidden capacity hidden t = Some t2" using step h hidden_line_key [of l] by (auto simp: toggle_line_def split: if_splits)
    from put_hidden_inv [OF this inv] True show ?thesis using hidden_source_inv by blast
  next
    case False
    then have "t2 = t\<lparr>tg_out := tg_out t @ l @ [CHR 0x0A]\<rparr>"
      using step h hidden_line_key [of l] by (auto simp: toggle_line_def split: if_splits option.splits dest: append_text_line)
    then show ?thesis using plain_inv [OF inv p False l(2) lacks] by blast
  qed
qed

lemma scan_keeps_value: "snd (scan k n (xs @ ys)) = None \<Longrightarrow> snd (scan k n xs) = None"
proof (induction ys rule: rev_induct)
  case (snoc y ys)
  then have "snd (key_step k n y (scan k n (xs @ ys))) = None" by (simp add: scan_snoc flip: append_assoc)
  then show ?case using snoc.IH by (cases "scan k n (xs @ ys)") (auto simp: key_step_def split: if_splits)
qed simp

lemma lacks_prefix: "lacks need exe (xs @ ys) \<Longrightarrow> lacks need exe xs"
  unfolding lacks_def using scan_keeps_value by blast

lemma toggle_lines_inv:
  assumes "toggle_lines capacity hidden need exe ls t = Some t1" and "switch_inv hidden need exe src t os"
    and "\<forall>l\<in>set ls. l \<noteq> ''['' \<and> clean l" and "clean exe" and "lacks need exe (src @ ls)"
  shows "\<exists>ms. switch_inv hidden need exe (src @ ls) t1 ms"
  using assms
proof (induction ls arbitrary: t src os)
  case (Cons l ls)
  then obtain t0 where t0: "toggle_line capacity hidden need exe l t = Some t0" "toggle_lines capacity hidden need exe ls t0 = Some t1"
    by (auto split: option.splits)
  have "lacks need exe ((src @ [l]) @ ls)" using Cons.prems(5) by simp
  note k = this lacks_prefix [OF this]
  obtain ms where "switch_inv hidden need exe (src @ [l]) t0 ms"
    using toggle_line_inv [OF t0(1) Cons.prems(2) _ _ Cons.prems(4) k(2)] Cons.prems(3) by auto
  then show ?case using Cons.IH [OF t0(2) _ _ Cons.prems(4) k(1)] Cons.prems(3) by auto
qed auto

lemma scan_width: "(snd (scan k n ls) = None) = (snd (scan k m ls) = None)"
proof (induction ls rule: rev_induct)
  case (snoc l ls)
  have "fst (scan k n ls) = fst (scan k m ls)" by (rule scan_section)
  then show ?case using snoc by (cases "scan k n ls"; cases "scan k m ls") (auto simp: scan_snoc key_step_def)
qed simp

text \<open>What \<open>toggle_hidden\<close> needs to add to an entry.\<close>

definition needs :: "string \<Rightarrow> bool \<Rightarrow> bool \<times> bool \<times> bool" where
  "needs source hidden =
     (\<not> hidden \<and> key_value source ''Type'' 32 = None, \<not> hidden \<and> key_value source ''Name'' 256 = None,
      \<not> hidden \<and> key_value source ''Exec'' PATH_MAX = None)"

lemma needs_lacks: "lacks (needs source hidden) exe (pieces (CHR 0x0A) source)"
proof -
  have w: "key_value source k n = None \<Longrightarrow> snd (scan k m (pieces (CHR 0x0A) source)) = None" for k n m
    using scan_width [of k n "pieces (CHR 0x0A) source" m] by (simp add: key_value_def scan_def)
  have "\<exists>n. key_value source k n = None" if "extra_value (needs source hidden) exe k \<noteq> None" for k
    using that by (auto simp: extra_value_def needs_def split: if_splits)
  then show ?thesis unfolding lacks_def using w by blast
qed

text \<open>The keys of a switched entry.\<close>

definition switched_keys :: "string \<Rightarrow> bool \<Rightarrow> string \<Rightarrow> string \<Rightarrow> bool" where
  "switched_keys source hidden exe out \<longleftrightarrow>
     cstr_of (str_bytes out) = out \<and> key_value out ''Hidden'' 16 = Some (bool_text hidden) \<and>
     (\<forall>k n. CHR ''='' \<notin> set k \<and> k \<noteq> ''Hidden'' \<longrightarrow>
        key_value out k n = (case extra_value (needs source hidden) exe k of
                               Some v \<Rightarrow> Some (strncpy_buf n v) | None \<Rightarrow> key_value source k n))"

lemma switch_inv_keys:
  assumes "switch_inv hidden (needs source hidden) exe (pieces (CHR 0x0A) source) t ls" and "tg_changed t" and "tg_extras_added t"
  shows "switched_keys source hidden exe (tg_out t)"
proof -
  have c: "\<forall>l\<in>set ls. clean l" "tg_out t = unlines ls" using assms(1) by (simp_all add: switch_inv_def)
  have s: "key_value source k n = snd (scan k n (pieces (CHR 0x0A) source))" for k n by (simp add: key_value_def scan_def)
  have "strncpy_buf 16 (bool_text hidden) = bool_text hidden" by (simp add: bool_text_def)
  then show ?thesis
    using assms unfolding switched_keys_def c(2) key_value_unlines [OF c(1)] cstr_of_unlines [OF c(1)] s switch_inv_def
    by (auto split: option.splits)
qed

lemma toggle_hidden_keys:
  assumes tog: "toggle_hidden V source hidden capacity = Some out"
    and src: "''['' \<notin> set (pieces (CHR 0x0A) source)" "CHR 0x00 \<notin> set source" and exe: "clean (av_exe V)"
  shows "\<exists>exe. switched_keys source hidden exe out \<and> (snd (snd (needs source hidden)) \<longrightarrow> exe = strncpy_buf PATH_MAX (av_exe V))"
proof -
  let ?need = "needs source hidden" and ?src = "pieces (CHR 0x0A) source"
  define exe where "exe = (if snd (snd ?need) then strncpy_buf PATH_MAX (av_exe V) else [])"
  let ?t0 = "\<lparr>tg_out = [], tg_section = False, tg_has_section = False, tg_changed = False, tg_extras_added = False\<rparr>"
  have cl: "clean exe" using assms(4) set_strncpy_buf [of PATH_MAX "av_exe V"] by (auto simp: exe_def clean_def)
  have eq: "toggle_hidden V source hidden capacity =
      (if snd (snd ?need) \<and> take 1 exe \<noteq> ''/'' then None
       else case toggle_lines capacity hidden ?need exe ?src ?t0 of
              None \<Rightarrow> None
            | Some t \<Rightarrow>
                if \<not> tg_has_section t then None
                else (case put_hidden capacity hidden t of
                        None \<Rightarrow> None
                      | Some t1 \<Rightarrow> (case put_extras capacity ?need exe t1 of None \<Rightarrow> None | Some t2 \<Rightarrow> Some (tg_out t2))))"
    unfolding toggle_hidden_def needs_def Let_def exe_def ..
  from tog obtain t t1 t2 where t: "toggle_lines capacity hidden ?need exe ?src ?t0 = Some t"
    and r: "tg_has_section t" "put_hidden capacity hidden t = Some t1" "put_extras capacity ?need exe t1 = Some t2" "out = tg_out t2"
    unfolding eq by (auto split: if_splits option.splits)
  have "switch_inv hidden ?need exe [] ?t0 []" by (simp add: switch_inv_def split: option.splits)
  moreover have "\<forall>l\<in>set ?src. l \<noteq> ''['' \<and> clean l" using src pieces_chars by (fastforce simp: clean_def)
  ultimately obtain ms where m: "switch_inv hidden ?need exe ?src t ms"
    using toggle_lines_inv [OF t, of "[]" "[]"] cl needs_lacks [of source hidden exe] by auto
  have "switched_keys source hidden exe out"
  proof (cases "tg_section t")
    case True
    from put_hidden_inv [OF r(2) m True] obtain ns where n: "switch_inv hidden ?need exe ?src t1 ns" "tg_changed t1" "tg_section t1" by blast
    from put_extras_inv [OF r(3) n(1,3) cl] n(2) show ?thesis using switch_inv_keys r(4) by blast
  next
    case False
    then have "tg_changed t" "tg_extras_added t" using m r(1) by (auto simp: switch_inv_def)
    then show ?thesis using r switch_inv_keys [OF m] by (simp add: put_hidden_def put_extras_def)
  qed
  then show ?thesis by (auto simp: exe_def)
qed

section \<open>Writing and reading back\<close>

lemma ensure_user_dir_frame:
  assumes "ensure_user_dir V path fs = (rc, fs1)"
  shows "fs1 path = fs path" and "fs q \<noteq> None \<Longrightarrow> fs1 q = fs q"
proof -
  have "fs1 = fs \<or> (\<exists>k rc. strrchr (CHR ''/'') path = Some k \<and> file_ensure_directory (av_kernel V) (take k path) fs = (rc, fs1))"
    using assms by (auto simp: ensure_user_dir_def Let_def split: if_splits option.splits prod.splits)
  then consider "fs1 = fs" | k rc where "k < length path" "file_ensure_directory (av_kernel V) (take k path) fs = (rc, fs1)"
    using strrchr_SomeD by blast
  then have "fs1 path = fs path \<and> (fs q \<noteq> None \<longrightarrow> fs1 q = fs q)"
  proof cases
    case 2
    then show ?thesis using ensure_directory_longer [OF 2(2), of path] file_ensure_directory_frame [OF 2(2), of q] by auto
  qed simp
  then show "fs1 path = fs path" and "fs q \<noteq> None \<Longrightarrow> fs1 q = fs q" by auto
qed

lemma write_entry_cases:
  "(\<exists>fs1 rc. ensure_user_dir V path fs = (rc, fs1) \<and> write_entry V path content fs = (-1, [fs, fs1])) \<or>
   (\<exists>fs1 r states. ensure_user_dir V path fs = (0, fs1) \<and> replace_file (av_kernel V) (av_tmp V) path content fs1 = (r, states) \<and>
      write_entry V path content fs = (r, fs # states))"
  by (auto simp: write_entry_def split: prod.splits)

interpretation entry: atomic_writer "write_entry V path content" path "temporary_of (av_tmp V) path" content
  for V path content
proof
  fix fs s :: fs and q
  obtain rc fs1 where d: "ensure_user_dir V path fs = (rc, fs1)" by fastforce
  note f = ensure_user_dir_frame [OF d]
  consider (no) "write_entry V path content fs = (-1, [fs, fs1])"
    | (go) r states where "replace_file (av_kernel V) (av_tmp V) path content fs1 = (r, states)" "write_entry V path content fs = (r, fs # states)"
    using write_entry_cases [of V path fs content] d by auto
  note c = this
  show "snd (write_entry V path content fs) \<noteq> []" by (cases rule: c) simp_all
  { assume s: "s \<in> set (snd (write_entry V path content fs))"
    then show "s path = fs path \<or> s path = Some (Regular (str_bytes content))"
      using f replacing.old_or_new [of s "av_kernel V" "av_tmp V" path content fs1] by (cases rule: c) auto
    assume "q \<noteq> path" "q \<noteq> temporary_of (av_tmp V) path" "fs q \<noteq> None"
    with s show "s q = fs q"
      using f(2) [of q] replacing.others [of s "av_kernel V" "av_tmp V" path content fs1 q] by (cases rule: c) auto }
  show "fst (write_entry V path content fs) = 0 \<Longrightarrow> last (snd (write_entry V path content fs)) path = Some (Regular (str_bytes content))"
    using replacing.success [of "av_kernel V" "av_tmp V" path content fs1] replacing.nonempty [of "av_kernel V" "av_tmp V" path content fs1]
    by (cases rule: c) auto
  show "fst (write_entry V path content fs) \<noteq> 0 \<Longrightarrow> last (snd (write_entry V path content fs)) path = fs path"
    using f(1) replacing.failure [of "av_kernel V" "av_tmp V" path content fs1] replacing.nonempty [of "av_kernel V" "av_tmp V" path content fs1]
    by (cases rule: c) auto
qed

text \<open>The calls that read entries succeed, and the user's entry belongs to the user.\<close>

definition reads_well :: "autostart_env \<Rightarrow> bool" where
  "reads_well V \<longleftrightarrow> (\<forall>c p. k_fault (av_kernel V) c p = None) \<and> k_alloc (av_kernel V) ''entry'' \<and>
     (\<forall>p. user_entry_path V PATH_MAX = Some p \<longrightarrow> av_owned V p) \<and> 0 \<le> fst (ipc_server_get_pid (av_probe V) (av_socket V))"

definition shown_state :: "autostart_env \<Rightarrow> fs \<Rightarrow> autostart_status option" where
  "shown_state V fs = (case show_status V fs of Inr (state, _) \<Rightarrow> Some state | Inl _ \<Rightarrow> None)"

definition generated :: "string \<Rightarrow> fs \<Rightarrow> bool" where
  "generated path fs = (case fs path of
     Some (Regular b) \<Rightarrow> key_value (cstr_of b) ''X-CDM-Generated'' 16 = Some ''true'' | _ \<Rightarrow> False)"

lemma read_back:
  assumes "reads_well V" and "user_entry_path V PATH_MAX = Some path" and "fs path = Some (Regular b)" and "length b \<le> MAX_ENTRY_SIZE"
  shows "read_desktop_entry V path True fs = EntryText (cstr_of b)"
  using assms by (simp add: read_desktop_entry_def reads_well_def)

lemma shown_user_entry:
  assumes "reads_well V" and "user_entry_path V PATH_MAX = Some path" and "fs path = Some (Regular b)" and "length b \<le> MAX_ENTRY_SIZE"
  shows "shown_state V fs = Some (if entry_enabled V (cstr_of b) then AutoEnabled else AutoDisabled)"
  using read_back [of V path fs b] assms by (auto simp: shown_state_def show_status_def reads_well_def split: prod.splits)

lemma shown_system_entry:
  assumes "reads_well V" and "user_entry_path V PATH_MAX = Some path" and "fs path = None" and "system_entry_enabled V fs = 1"
  shows "shown_state V fs = Some AutoEnabled"
proof -
  obtain found spath where s: "system_entry_path V PATH_MAX fs = (found, spath)" by fastforce
  then have "found = 0" "\<exists>c. read_desktop_entry V spath False fs = EntryText c \<and> entry_enabled V c"
    using assms(4) by (auto simp: system_entry_enabled_def split: if_splits entry_read.splits)
  moreover have "read_desktop_entry V path True fs = EntryAbsent"
    using assms(1,3) by (simp add: read_desktop_entry_def reads_well_def)
  ultimately show ?thesis
    using assms(1,2) s by (auto simp: shown_state_def show_status_def reads_well_def split: prod.splits)
qed

definition disabled_lines :: "string list" where
  "disabled_lines = [entry_heading, ''Type=Application'', ''Name=Core Download Manager Daemon'', ''Hidden=true'', ''X-CDM-Generated=true'']"

definition enabled_lines :: "string \<Rightarrow> string list" where
  "enabled_lines exe = [entry_heading, ''Type=Application'', ''Name=Core Download Manager Daemon'', ''Exec='' @ exe @ '' daemon'',
     ''TryExec='' @ exe, ''Terminal=false'', ''NoDisplay=true'', ''Hidden=false'', ''X-CDM-Generated=true'']"

lemma entry_lines: "disabled_entry = unlines disabled_lines" "enabled_entry exe = unlines (enabled_lines exe)"
  by (simp_all add: disabled_entry_def disabled_lines_def enabled_entry_def enabled_lines_def entry_heading_def)

lemma entry_lines_clean: "\<forall>l\<in>set disabled_lines. clean l" "clean exe \<Longrightarrow> \<forall>l\<in>set (enabled_lines exe). clean l"
  by (simp_all add: disabled_lines_def enabled_lines_def clean_def entry_heading_def)

lemma disabled_entry_off: "\<not> entry_enabled V disabled_entry"
proof -
  have "snd (scan ''Exec'' PATH_MAX disabled_lines) = None" by (simp add: scan_def disabled_lines_def key_step_def entry_heading_def)
  then show ?thesis unfolding entry_enabled_def entry_lines(1) key_value_unlines [OF entry_lines_clean(1)] by simp
qed

lemma enabled_entry_on:
  assumes "clean exe" and "take 1 exe = ''/''" and "av_exec_ok V exe" and "length exe < PATH_MAX"
  shows "entry_enabled V (enabled_entry exe)"
proof -
  have s: "snd (scan ''Type'' 32 (enabled_lines exe)) = Some ''Application''"
    "snd (scan ''Exec'' PATH_MAX (enabled_lines exe)) = Some (strncpy_buf PATH_MAX (exe @ '' daemon''))"
    "snd (scan ''Hidden'' 16 (enabled_lines exe)) = Some ''false''"
    "snd (scan ''TryExec'' PATH_MAX (enabled_lines exe)) = Some (strncpy_buf PATH_MAX exe)"
    by (simp_all add: scan_def enabled_lines_def key_step_def entry_heading_def)
  have "exe \<noteq> []" "CHR ''/'' \<in> set exe" using assms(2) by (cases exe; simp)+
  moreover have "strncpy_buf PATH_MAX (exe @ '' daemon'') \<noteq> []" using assms(4) by (simp add: strncpy_buf_def PATH_MAX_def)
  ultimately show ?thesis
    using assms(3,4) unfolding entry_enabled_def entry_lines(2) key_value_unlines [OF entry_lines_clean(2) [OF assms(1)]] s
    by (simp add: executable_def)
qed

lemma written_entry_shown:
  assumes "put_entry V path content action fs = (Some a, shown, states)" and "reads_well V" and "user_entry_path V PATH_MAX = Some path"
    and "\<forall>b. last states path = Some (Regular b) \<longrightarrow> length b \<le> MAX_ENTRY_SIZE"
  shows "shown_state V (last states) = Some (if entry_enabled V (cstr_of (str_bytes content)) then AutoEnabled else AutoDisabled)"
    and "s \<in> set states \<Longrightarrow> s path = fs path \<or> s path = last states path"
proof -
  have w: "write_entry V path content fs = (0, states)"
    using assms(1) by (auto simp: put_entry_def split: prod.splits if_splits)
  then have l: "last states path = Some (Regular (str_bytes content))" using entry.success [of V path content fs] by simp
  show "shown_state V (last states) = Some (if entry_enabled V (cstr_of (str_bytes content)) then AutoEnabled else AutoDisabled)"
    by (rule shown_user_entry) (use assms(2-4) l in auto)
  show "s \<in> set states \<Longrightarrow> s path = fs path \<or> s path = last states path"
    using entry.old_or_new [of s V path content fs] w l by simp
qed

text \<open>Where a configuration directory has the entry.\<close>

definition entry_in :: "string \<Rightarrow> string" where
  "entry_in part = part @ ''/autostart/'' @ ENTRY_NAME"

lemma system_candidate_path: "system_candidate V fs part = Some q \<Longrightarrow> q = entry_in part"
  by (auto simp: entry_in_def system_candidate_def join_entry_path_def split: option.splits if_splits)

lemma system_candidate_cong:
  "fs' (entry_in part) = fs (entry_in part) \<Longrightarrow> system_candidate V fs' part = system_candidate V fs part"
  by (auto simp: entry_in_def system_candidate_def join_entry_path_def sys_access_def split: option.splits if_splits)

text \<open>Only the system-wide entries decide about the system-wide entry.\<close>

lemma system_entry_other:
  assumes "\<forall>part\<in>set (config_dirs V). entry_in part \<noteq> path" and "\<forall>q. q \<noteq> path \<longrightarrow> fs' q = fs q"
  shows "system_entry_enabled V fs' = system_entry_enabled V fs"
proof -
  have ne: "fs' (entry_in part) = fs (entry_in part)" if "part \<in> set (config_dirs V)" for part
    using assms that by blast
  have "system_candidate V fs' part = system_candidate V fs part" if "part \<in> set (config_dirs V)" for part
    by (rule system_candidate_cong) (rule ne [OF that])
  then have "set parts \<subseteq> set (config_dirs V) \<Longrightarrow> system_search V fs' n parts = system_search V fs n parts" for n parts
    by (induction parts) (simp_all split: option.splits)
  then have path: "system_entry_path V PATH_MAX fs' = system_entry_path V PATH_MAX fs" by (simp add: system_entry_path_def)
  have "set parts \<subseteq> set (config_dirs V) \<Longrightarrow> system_search V fs n parts = (0, q) \<Longrightarrow> fs' q = fs q" for n parts q
    by (induction parts) (auto simp: ne dest!: system_candidate_path split: option.splits if_splits)
  then have "system_entry_path V PATH_MAX fs = (0, q) \<Longrightarrow> fs' q = fs q" for q unfolding system_entry_path_def by blast
  then have "system_entry_path V PATH_MAX fs = (0, q) \<Longrightarrow> read_desktop_entry V q False fs' = read_desktop_entry V q False fs" for q
    by (simp add: read_desktop_entry_def split: option.splits)
  then show ?thesis unfolding system_entry_enabled_def path by (auto split: prod.splits)
qed

lemma fresh_enable_shown:
  assumes "fresh_enable V path had fs = (Some a, shown, states)" and "reads_well V" and "user_entry_path V PATH_MAX = Some path"
    and "\<forall>b. last states path = Some (Regular b) \<longrightarrow> length b \<le> MAX_ENTRY_SIZE"
    and "clean (av_exe V)" and "av_exec_ok V (strncpy_buf PATH_MAX (av_exe V))" and "fs path = None \<or> system_entry_enabled V fs \<noteq> 1"
  shows "shown_state V (last states) = Some AutoEnabled"
proof (cases "system_entry_enabled V fs = 1")
  case True
  then have "states = [fs]" using assms(1) by (auto simp: fresh_enable_def split: prod.splits if_splits)
  then show ?thesis using shown_system_entry [of V path fs] assms(2,3,7) True by simp
next
  case False
  let ?exe = "strncpy_buf PATH_MAX (av_exe V)"
  have p: "put_entry V path (enabled_entry ?exe) (if had then AUTOSTART_UPDATED else AUTOSTART_WROTE) fs = (Some a, shown, states)"
    and s: "take 1 ?exe = ''/''"
    using assms(1) False by (auto simp: fresh_enable_def Let_def split: if_splits prod.splits)
  have c: "clean ?exe" using assms(5) set_strncpy_buf [of PATH_MAX "av_exe V"] by (auto simp: clean_def)
  have "length ?exe < PATH_MAX" by (rule length_strncpy_buf) (simp add: PATH_MAX_def)
  from enabled_entry_on [OF c s assms(6) this]
  have "entry_enabled V (cstr_of (str_bytes (enabled_entry ?exe)))"
    unfolding entry_lines(2) cstr_of_unlines [OF entry_lines_clean(2) [OF c]] .
  then show ?thesis using written_entry_shown(1) [OF p assms(2-4)] by simp
qed

lemma cstr_of_no_NUL: "CHR 0x00 \<notin> set (cstr_of b)"
  by (auto simp: cstr_of_def dest: set_takeWhileD)

lemma set_enabled_off:
  assumes "set_enabled V False fs = (Some a, shown, states)" and "reads_well V" and "user_entry_path V PATH_MAX = Some path"
    and "\<forall>b. last states path = Some (Regular b) \<longrightarrow> length b \<le> MAX_ENTRY_SIZE" and "clean (av_exe V)"
    and "\<forall>b. fs path = Some (Regular b) \<longrightarrow> ''['' \<notin> set (pieces (CHR 0x0A) (cstr_of b))"
  shows "shown_state V (last states) = Some AutoDisabled"
proof (cases "read_desktop_entry V path True fs")
  case EntryAbsent
  then have "put_entry V path disabled_entry AUTOSTART_WROTE fs = (Some a, shown, states)" using assms(1,3) by (simp add: set_enabled_def)
  from written_entry_shown(1) [OF this assms(2-4)] show ?thesis
    using disabled_entry_off [of V] cstr_of_unlines [OF entry_lines_clean(1)] entry_lines(1) by simp
next
  case EntryUnreadable
  then show ?thesis using assms(1,3) by (simp add: set_enabled_def)
next
  case (EntryText current)
  then obtain b where b: "fs path = Some (Regular b)" "current = cstr_of b"
    by (auto simp: read_desktop_entry_def split: option.splits inode.splits if_splits)
  from EntryText obtain updated where u: "toggle_hidden V current True (MAX_ENTRY_SIZE + 128) = Some updated"
    "put_entry V path updated AUTOSTART_UPDATED fs = (Some a, shown, states)"
    using assms(1,3) by (auto simp: set_enabled_def split: option.splits)
  have "CHR 0x00 \<notin> set current" unfolding b(2) by (rule cstr_of_no_NUL)
  then obtain exe where "switched_keys current True exe updated" using toggle_hidden_keys [OF u(1)] b assms(5,6) by blast
  then have "cstr_of (str_bytes updated) = updated" "\<not> entry_enabled V updated"
    by (auto simp: switched_keys_def bool_text_def entry_enabled_def)
  then show ?thesis using written_entry_shown(1) [OF u(2) assms(2-4)] by simp
qed

lemma set_enabled_on:
  assumes "set_enabled V True fs = (Some a, shown, states)" and "reads_well V" and "user_entry_path V PATH_MAX = Some path"
    and "\<forall>b. last states path = Some (Regular b) \<longrightarrow> length b \<le> MAX_ENTRY_SIZE" and "clean (av_exe V)"
    and "av_exec_ok V (strncpy_buf PATH_MAX (av_exe V))" and "\<forall>part\<in>set (config_dirs V). entry_in part \<noteq> path"
    and "fs path = None \<or> generated path fs"
  shows "shown_state V (last states) = Some AutoEnabled"
proof (cases "fs path = None")
  case True
  then have "fresh_enable V path False fs = (Some a, shown, states)"
    using assms(1-3) by (simp add: set_enabled_def read_desktop_entry_def reads_well_def)
  from fresh_enable_shown [OF this assms(2-6)] True show ?thesis by simp
next
  case False
  then obtain b where b: "fs path = Some (Regular b)" "key_value (cstr_of b) ''X-CDM-Generated'' 16 = Some ''true''"
    using assms(8) by (auto simp: generated_def split: option.splits inode.splits)
  have "read_desktop_entry V path True fs = EntryText (cstr_of b)"
    using assms(1-3) b by (auto simp: set_enabled_def read_desktop_entry_def reads_well_def split: if_splits)
  note d = assms(1) [unfolded set_enabled_def assms(3) option.case this entry_read.case, simplified, unfolded b(2) Let_def, simplified]
  show ?thesis
  proof (cases "system_entry_enabled V fs = 1")
    case True
    then have "states = [fs, fs(path := None)]" using d assms(2) by (auto simp: reads_well_def sys_unlink_def)
    moreover have "system_entry_enabled V (fs(path := None)) = 1"
      using system_entry_other [OF assms(7), of "fs(path := None)" fs] True by simp
    ultimately show ?thesis using shown_system_entry [of V path "fs(path := None)"] assms(2,3) by simp
  next
    case False
    then have "fresh_enable V path True fs = (Some a, shown, states)" using d by (auto split: if_splits)
    from fresh_enable_shown [OF this assms(2-6)] False show ?thesis by simp
  qed
qed

text \<open>
  C26: Rewriting a desktop entry changes what it should and nothing else. When \<open>toggle_hidden\<close> succeeds, the
  \<open>Hidden\<close> key that a reader of the new text finds (the last one in the section) has the wanted value,
  every other key keeps its value, with every buffer size, and an entry that is switched on has the keys
  \<open>Type\<close>, \<open>Name\<close> and \<open>Exec\<close>. Headings, repeated \<open>Hidden\<close> lines, several sections and a missing newline at the
  end are all covered; the one shape excluded is a line that is only \<open>[\<close>, which \<open>toggle_hidden\<close> takes for
  a heading and \<open>key_value\<close> does not.
\<close>

theorem toggle_changes_only_hidden:
  assumes "toggle_hidden V source hidden capacity = Some out"
    and "''['' \<notin> set (pieces (CHR 0x0A) source)" and "CHR 0x00 \<notin> set source" and "clean (av_exe V)"
  shows "key_value out ''Hidden'' 16 = Some (if hidden then ''true'' else ''false'') \<and>
    (\<forall>k n. CHR ''='' \<notin> set k \<and> k \<noteq> ''Hidden'' \<and> (hidden \<or> key_value source k n \<noteq> None \<or> k \<notin> {''Type'', ''Name'', ''Exec''}) \<longrightarrow>
       key_value out k n = key_value source k n) \<and>
    (\<not> hidden \<longrightarrow> (\<forall>k \<in> {''Type'', ''Name'', ''Exec''}. \<forall>n. key_value out k n \<noteq> None))"
proof -
  obtain exe where s: "switched_keys source hidden exe out" using toggle_hidden_keys [OF assms] by blast
  have w: "key_value source k n = None \<longleftrightarrow> key_value source k m = None" for k n m
    using scan_width [of k n _ m] by (simp add: key_value_def scan_def)
  have no: "extra_value (needs source hidden) exe k = None" if "hidden \<or> key_value source k n \<noteq> None \<or> k \<notin> {''Type'', ''Name'', ''Exec''}" for k n
    using that w [of k n 32] w [of k n 256] w [of k n PATH_MAX] by (auto simp: extra_value_def needs_def)
  have yes: "extra_value (needs source hidden) exe k \<noteq> None \<or> key_value source k n \<noteq> None" if "\<not> hidden" "k \<in> {''Type'', ''Name'', ''Exec''}" for k n
    using that w [of k n 32] w [of k n 256] w [of k n PATH_MAX] by (auto simp: extra_value_def needs_def)
  have "key_value out k n \<noteq> None" if "\<not> hidden" "k \<in> {''Type'', ''Name'', ''Exec''}" for k n
  proof -
    have k: "CHR ''='' \<notin> set k" "k \<noteq> ''Hidden''" using that(2) by auto
    then show ?thesis using s yes [OF that, of n] unfolding switched_keys_def by (auto split: option.splits)
  qed
  moreover have "key_value out k n = key_value source k n"
    if "CHR ''='' \<notin> set k" "k \<noteq> ''Hidden''" "hidden \<or> key_value source k n \<noteq> None \<or> k \<notin> {''Type'', ''Name'', ''Exec''}" for k n
    using s that(1,2) no [OF that(3)] unfolding switched_keys_def by simp
  moreover have "key_value out ''Hidden'' 16 = Some (if hidden then ''true'' else ''false'')"
    using s unfolding switched_keys_def bool_text_def by blast
  ultimately show ?thesis by blast
qed

lemma set_enabled_atomic:
  assumes "set_enabled V enabled fs = (Some a, shown, states)" and "reads_well V" and "user_entry_path V PATH_MAX = Some path"
    and "\<forall>b. last states path = Some (Regular b) \<longrightarrow> length b \<le> MAX_ENTRY_SIZE" and "s \<in> set states"
  shows "s path = fs path \<or> s path = last states path"
proof -
  have fresh: "states = [fs] \<or> (\<exists>c act. put_entry V path c act fs = (Some a, shown, states))"
    if "fresh_enable V path had fs = (Some a, shown, states)" for had
    using that by (auto simp: fresh_enable_def Let_def split: if_splits prod.splits)
  have "states = [fs] \<or> states = [fs, sys_unlink (av_kernel V) path fs] \<or> (\<exists>c act. put_entry V path c act fs = (Some a, shown, states))"
    using assms(1,3) fresh by (auto simp: set_enabled_def Let_def split: if_splits entry_read.splits option.splits)
  then show ?thesis using assms(5) written_entry_shown(2) [OF _ assms(2-4)] by (auto; blast)
qed


definition demo_autostart :: autostart_env where
  "demo_autostart = \<lparr>av_kernel = good_kernel\<lparr>k_getenv := (\<lambda>x. if x = ''XDG_CONFIG_HOME'' then Some ''/c'' else None)\<rparr>,
     av_exe = ''/b/cdm'', av_exec_ok = (\<lambda>_. True), av_owned = (\<lambda>_. True), av_dir = (\<lambda>_. True),
     av_tmp = \<lparr>te_suffix = ''abcdef'', te_mkstemp = True, te_prepare = True, te_written = None, te_sync = True, te_close = True, te_rename = True\<rparr>,
     av_probe = \<lparr>ce_socket = True, ce_connect = None, ce_peer = Some (7, True, True)\<rparr>, av_socket = ''/s''\<rparr>"

definition demo_source :: string where
  "demo_source = unlines [''[Desktop Entry]'', ''Type=Application'', ''Hidden=true'', ''[X]'', ''Hidden=true'']"

theorem toggle_changes_only_hidden_witness:
  "\<exists>out. toggle_hidden demo_autostart demo_source False 400 = Some out \<and> key_value out ''Hidden'' 16 = Some ''false'' \<and>
     key_value out ''Type'' 32 = key_value demo_source ''Type'' 32 \<and> key_value out ''Exec'' 9 \<noteq> None"
proof -
  have "toggle_hidden demo_autostart demo_source False 400 \<noteq> None" by code_simp
  then obtain out where out: "toggle_hidden demo_autostart demo_source False 400 = Some out" by blast
  have s: "''['' \<notin> set (pieces (CHR 0x0A) demo_source)" "CHR 0x00 \<notin> set demo_source" "clean (av_exe demo_autostart)"
    "key_value demo_source ''Type'' 32 \<noteq> None" by code_simp+
  from toggle_changes_only_hidden [OF out s(1-3)] s(4) have "key_value out ''Hidden'' 16 = Some ''false''"
    "key_value out ''Type'' 32 = key_value demo_source ''Type'' 32" "key_value out ''Exec'' 9 \<noteq> None" by simp_all
  with out show ?thesis by blast
qed


end
