(* ===== verification/Browser_Popup.thy ===== *)
theory Browser_Popup
  imports Cli Ipc_Client Path_Utils
begin

text \<open>
  \<open>src/gui/browser_popup.c\<close>: the window that asks the user about a download the browser offered and then
  shows its progress. Drawing is left out; what is modelled is the state of the window, what each button
  does, the progress connection with its reassembly of frames, its retries, and the run of the window as
  a sequence of frames. What the user types and presses in a frame, what \<open>recv\<close> returns, the clock and
  the connections are inputs. A speed is kept as the bytes and milliseconds it is the quotient of.
\<close>

definition IPC_BROWSER_FILENAME_MAX :: nat where
  "IPC_BROWSER_FILENAME_MAX = 512"

record popup_env =
  pv_kernel :: kernel
  pv_offer_size :: nat
  pv_offer :: "u8 list \<Rightarrow> offer"
  pv_progress_size :: nat
  pv_progress :: "u8 list \<Rightarrow> browser_progress"
  pv_default_dir :: string
  pv_backend :: bool
  pv_open :: "string \<Rightarrow> bool"     \<comment> \<open>\<open>platform_open_path(p) == 0\<close>\<close>

text \<open>The descriptor that gets the marker \<open>R\<close>, if there is one.\<close>

definition report_popup_ready :: "string option \<Rightarrow> int option" where
  "report_popup_ready ready_fd =
     (case ready_fd of
        None \<Rightarrow> None
      | Some v \<Rightarrow>
          (case strtol v of
             None \<Rightarrow> None
           | Some (fd, rest) \<Rightarrow> if rest = [] \<and> 3 \<le> fd \<and> fd \<le> 1024 then Some fd else None))"

record popup =
  pu_offer :: offer
  pu_download_id :: u32
  pu_filename :: string
  pu_folder :: string
  pu_full_path :: string
  pu_error :: string
  pu_progress :: browser_progress
  pu_sock :: "sock option"
  pu_frame :: "u8 list"
  pu_last_tick :: u32
  pu_next_retry :: u32
  pu_last_bytes :: u64
  pu_speed :: "(u64 \<times> u32) option"
  pu_close :: bool

definition filename_valid :: "string \<Rightarrow> bool" where
  "filename_valid filename \<longleftrightarrow>
     filename \<noteq> [] \<and> filename \<noteq> ''.'' \<and> filename \<noteq> ''..'' \<and> CHR ''/'' \<notin> set filename \<and> CHR 0x5C \<notin> set filename"

section \<open>Confirmation\<close>

text \<open>At most one button is pressed in a frame; the folder dialog returns a folder or nothing.\<close>

datatype confirm_click = NoClick | ClickBrowse "string option" | ClickCancel | ClickDownload

text \<open>
  \<open>ipc_browser_confirm\<close> with its out-parameter: the reply is read into it, also when it is cut short, so
  that a short reply leaves its bytes there (the parameter is 0 before).
\<close>

definition confirm_written :: "u32 \<Rightarrow> string \<Rightarrow> sock \<Rightarrow> bool" where
  "confirm_written offer_id dest s \<longleftrightarrow>
     offer_id \<noteq> 0 \<and> dest \<noteq> [] \<and> length dest < IPC_MAX_PATH_LEN \<and>
     fst (browser_write_request MSG_BROWSER_CONFIRM (put_u32 offer_id @ put_u32 (of_nat (length dest)) @ str_bytes dest) s)"

definition popup_confirm :: "u32 \<Rightarrow> string \<Rightarrow> sock \<Rightarrow> bool \<times> u32 \<times> sock" where
  "popup_confirm offer_id dest s =
     (case ipc_browser_confirm offer_id dest s of
        (Some i, s1) \<Rightarrow> (True, i, s1)
      | (None, s1) \<Rightarrow> (False, if confirm_written offer_id dest s then of_nat (le_dec (take 4 (so_in s))) else 0, s1))"

definition draw_confirmation :: "string \<Rightarrow> string \<Rightarrow> confirm_click \<Rightarrow> popup \<Rightarrow> sock \<Rightarrow> popup \<times> sock" where
  "draw_confirmation filename folder click st0 daemon =
     (let st = st0\<lparr>pu_filename := strncpy_buf IPC_BROWSER_FILENAME_MAX filename, pu_folder := strncpy_buf IPC_MAX_PATH_LEN folder\<rparr>
      in case click of
           NoClick \<Rightarrow> (st, daemon)
         | ClickBrowse None \<Rightarrow> (st, daemon)
         | ClickBrowse (Some chosen) \<Rightarrow> (st\<lparr>pu_folder := strncpy_buf IPC_MAX_PATH_LEN chosen\<rparr>, daemon)
         | ClickCancel \<Rightarrow> (st\<lparr>pu_close := True\<rparr>, snd (ipc_browser_dismiss (of_offer_id (pu_offer st)) daemon))
         | ClickDownload \<Rightarrow>
             (if \<not> filename_valid (pu_filename st) \<or> pu_folder st = [] \<or> path_join (pu_folder st) (pu_filename st) IPC_MAX_PATH_LEN = None
              then (st\<lparr>pu_error := ''Choose a valid folder and filename.''\<rparr>, daemon)
              else let dest = the (path_join (pu_folder st) (pu_filename st) IPC_MAX_PATH_LEN)
                   in case popup_confirm (of_offer_id (pu_offer st)) dest daemon of
                        (ok, i, s1) \<Rightarrow>
                          (st\<lparr>pu_full_path := dest, pu_download_id := i,
                             pu_error := (if ok then [] else ''Could not start download. Check the destination.'')\<rparr>, s1)))"

section \<open>Progress\<close>

definition update_progress :: "u32 \<Rightarrow> browser_progress \<Rightarrow> popup \<Rightarrow> popup" where
  "update_progress now p st =
     (let sampled = pu_last_tick st \<noteq> 0 \<and> now \<noteq> pu_last_tick st \<and> bp_bytes_received p \<ge> pu_last_bytes st \<and> now - pu_last_tick st \<ge> 200;
          st1 = st\<lparr>pu_speed := (if sampled then Some (bp_bytes_received p - pu_last_bytes st, now - pu_last_tick st) else pu_speed st),
                   pu_last_tick := now, pu_last_bytes := bp_bytes_received p, pu_progress := p\<rparr>
      in if bp_dest_path p = [] then st1
         else let path = strncpy_buf IPC_MAX_PATH_LEN (bp_dest_path p);
                  name = (case strrchr (CHR ''/'') path of None \<Rightarrow> path | Some k \<Rightarrow> drop (Suc k) path)
              in st1\<lparr>pu_full_path := path, pu_filename := strncpy_buf IPC_BROWSER_FILENAME_MAX name\<rparr>)"

definition popup_lost :: "u32 \<Rightarrow> popup \<Rightarrow> popup" where
  "popup_lost now st = st\<lparr>pu_sock := None, pu_next_retry := now + 1000, pu_error := ''Progress connection lost; retrying...''\<rparr>"

text \<open>\<open>attempt\<close>: the connection \<open>ipc_client_connect_timeout\<close> makes, if it makes one.\<close>

definition connect_progress :: "popup_env \<Rightarrow> u32 \<Rightarrow> sock option \<Rightarrow> popup \<Rightarrow> popup" where
  "connect_progress E now attempt st =
     (case attempt of
        None \<Rightarrow> popup_lost now st
      | Some s \<Rightarrow>
          (case ipc_browser_subscribe_progress (pv_progress_size E) (pv_progress E) (pu_download_id st) s of
             (None, _) \<Rightarrow> popup_lost now st
           | (Some initial, s1) \<Rightarrow> (update_progress now initial (st\<lparr>pu_sock := Some s1, pu_frame := []\<rparr>))\<lparr>pu_error := []\<rparr>))"

text \<open>What \<open>recv\<close> does: it hands over up to \<open>n\<close> of the waiting bytes (and at most what is asked for), finds
  nothing yet or is interrupted, or finds the connection closed or broken. The clock is the one an
  update made with these bytes reads.\<close>

datatype recv_result = RecvData nat u32 | RecvAgain | RecvClosed

definition header_ok :: "popup_env \<Rightarrow> u8 list \<Rightarrow> bool" where
  "header_ok E frame \<longleftrightarrow>
     mh_type (header_of_bytes (take 8 frame)) = Some MSG_BROWSER_PROGRESS_EVENT \<and>
     mh_length (header_of_bytes (take 8 frame)) = of_nat (pv_progress_size E)"

text \<open>The end of the loop body: \<open>None\<close> is the \<open>break\<close> for a frame that is no progress event.\<close>

definition take_bytes :: "popup_env \<Rightarrow> u32 \<Rightarrow> u8 list \<Rightarrow> popup \<Rightarrow> popup option" where
  "take_bytes E now bytes st =
     (let frame = pu_frame st @ bytes
      in if length frame < 8 then Some (st\<lparr>pu_frame := frame\<rparr>)
         else if \<not> header_ok E frame then None
         else if length frame = 8 + pv_progress_size E
         then Some ((update_progress now (pv_progress E (drop 8 frame)) st)\<lparr>pu_frame := []\<rparr>)
         else Some (st\<lparr>pu_frame := frame\<rparr>))"

fun recv_loop :: "popup_env \<Rightarrow> nat \<Rightarrow> recv_result list \<Rightarrow> u32 \<Rightarrow> sock \<Rightarrow> popup \<Rightarrow> popup" where
  "recv_loop E 0 rs now s st = popup_lost now st"
| "recv_loop E (Suc i) [] now s st = st\<lparr>pu_sock := Some s\<rparr>"
| "recv_loop E (Suc i) (RecvAgain # rs) now s st = st\<lparr>pu_sock := Some s\<rparr>"
| "recv_loop E (Suc i) (RecvClosed # rs) now s st = popup_lost now st"
| "recv_loop E (Suc i) (RecvData n t # rs) now s st =
     (let bytes = take (min n (8 + pv_progress_size E - length (pu_frame st))) (so_in s);
          s1 = s\<lparr>so_in := drop (length bytes) (so_in s)\<rparr>
      in if bytes = [] then st\<lparr>pu_sock := Some s\<rparr>
         else case take_bytes E t bytes st of
                None \<Rightarrow> popup_lost now st
              | Some st1 \<Rightarrow> recv_loop E i rs now s1 st1)"

definition popup_poll_progress :: "popup_env \<Rightarrow> u32 \<Rightarrow> sock option \<Rightarrow> recv_result list \<Rightarrow> popup \<Rightarrow> popup" where
  "popup_poll_progress E now attempt rs st =
     (case pu_sock st of
        None \<Rightarrow> if sint (now - pu_next_retry st) \<ge> 0 then connect_progress E now attempt st else st
      | Some s \<Rightarrow> recv_loop E 16 rs now s st)"

definition popup_done :: "popup \<Rightarrow> bool" where
  "popup_done st \<longleftrightarrow> bp_status (pu_progress st) = ''DONE''"

definition popup_stopped :: "popup \<Rightarrow> bool" where
  "popup_stopped st \<longleftrightarrow> bp_status (pu_progress st) = ''ERROR'' \<or> bp_status (pu_progress st) = ''CANCELED''"

text \<open>The bytes left and the speed that give the time remaining, when one is shown.\<close>

definition popup_eta :: "popup \<Rightarrow> (u64 \<times> u64 \<times> u32) option" where
  "popup_eta st =
     (case pu_speed st of
        Some (b, ms) \<Rightarrow>
          if \<not> popup_done st \<and> b > 0 \<and> bp_total_bytes (pu_progress st) > bp_bytes_received (pu_progress st)
          then Some (bp_total_bytes (pu_progress st) - bp_bytes_received (pu_progress st), b, ms) else None
      | None \<Rightarrow> None)"

definition popup_status_line :: "popup \<Rightarrow> string" where
  "popup_status_line st =
     (if popup_done st then ''Download complete''
      else if popup_stopped st then (if bp_error (pu_progress st) \<noteq> [] then bp_error (pu_progress st) else bp_status (pu_progress st))
      else pu_error st)"

definition popup_folder_of :: "string \<Rightarrow> string" where
  "popup_folder_of path =
     (case strrchr (CHR ''/'') (strncpy_buf IPC_MAX_PATH_LEN path) of
        None \<Rightarrow> ''/''
      | Some k \<Rightarrow> if k = 0 then ''/'' else take k path)"

datatype progress_click = NoPress | PressOpenFile | PressOpenFolder | PressCancel | PressClose

definition draw_progress :: "popup_env \<Rightarrow> progress_click \<Rightarrow> popup \<Rightarrow> sock \<Rightarrow> popup \<times> sock" where
  "draw_progress E click st daemon =
     (case click of
        NoPress \<Rightarrow> (st, daemon)
      | PressOpenFile \<Rightarrow>
          (if popup_done st \<and> \<not> pv_open E (pu_full_path st) then st\<lparr>pu_error := ''Could not open file.''\<rparr> else st, daemon)
      | PressOpenFolder \<Rightarrow>
          (if popup_done st \<and> \<not> pv_open E (popup_folder_of (pu_full_path st)) then st\<lparr>pu_error := ''Could not open folder.''\<rparr> else st, daemon)
      | PressCancel \<Rightarrow>
          (st, if \<not> popup_done st \<and> \<not> popup_stopped st then snd (ipc_send_cancel (pu_download_id st) daemon) else daemon)
      | PressClose \<Rightarrow> (st\<lparr>pu_close := True\<rparr>, daemon))"

section \<open>The window\<close>

text \<open>One iteration of the loop; \<open>fi_visible\<close> is the result of \<open>nk_begin\<close>.\<close>

record frame_input =
  fi_now :: u32
  fi_attempt :: "sock option"
  fi_recvs :: "recv_result list"
  fi_visible :: bool
  fi_filename :: string
  fi_folder :: string
  fi_confirm :: confirm_click
  fi_progress :: progress_click

definition popup_frame :: "popup_env \<Rightarrow> frame_input \<Rightarrow> popup \<Rightarrow> sock \<Rightarrow> popup \<times> sock" where
  "popup_frame E inp st daemon =
     (let st1 = (if pu_download_id st \<noteq> 0 then popup_poll_progress E (fi_now inp) (fi_attempt inp) (fi_recvs inp) st else st)
      in if \<not> fi_visible inp then (st1, daemon)
         else if pu_download_id st1 \<noteq> 0 then draw_progress E (fi_progress inp) st1 daemon
         else draw_confirmation (fi_filename inp) (fi_folder inp) (fi_confirm inp) st1 daemon)"

text \<open>The list ends when the window is closed from outside (\<open>gui_sdl_backend_poll\<close>).\<close>

fun popup_loop :: "popup_env \<Rightarrow> frame_input list \<Rightarrow> popup \<Rightarrow> sock \<Rightarrow> popup \<times> sock" where
  "popup_loop E [] st daemon = (st, daemon)"
| "popup_loop E (inp # inps) st daemon =
     (if pu_close st then (st, daemon) else case popup_frame E inp st daemon of (st1, d1) \<Rightarrow> popup_loop E inps st1 d1)"

definition zero_progress :: browser_progress where
  "zero_progress = \<lparr>bp_download_id = 0, bp_bytes_received = 0, bp_total_bytes = 0, bp_progress = 0, bp_status = [], bp_error = [], bp_dest_path = []\<rparr>"

definition popup_start :: "popup_env \<Rightarrow> offer \<Rightarrow> popup" where
  "popup_start E off =
     \<lparr>pu_offer = off, pu_download_id = 0, pu_filename = strncpy_buf IPC_BROWSER_FILENAME_MAX (of_filename off),
      pu_folder = strncpy_buf IPC_MAX_PATH_LEN (pv_default_dir E), pu_full_path = [], pu_error = [], pu_progress = zero_progress,
      pu_sock = None, pu_frame = [], pu_last_tick = 0, pu_next_retry = 0, pu_last_bytes = 0, pu_speed = None, pu_close = False\<rparr>"

text \<open>The exit status, the window at the end with its connection to the daemon, and the file system.\<close>

definition run_browser_popup ::
  "popup_env \<Rightarrow> sock option \<Rightarrow> u32 \<Rightarrow> frame_input list \<Rightarrow> fs \<Rightarrow> int \<times> (popup \<times> sock) option \<times> fs" where
  "run_browser_popup E connection offer_id inps fs =
     (case connection of
        None \<Rightarrow> (1, None, fs)
      | Some daemon \<Rightarrow>
          (case ipc_browser_get_offer (pv_offer_size E) (pv_offer E) offer_id daemon of
             (None, _) \<Rightarrow> (1, None, fs)
           | (Some off, d1) \<Rightarrow>
               if of_state off \<noteq> IPC_BROWSER_WAITING then (1, None, fs)
               else let fs1 = snd (file_ensure_directory (pv_kernel E) (pu_folder (popup_start E off)) fs)
                    in if \<not> pv_backend E then (1, None, fs1)
                       else (case popup_loop E inps (popup_start E off) d1 of
                               (st, d2) \<Rightarrow>
                                 (0, Some (st, if pu_download_id st = 0 \<and> \<not> pu_close st
                                               then snd (ipc_browser_dismiss (of_offer_id (pu_offer st)) d2) else d2), fs1))))"

section \<open>Reassembly of progress frames\<close>

text \<open>What the window shows that does not depend on the clock.\<close>

definition shows_now :: "popup \<Rightarrow> browser_progress \<times> string \<times> string \<times> u64" where
  "shows_now st = (pu_progress st, pu_full_path st, pu_filename st, pu_last_bytes st)"

definition show_event :: "browser_progress \<Rightarrow> browser_progress \<times> string \<times> string \<times> u64 \<Rightarrow> browser_progress \<times> string \<times> string \<times> u64" where
  "show_event p v =
     (case v of
        (_, path, name, _) \<Rightarrow>
          (p, if bp_dest_path p = [] then path else strncpy_buf IPC_MAX_PATH_LEN (bp_dest_path p),
           if bp_dest_path p = [] then name
           else strncpy_buf IPC_BROWSER_FILENAME_MAX
                  (case strrchr (CHR ''/'') (strncpy_buf IPC_MAX_PATH_LEN (bp_dest_path p)) of
                     None \<Rightarrow> strncpy_buf IPC_MAX_PATH_LEN (bp_dest_path p)
                   | Some k \<Rightarrow> drop (Suc k) (strncpy_buf IPC_MAX_PATH_LEN (bp_dest_path p))),
           bp_bytes_received p))"

lemma shows_update: "shows_now (update_progress now p st) = show_event p (shows_now st)"
  by (simp add: shows_now_def show_event_def update_progress_def Let_def)

lemma update_progress_frame [simp]:
  "pu_sock (update_progress now p st) = pu_sock st" "pu_frame (update_progress now p st) = pu_frame st"
  "pu_offer (update_progress now p st) = pu_offer st" "pu_download_id (update_progress now p st) = pu_download_id st"
  "pu_close (update_progress now p st) = pu_close st"
  by (simp_all add: update_progress_def Let_def)

text \<open>The frame the daemon sends for a progress event (\<open>ipc_broadcast_status\<close>), given the layout of the struct.\<close>

definition event_frame :: "popup_env \<Rightarrow> (browser_progress \<Rightarrow> u8 list) \<Rightarrow> browser_progress \<Rightarrow> u8 list" where
  "event_frame E enc p = put_header (of_nat (pv_progress_size E)) MSG_BROWSER_PROGRESS_EVENT @ enc p"

definition event_stream :: "popup_env \<Rightarrow> (browser_progress \<Rightarrow> u8 list) \<Rightarrow> browser_progress list \<Rightarrow> u8 list" where
  "event_stream E enc es = concat (map (event_frame E enc) es)"

text \<open>The struct is read back as it was written.\<close>

definition same_layout :: "popup_env \<Rightarrow> (browser_progress \<Rightarrow> u8 list) \<Rightarrow> browser_progress list \<Rightarrow> bool" where
  "same_layout E enc es \<longleftrightarrow> (\<forall>p\<in>set es. length (enc p) = pv_progress_size E \<and> pv_progress E (enc p) = p)"

lemma event_stream_simps [simp]:
  "event_stream E enc [] = []" "event_stream E enc (p # es) = event_frame E enc p @ event_stream E enc es"
  by (simp_all add: event_stream_def)

lemma length_event_frame: "length (enc p) = pv_progress_size E \<Longrightarrow> length (event_frame E enc p) = 8 + pv_progress_size E"
  by (simp add: event_frame_def)

text \<open>The buffer and what is still to come are the frames not yet shown.\<close>

definition assembled :: "popup_env \<Rightarrow> (browser_progress \<Rightarrow> u8 list) \<Rightarrow> browser_progress list \<Rightarrow>
    browser_progress \<times> string \<times> string \<times> u64 \<Rightarrow> sock \<Rightarrow> popup \<Rightarrow> bool" where
  "assembled E enc es v0 s st \<longleftrightarrow>
     (\<exists>k \<le> length es. pu_frame st @ so_in s = event_stream E enc (drop k es) \<and> length (pu_frame st) < 8 + pv_progress_size E \<and>
        shows_now st = fold show_event (take k es) v0)"

lemma prefix_of_append: "xs @ ys = us @ vs \<Longrightarrow> length xs \<le> length us \<Longrightarrow> xs = take (length xs) us"
  by (metis append_eq_append_conv_if)

lemma take_bytes_assembled:
  assumes lay: "same_layout E enc es" and inv: "assembled E enc es v0 s st"
    and b: "bytes = take (min n (8 + pv_progress_size E - length (pu_frame st))) (so_in s)" "bytes \<noteq> []"
  shows "\<exists>st1. take_bytes E t bytes st = Some st1 \<and> assembled E enc es v0 (s\<lparr>so_in := drop (length bytes) (so_in s)\<rparr>) st1"
proof -
  let ?N = "pv_progress_size E" and ?f = "pu_frame st @ bytes"
  obtain k where k: "k \<le> length es" "pu_frame st @ so_in s = event_stream E enc (drop k es)" "length (pu_frame st) < 8 + ?N"
    "shows_now st = fold show_event (take k es) v0" using inv unfolding assembled_def by blast
  have split: "so_in s = bytes @ drop (length bytes) (so_in s)" using b(1) by (metis append_take_drop_id append_eq_conv_conj)
  have len: "length ?f \<le> 8 + ?N" using b(1) k(3) by auto
  have "drop k es \<noteq> []" using k(2) b by (cases "drop k es") auto
  then obtain p rest where p: "drop k es = p # rest" by (cases "drop k es") auto
  then have kl: "k < length es" "es ! k = p" "drop (Suc k) es = rest" by (metis drop_eq_Nil linorder_not_le list.distinct(1), metis nth_via_drop, metis drop_Suc list.sel(3) tl_drop)
  then have pm: "p \<in> set es" by (metis nth_mem)
  have lp: "length (enc p) = ?N" "pv_progress E (enc p) = p" using lay pm unfolding same_layout_def by auto
  have lf: "length (event_frame E enc p) = 8 + ?N" by (rule length_event_frame) (rule lp(1))
  have eq: "?f @ drop (length bytes) (so_in s) = event_frame E enc p @ event_stream E enc rest"
    using k(2) split p by (metis append_assoc event_stream_simps(2))
  have pre: "?f = take (length ?f) (event_frame E enc p)"
    using prefix_of_append [OF eq] len lf by simp
  show ?thesis
  proof (cases "length ?f = 8 + ?N")
    case True
    then have f: "?f = event_frame E enc p" "drop (length bytes) (so_in s) = event_stream E enc rest"
      using eq lf by (metis append_eq_append_conv)+
    have "header_ok E ?f" unfolding f(1) header_ok_def event_frame_def by (simp add: header_of_put_header)
    then have "take_bytes E t bytes st = Some ((update_progress t p st)\<lparr>pu_frame := []\<rparr>)"
      using True f(1) lp(2) by (simp add: take_bytes_def Let_def event_frame_def)
    moreover have "shows_now ((update_progress t p st)\<lparr>pu_frame := []\<rparr>) = fold show_event (take (Suc k) es) v0"
      using k(4) kl shows_update [of t p st] by (simp add: shows_now_def take_Suc_conv_app_nth)
    ultimately show ?thesis unfolding assembled_def using f(2) kl by (intro exI conjI) (assumption, auto)
  next
    case False
    have "length ?f \<ge> 8 \<Longrightarrow> header_ok E ?f"
    proof -
      assume "length ?f \<ge> 8"
      then have "take 8 ?f = take 8 (event_frame E enc p)" using pre by (metis min.absorb1 take_take)
      then show ?thesis unfolding header_ok_def by (simp add: event_frame_def header_of_put_header)
    qed
    then have "take_bytes E t bytes st = Some (st\<lparr>pu_frame := ?f\<rparr>)" using False by (auto simp: take_bytes_def Let_def)
    moreover have "assembled E enc es v0 (s\<lparr>so_in := drop (length bytes) (so_in s)\<rparr>) (st\<lparr>pu_frame := ?f\<rparr>)"
      unfolding assembled_def using k eq p len False by (intro exI [of _ k]) (auto simp: shows_now_def)
    ultimately show ?thesis by blast
  qed
qed

lemma recv_loop_assembled:
  assumes "same_layout E enc es" and "length rs < i" and "RecvClosed \<notin> set rs" and "assembled E enc es v0 s st"
  shows "\<exists>s'. pu_sock (recv_loop E i rs now s st) = Some s' \<and> assembled E enc es v0 s' (recv_loop E i rs now s st)"
  using assms(2-4)
proof (induction rs arbitrary: i s st)
  case Nil
  then show ?case by (cases i) (auto simp: assembled_def shows_now_def)
next
  case (Cons r rs)
  then obtain j where i: "i = Suc j" "length rs < j" by (cases i) auto
  show ?case
  proof (cases r)
    case (RecvData n t)
    let ?b = "take (min n (8 + pv_progress_size E - length (pu_frame st))) (so_in s)"
    show ?thesis
    proof (cases "?b = []")
      case True
      then show ?thesis using Cons.prems(3) i RecvData by (auto simp: assembled_def shows_now_def)
    next
      case False
      from take_bytes_assembled [OF assms(1) Cons.prems(3) refl False, of t] obtain st1 where
        st1: "take_bytes E t ?b st = Some st1" "assembled E enc es v0 (s\<lparr>so_in := drop (length ?b) (so_in s)\<rparr>) st1" by blast
      have "recv_loop E i (r # rs) now s st = recv_loop E j rs now (s\<lparr>so_in := drop (length ?b) (so_in s)\<rparr>) st1"
        unfolding RecvData i(1) recv_loop.simps Let_def using False st1(1) by (simp only: if_False option.case)
      then show ?thesis using Cons.IH [OF i(2) _ st1(2)] Cons.prems(2) by simp
    qed
  qed (use Cons.prems i in \<open>auto simp: assembled_def shows_now_def\<close>)
qed

text \<open>A sequence of calls of \<open>poll_progress\<close>, one per frame of the window.\<close>

definition popup_polls :: "popup_env \<Rightarrow> (u32 \<times> sock option \<times> recv_result list) list \<Rightarrow> popup \<Rightarrow> popup" where
  "popup_polls E ps st = fold (\<lambda>(now, attempt, rs). popup_poll_progress E now attempt rs) ps st"

lemma popup_polls_assembled:
  assumes "same_layout E enc es" and "pu_sock st = Some s" and "assembled E enc es v0 s st"
    and "\<forall>(now, attempt, rs) \<in> set ps. length rs < 16 \<and> RecvClosed \<notin> set rs"
  shows "\<exists>s'. pu_sock (popup_polls E ps st) = Some s' \<and> assembled E enc es v0 s' (popup_polls E ps st)"
  using assms(2-4)
proof (induction ps arbitrary: s st)
  case (Cons p ps)
  obtain now attempt rs where p: "p = (now, attempt, rs)" by (cases p) auto
  have st1: "popup_poll_progress E now attempt rs st = recv_loop E 16 rs now s st" using Cons.prems(1) by (simp add: popup_poll_progress_def)
  have "length rs < 16" "RecvClosed \<notin> set rs" using Cons.prems(3) p by auto
  from recv_loop_assembled [OF assms(1) this Cons.prems(2), of now] obtain s' where
    "pu_sock (recv_loop E 16 rs now s st) = Some s'" "assembled E enc es v0 s' (recv_loop E 16 rs now s st)" by blast
  from Cons.IH [OF this] Cons.prems(3) show ?case by (simp add: popup_polls_def p st1)
qed (auto simp: popup_polls_def)


definition demo_event :: browser_progress where
  "demo_event = zero_progress\<lparr>bp_bytes_received := 5, bp_dest_path := ''/d/f''\<rparr>"

definition demo_popup_env :: popup_env where
  "demo_popup_env = \<lparr>pv_kernel = good_kernel, pv_offer_size = 4, pv_offer = (\<lambda>b. \<lparr>of_offer_id = of_nat (le_dec b), of_download_id = 0,
       of_total_bytes = 0, of_state = IPC_BROWSER_WAITING, of_request_id = [], of_url = [], of_filename = ''f'', of_mime = [], of_referrer = []\<rparr>),
     pv_progress_size = 1, pv_progress = (\<lambda>b. if b = [7] then demo_event else zero_progress), pv_default_dir = ''/d'', pv_backend = True,
     pv_open = (\<lambda>_. True)\<rparr>"

definition demo_popup :: popup where
  "demo_popup = (popup_start demo_popup_env (pv_offer demo_popup_env [9]))\<lparr>pu_download_id := 1,
     pu_sock := Some \<lparr>so_in = event_stream demo_popup_env (\<lambda>_. [7]) [demo_event, demo_event], so_out = [], so_writes = 0\<rparr>\<rparr>"


lemma take_bytes_frame:
  assumes "take_bytes E t bytes st = Some st1" and "length (pu_frame st @ bytes) \<le> 8 + pv_progress_size E"
  shows "length (pu_frame st1) < 8 + pv_progress_size E"
  using assms by (auto simp: take_bytes_def Let_def split: if_splits)

lemma recv_loop_busy:
  assumes "i \<le> length rs" and "\<forall>r\<in>set (take i rs). \<exists>n t. r = RecvData (Suc n) t" and "length (pu_frame st) < 8 + pv_progress_size E"
    and "i * (8 + pv_progress_size E) \<le> length (so_in s)"
  shows "pu_sock (recv_loop E i rs now s st) = None"
  using assms
proof (induction i arbitrary: rs s st)
  case 0
  then show ?case by (simp add: popup_lost_def)
next
  case (Suc i)
  then obtain n t rs' where rs: "rs = RecvData (Suc n) t # rs'" by (cases rs) auto
  let ?F = "8 + pv_progress_size E"
  define m where "m = min (Suc n) (?F - length (pu_frame st))"
  define bytes where "bytes = take m (so_in s)"
  have m: "0 < m" "length (pu_frame st) + m \<le> ?F" "m \<le> ?F" using Suc.prems(3) by (auto simp: m_def)
  have long: "?F + i * ?F \<le> length (so_in s)" using Suc.prems(4) by simp
  then have b: "bytes \<noteq> []" "length bytes = m" using m by (auto simp: bytes_def)
  show ?case
  proof (cases "take_bytes E t bytes st")
    case None
    then show ?thesis unfolding rs using b(1) by (simp add: Let_def popup_lost_def flip: m_def bytes_def)
  next
    case (Some st1)
    have "pu_sock (recv_loop E i rs' now (s\<lparr>so_in := drop (length bytes) (so_in s)\<rparr>) st1) = None"
    proof (rule Suc.IH)
      show "length (pu_frame st1) < ?F" using take_bytes_frame [OF Some] m b by simp
      show "i * ?F \<le> length (so_in (s\<lparr>so_in := drop (length bytes) (so_in s)\<rparr>))" using long m b by simp
    qed (use Suc.prems rs in auto)
    then show ?thesis unfolding rs using b(1) Some by (simp add: Let_def flip: m_def bytes_def)
  qed
qed

text \<open>
  A busy progress connection is dropped. When 16 reads of one poll all find data, which at least 16
  waiting events allow, \<open>poll_progress\<close> leaves its loop into the code for a lost connection: the healthy
  connection is closed and the window reports it as lost.
\<close>

lemma busy_popup_drops_connection:
  assumes "same_layout E enc es" and "16 \<le> length es" and "pu_sock st = Some s" and "pu_frame st = []" and "so_in s = event_stream E enc es"
    and "16 \<le> length rs" and "\<forall>r\<in>set (take 16 rs). \<exists>n t. r = RecvData (Suc n) t"
  shows "pu_sock (popup_poll_progress E now attempt rs st) = None"
proof -
  have "length (event_stream E enc es) = length es * (8 + pv_progress_size E)"
    using assms(1) by (induction es) (auto simp: same_layout_def event_frame_def)
  then have "16 * (8 + pv_progress_size E) \<le> length (so_in s)" using assms(2,5) by (simp only: mult_le_mono1)
  then show ?thesis
    using recv_loop_busy [of 16 rs st E s now] assms(3,4,6,7) by (simp add: popup_poll_progress_def)
qed

section \<open>The decision of the user\<close>

definition dismissed :: "u32 \<Rightarrow> sock \<Rightarrow> bool" where
  "dismissed i s \<longleftrightarrow> (\<exists>before. so_out s = before @ put_header 4 MSG_BROWSER_DISMISS @ put_u32 i)"

text \<open>What a request leaves of the writes that succeed.\<close>

definition writes_left :: "sock \<Rightarrow> sock \<Rightarrow> bool" where
  "writes_left s s' \<longleftrightarrow> so_writes s \<le> so_writes s' + 2"

lemma sock_frames [simp]: "so_writes (snd (sock_read n s)) = so_writes s" "so_out (snd (sock_read n s)) = so_out s"
  by (auto simp: sock_read_def split: option.splits)

lemma write_all_writes: "write_all bs s = (ok, s') \<Longrightarrow> so_writes s \<le> so_writes s' + length bs"
  by (induction bs arbitrary: s) (fastforce simp: sock_write_def split: if_splits)+

lemma browser_write_writes: "browser_write_request ty payload s = (ok, s') \<Longrightarrow> writes_left s s'"
  using write_all_writes [of "put_header (of_nat (length payload)) ty # (if payload = [] then [] else [payload])" s ok s']
  by (auto simp: browser_write_request_def writes_left_def split: if_splits)

lemma writes_left_sock_read: "sock_read n s = (r, s') \<Longrightarrow> writes_left s0 s \<Longrightarrow> writes_left s0 s'"
  using sock_frames(1) [of n s] by (simp add: writes_left_def)

lemma writes_left_refl [simp]: "writes_left s s"
  by (simp add: writes_left_def)

lemma dismiss_writes: "writes_left s (snd (ipc_browser_dismiss i s))"
  by (auto simp: ipc_browser_dismiss_def read_result_def dest: browser_write_writes writes_left_sock_read split: prod.splits option.splits)

lemma confirm_writes: "ipc_browser_confirm i dest s = (r, s') \<Longrightarrow> writes_left s s'"
  by (auto simp: ipc_browser_confirm_def dest: browser_write_writes writes_left_sock_read split: prod.splits option.splits if_splits)

lemma get_offer_writes: "ipc_browser_get_offer n layout i s = (r, s') \<Longrightarrow> writes_left s s'"
  by (auto simp: ipc_browser_get_offer_def read_offer_def dest: browser_write_writes writes_left_sock_read split: prod.splits option.splits if_splits)

lemma cancel_writes: "writes_left s (snd (ipc_send_cancel i s))"
proof -
  obtain ok s1 where w: "write_all [put_header 4 MSG_CANCEL, put_u32 i] s = (ok, s1)" by fastforce
  then have "writes_left s s1" using write_all_writes [OF w] by (simp add: writes_left_def)
  then show ?thesis unfolding ipc_send_cancel_def send_id_command_def w
    by (auto dest: writes_left_sock_read split: prod.splits option.splits)
qed

lemma dismiss_sends:
  assumes "i \<noteq> 0" and "2 \<le> so_writes s"
  shows "dismissed i (snd (ipc_browser_dismiss i s))"
proof -
  have w: "browser_write_request MSG_BROWSER_DISMISS (put_u32 i) s =
      (True, s\<lparr>so_out := so_out s @ put_header 4 MSG_BROWSER_DISMISS @ put_u32 i, so_writes := so_writes s - 2\<rparr>)"
  proof -
    have "put_u32 i \<noteq> []" using length_put_u32 [of i] by (metis length_0_conv zero_neq_numeral)
    then show ?thesis using assms(2) write_all_ok [of "[put_header 4 MSG_BROWSER_DISMISS, put_u32 i]" s]
      by (simp add: browser_write_request_def IPC_MAX_FRAME_SIZE_def del: write_all.simps)
  qed
  have out: "so_out (snd (read_result s')) = so_out s'" for s' by (auto simp: read_result_def sock_read_def split: prod.splits option.splits)
  show ?thesis unfolding dismissed_def ipc_browser_dismiss_def w using assms(1) by (simp add: out)
qed

lemma lost_frame [simp]:
  "pu_offer (popup_lost now st) = pu_offer st" "pu_download_id (popup_lost now st) = pu_download_id st" "pu_close (popup_lost now st) = pu_close st"
  by (simp_all add: popup_lost_def)

lemma take_bytes_keeps:
  "take_bytes E t b st = Some st1 \<Longrightarrow> pu_offer st1 = pu_offer st \<and> pu_download_id st1 = pu_download_id st \<and> pu_close st1 = pu_close st"
  by (auto simp: take_bytes_def Let_def split: if_splits)

lemma recv_loop_keeps:
  "pu_offer (recv_loop E i rs now s st) = pu_offer st \<and> pu_download_id (recv_loop E i rs now s st) = pu_download_id st \<and>
   pu_close (recv_loop E i rs now s st) = pu_close st"
  by (induction E i rs now s st rule: recv_loop.induct) (auto simp: Let_def dest: take_bytes_keeps split: option.splits)

lemma poll_keeps:
  "pu_offer (popup_poll_progress E now a rs st) = pu_offer st \<and> pu_download_id (popup_poll_progress E now a rs st) = pu_download_id st \<and>
   pu_close (popup_poll_progress E now a rs st) = pu_close st"
  using recv_loop_keeps by (simp add: popup_poll_progress_def connect_progress_def split: option.splits prod.splits)

text \<open>A window that was closed without a download has sent the dismissal last.\<close>

definition decided :: "popup \<Rightarrow> sock \<Rightarrow> bool" where
  "decided st d \<longleftrightarrow> of_offer_id (pu_offer st) \<noteq> 0 \<and> (pu_close st \<and> pu_download_id st = 0 \<longrightarrow> dismissed (of_offer_id (pu_offer st)) d)"

lemma frame_decided:
  assumes "popup_frame E inp st d = (st1, d1)" and "decided st d" and "\<not> pu_close st" and "2 \<le> so_writes d"
  shows "decided st1 d1 \<and> writes_left d d1 \<and> pu_offer st1 = pu_offer st"
proof -
  define st0 where "st0 = (if pu_download_id st \<noteq> 0 then popup_poll_progress E (fi_now inp) (fi_attempt inp) (fi_recvs inp) st else st)"
  have k: "pu_offer st0 = pu_offer st" "pu_download_id st0 = pu_download_id st" "\<not> pu_close st0" "of_offer_id (pu_offer st) \<noteq> 0"
    using poll_keeps assms(2,3) by (auto simp: st0_def decided_def)
  note f = assms(1) [unfolded popup_frame_def, folded st0_def, unfolded Let_def]
  consider "st1 = st0" "d1 = d" | "pu_download_id st0 \<noteq> 0" "draw_progress E (fi_progress inp) st0 d = (st1, d1)"
    | "draw_confirmation (fi_filename inp) (fi_folder inp) (fi_confirm inp) st0 d = (st1, d1)"
    using f by (auto simp: st0_def popup_frame_def Let_def split: if_splits)
  then show ?thesis
  proof cases
    case 1
    then show ?thesis using k by (simp add: decided_def)
  next
    case 2
    then show ?thesis using k cancel_writes [of d "pu_download_id st0"]
      by (auto simp: draw_progress_def decided_def split: progress_click.splits if_splits)
  next
    case 3
    then show ?thesis using k dismiss_sends [OF k(4) assms(4)] dismiss_writes [of d "of_offer_id (pu_offer st)"]
      by (auto simp: draw_confirmation_def popup_confirm_def decided_def Let_def dest: confirm_writes
          split: confirm_click.splits option.splits prod.splits if_splits)
  qed
qed

lemma loop_decided:
  assumes "popup_loop E inps st d = (st1, d1)" and "decided st d" and "2 * length inps + n \<le> so_writes d"
  shows "decided st1 d1 \<and> n \<le> so_writes d1 \<and> pu_offer st1 = pu_offer st"
  using assms
proof (induction inps arbitrary: st d)
  case (Cons inp inps)
  show ?case
  proof (cases "pu_close st")
    case False
    obtain st2 d2 where f: "popup_frame E inp st d = (st2, d2)" by fastforce
    from frame_decided [OF f Cons.prems(2) False] Cons.prems(3)
    have "decided st2 d2" "writes_left d d2" "pu_offer st2 = pu_offer st" by auto
    then show ?thesis using Cons.IH [of st2 d2] Cons.prems f False by (simp add: writes_left_def)
  qed (use Cons.prems in auto)
qed auto

text \<open>
  C32: A popup ends in a decision. When the window is gone and no download was started, the last thing the
  daemon was sent is the dismissal of this offer, whether the user cancelled or closed the window, and it
  was sent for the offer the popup was opened for (as long as the connection takes the writes).
\<close>

theorem popup_ends_in_a_decision:
  assumes "run_browser_popup E (Some daemon) offer_id inps fs = (0, Some (st, d), fs1)"
    and "2 * length inps + 4 \<le> so_writes daemon" and "pu_download_id st = 0"
  shows "of_offer_id (pu_offer st) \<noteq> 0 \<and> dismissed (of_offer_id (pu_offer st)) d \<and>
    fst (ipc_browser_get_offer (pv_offer_size E) (pv_offer E) offer_id daemon) = Some (pu_offer st)"
proof -
  obtain off d1 st2 d2 where g: "ipc_browser_get_offer (pv_offer_size E) (pv_offer E) offer_id daemon = (Some off, d1)"
    and l: "popup_loop E inps (popup_start E off) d1 = (st2, d2)"
    and r: "st = st2" "d = (if pu_download_id st = 0 \<and> \<not> pu_close st then snd (ipc_browser_dismiss (of_offer_id (pu_offer st)) d2) else d2)"
    using assms(1) by (auto simp: run_browser_popup_def Let_def split: prod.splits option.splits if_splits)
  have "of_offer_id off \<noteq> 0" using g by (auto simp: ipc_browser_get_offer_def read_offer_def split: if_splits prod.splits option.splits)
  then have "decided (popup_start E off) d1" by (simp add: decided_def popup_start_def)
  from loop_decided [OF l this, of 2] get_offer_writes [OF g] assms(2)
  have "decided st d2" "2 \<le> so_writes d2" "pu_offer st = off" using r(1) by (auto simp: writes_left_def popup_start_def)
  then show ?thesis using r(2) assms(3) g dismiss_sends [of "of_offer_id off" d2] by (auto simp: decided_def)
qed

theorem popup_ends_in_a_decision_witness:
  "\<exists>st d fs1. run_browser_popup demo_popup_env (Some \<lparr>so_in = [9, 0, 0, 0, 1], so_out = [], so_writes = 9\<rparr>) 9 [] Map.empty = (0, Some (st, d), fs1) \<and>
     dismissed 9 d"
proof -
  let ?s = "\<lparr>so_in = [9, 0, 0, 0, 1], so_out = [], so_writes = 9\<rparr>"
  have g: "fst (ipc_browser_get_offer (pv_offer_size demo_popup_env) (pv_offer demo_popup_env) 9 ?s) = Some (pv_offer demo_popup_env [9, 0, 0, 0])"
    by code_simp
  then obtain d1 where g': "ipc_browser_get_offer (pv_offer_size demo_popup_env) (pv_offer demo_popup_env) 9 ?s = (Some (pv_offer demo_popup_env [9, 0, 0, 0]), d1)"
    by (metis prod.collapse)
  have i: "of_offer_id (pv_offer demo_popup_env [9, 0, 0, 0]) = 9" "of_state (pv_offer demo_popup_env [9, 0, 0, 0]) = IPC_BROWSER_WAITING" by code_simp+
  have "\<exists>st d fs1. run_browser_popup demo_popup_env (Some ?s) 9 [] Map.empty = (0, Some (st, d), fs1) \<and> pu_download_id st = 0"
    unfolding run_browser_popup_def option.case g' prod.case Let_def using i(2) by (simp add: popup_start_def demo_popup_env_def)
  then obtain st d fs1 where r: "run_browser_popup demo_popup_env (Some ?s) 9 [] Map.empty = (0, Some (st, d), fs1)" "pu_download_id st = 0" by blast
  have "dismissed (of_offer_id (pu_offer st)) d \<and> Some (pv_offer demo_popup_env [9, 0, 0, 0]) = Some (pu_offer st)"
    using popup_ends_in_a_decision [OF r(1) _ r(2)] g by simp
  then show ?thesis using r(1) i(1) by auto
qed

end
