(* ===== verification/Spawn.thy ===== *)
theory Spawn
  imports Browser_Popup
begin

text \<open>
  \<open>src/platform/spawn.c\<close>, the POSIX half: starting the daemon and the popup as detached processes. What the
  kernel answers is an input; the result is the return value with the program image of the grandchild
  (its arguments and the variable that names the descriptor of the ready pipe), if one is started.
\<close>

text \<open>\<open>readlink("/proc/self/exe", ...)\<close>: the link, or nothing.\<close>

definition get_self_exe_path :: "string option \<Rightarrow> nat \<Rightarrow> string" where
  "get_self_exe_path link buf_size = (case link of None \<Rightarrow> [] | Some p \<Rightarrow> take (buf_size - 1) p)"

record image =
  im_argv :: "string list"
  im_ready_fd :: "string option"

record spawn_env =
  sp_pipe :: "(nat \<times> nat) option"
  sp_fork :: bool
  sp_setsid :: bool
  sp_fork2 :: bool
  sp_wait :: bool

text \<open>The result of the second \<open>fork\<close> is not looked at: the daemon's parent reports success either way.\<close>

definition spawn_daemon_detached :: "spawn_env \<Rightarrow> string \<Rightarrow> int \<times> image option" where
  "spawn_daemon_detached V exe_path =
     (if \<not> sp_fork V then (-1, None)
      else (0, if sp_fork2 V then Some \<lparr>im_argv = [exe_path, ''daemon''], im_ready_fd = None\<rparr> else None))"

text \<open>The exit status of the process in between.\<close>

definition child_status :: "spawn_env \<Rightarrow> int" where
  "child_status V = (if \<not> sp_setsid V then 127 else if \<not> sp_fork2 V then 127 else 0)"

definition popup_image :: "nat \<Rightarrow> string \<Rightarrow> u32 \<Rightarrow> image" where
  "popup_image ready_fd exe_path offer_id =
     \<lparr>im_argv = [exe_path, ''browser-popup'', ''--offer'', dec (unat offer_id)], im_ready_fd = Some (dec ready_fd)\<rparr>"

text \<open>\<open>poll\<close> on the pipe: interrupted, failed, timed out, or ready; then whether there is input, and what
  \<open>read\<close> gets of it (\<open>None\<close>: nothing, the other end is closed).\<close>

datatype pipe_poll = PipeInterrupted | PipeFailed | PipeTimeout | PipeReady bool "char option"

fun await_marker :: "pipe_poll list \<Rightarrow> int \<times> char" where
  "await_marker [] = (0, CHR 0x00)"
| "await_marker (PipeInterrupted # ps) = await_marker ps"
| "await_marker (PipeFailed # ps) = (-1, CHR 0x00)"
| "await_marker (PipeTimeout # ps) = (0, CHR 0x00)"
| "await_marker (PipeReady input got # ps) =
     (if \<not> input then (1, CHR 0x00) else case got of None \<Rightarrow> (0, CHR 0x00) | Some c \<Rightarrow> (1, c))"

definition spawn_browser_popup_detached :: "spawn_env \<Rightarrow> string \<Rightarrow> u32 \<Rightarrow> pipe_poll list \<Rightarrow> int \<times> image option" where
  "spawn_browser_popup_detached V exe_path offer_id polls =
     (case sp_pipe V of
        None \<Rightarrow> (-1, None)
      | Some (_, write_end) \<Rightarrow>
          if \<not> sp_fork V then (-1, None)
          else let started = (if child_status V = 0 then Some (popup_image write_end exe_path offer_id) else None)
               in if \<not> sp_wait V \<or> child_status V \<noteq> 0 then (-1, started)
                  else (case await_marker polls of
                          (ready, marker) \<Rightarrow> (if ready = 1 \<and> marker = CHR ''R'' then 0 else -1, started)))"

text \<open>\<open>platform_open_path\<close> (\<open>src/platform/open_path.c\<close>): the file is handed to the desktop; \<open>exists\<close> is
  \<open>access(path, F_OK) == 0\<close>.\<close>

definition platform_open_path :: "spawn_env \<Rightarrow> bool \<Rightarrow> string \<Rightarrow> int \<times> image option" where
  "platform_open_path V exists path =
     (if path = [] \<or> \<not> exists then (-1, None)
      else if \<not> sp_fork V then (-1, None)
      else let started = (if child_status V = 0 then Some \<lparr>im_argv = [''xdg-open'', path], im_ready_fd = None\<rparr> else None)
           in if \<not> sp_wait V \<or> child_status V \<noteq> 0 then (-1, started) else (0, started))"

section \<open>What is started understands what it is given\<close>

lemma ready_fd_roundtrip: "3 \<le> n \<Longrightarrow> n \<le> 1024 \<Longrightarrow> report_popup_ready (Some (dec n)) = Some (int n)"
  by (simp add: report_popup_ready_def strtol_dec)

lemma popup_id_dec:
  assumes "i \<noteq> 0"
  shows "popup_id (dec (unat i)) = Some i"
proof -
  have "popup_id (dec n) = parse_id (dec n)" for n
    by (auto simp: popup_id_def parse_id_def parse_u64_def dec_not_minus split: option.splits)
  moreover have "0 < unat i" "unat i < 2 ^ 32" using assms unat_lt2p [of i] by (simp_all add: unat_gt_0)
  ultimately show ?thesis using parse_id_dec [of "unat i"] by simp
qed

text \<open>
  A started process understands what it is given. The daemon's image runs the daemon; the image of a
  popup makes \<open>main\<close> open the popup for the same offer, and the popup writes its marker to the very
  descriptor the parent waits on (as long as it is one the popup accepts, 3 to 1024). The parent reports
  success exactly when the process was started and the first poll that was not interrupted saw the
  marker.
\<close>

lemma spawned_popup_opens_its_offer:
  assumes "offer_id \<noteq> 0" and "sp_pipe V = Some (r, w)" and "3 \<le> w" and "w \<le> 1024"
  shows "(case spawn_browser_popup_detached V exe_path offer_id polls of
      (rc, started) \<Rightarrow>
        (rc = 0 \<longleftrightarrow> sp_fork V \<and> sp_setsid V \<and> sp_fork2 V \<and> sp_wait V \<and>
           (\<exists>ps. dropWhile (\<lambda>p. p = PipeInterrupted) polls = PipeReady True (Some (CHR ''R'')) # ps)) \<and>
        (rc = 0 \<longrightarrow> started \<noteq> None) \<and>
        (\<forall>im. started = Some im \<longrightarrow> cdm_main M (im_argv im) = me_popup M offer_id \<and> report_popup_ready (im_ready_fd im) = Some (int w))) \<and>
    (\<forall>im. snd (spawn_daemon_detached V exe_path) = Some im \<longrightarrow> cdm_main M (im_argv im) = me_run_daemon M)"
proof -
  have m: "fst (await_marker polls) = 1 \<and> snd (await_marker polls) = CHR ''R'' \<longleftrightarrow>
      (\<exists>ps. dropWhile (\<lambda>p. p = PipeInterrupted) polls = PipeReady True (Some (CHR ''R'')) # ps)"
    by (induction polls rule: await_marker.induct) (auto split: option.splits)
  have im: "cdm_main M (im_argv (popup_image w exe_path offer_id)) = me_popup M offer_id"
    "report_popup_ready (im_ready_fd (popup_image w exe_path offer_id)) = Some (int w)"
    using popup_id_dec [OF assms(1)] ready_fd_roundtrip [OF assms(3,4)] by (simp_all add: cdm_main_def popup_image_def)
  have "cdm_main M [exe_path, ''daemon''] = me_run_daemon M" by (simp add: cdm_main_def)
  then show ?thesis
    using m im assms(2) by (cases "await_marker polls") (auto simp: spawn_browser_popup_detached_def spawn_daemon_detached_def child_status_def Let_def)
qed

end
