(* ===== verification/Logging.thy ===== *)
theory Logging
  imports Os_Model
begin

text \<open>
  \<open>src/utils/log.c\<close>: the log file, its lines and its rotation (the file is moved to a single backup once
  it has reached 5 MiB). The mutex makes every function atomic. The clock, the identifiers of process
  and thread, the text \<open>vsnprintf\<close> produces and the outcomes of the file operations are inputs; the
  log file is taken to be moved by this program only, so that \<open>ftell\<close> after a flush is its length.
\<close>

definition LOG_MAX_BYTES :: nat where
  "LOG_MAX_BYTES = 5 * 1024 * 1024"

datatype log_level = LOG_DEBUG | LOG_INFO | LOG_WARN | LOG_ERROR

primrec level_code :: "log_level \<Rightarrow> nat" where
  "level_code LOG_DEBUG = 0"
| "level_code LOG_INFO = 1"
| "level_code LOG_WARN = 2"
| "level_code LOG_ERROR = 3"

primrec level_name :: "log_level \<Rightarrow> string" where
  "level_name LOG_DEBUG = ''DEBUG''"
| "level_name LOG_INFO = ''INFO''"
| "level_name LOG_WARN = ''WARN''"
| "level_name LOG_ERROR = ''ERROR''"

text \<open>\<open>g_log_fp\<close> is the path the open stream was opened at.\<close>

record log_state =
  g_log_fp :: "string option"
  g_log_path :: string
  g_min_level :: log_level

record log_env =
  lv_open :: "string \<Rightarrow> bool"
  lv_remove :: bool
  lv_rename :: bool
  lv_reached :: "nat option"      \<comment> \<open>how much of a line reaches the disk, when not all of it\<close>

definition content_at :: "string \<Rightarrow> fs \<Rightarrow> u8 list" where
  "content_at p fs = (case fs p of Some (Regular b) \<Rightarrow> b | _ \<Rightarrow> [])"

text \<open>\<open>fopen(p, "a")\<close>: a missing file is created.\<close>

definition fopen_append :: "log_env \<Rightarrow> string \<Rightarrow> fs \<Rightarrow> bool \<times> fs" where
  "fopen_append V p fs =
     (if \<not> lv_open V p \<or> fs p = Some Nonregular then (False, fs)
      else (True, if fs p = None then fs(p \<mapsto> Regular []) else fs))"

definition backup_path :: "string \<Rightarrow> string" where
  "backup_path path = strncpy_buf 1040 (path @ ''.1'')"

definition remove_file :: "log_env \<Rightarrow> string \<Rightarrow> fs \<Rightarrow> fs" where
  "remove_file V p fs = (if lv_remove V then fs(p := None) else fs)"

definition rename_file :: "log_env \<Rightarrow> string \<Rightarrow> string \<Rightarrow> fs \<Rightarrow> fs" where
  "rename_file V p q fs = (if lv_rename V \<and> fs p \<noteq> None then fs(q := fs p, p := None) else fs)"

definition rotate_if_needed :: "log_env \<Rightarrow> log_state \<times> fs \<Rightarrow> log_state \<times> fs" where
  "rotate_if_needed V = (\<lambda>(g, fs).
     case g_log_fp g of
       None \<Rightarrow> (g, fs)
     | Some fp \<Rightarrow>
         if g_log_path g = [] \<or> length (content_at fp fs) < LOG_MAX_BYTES then (g, fs)
         else let backup = backup_path (g_log_path g);
                  fs1 = rename_file V (g_log_path g) backup (remove_file V backup fs)
              in case fopen_append V (g_log_path g) fs1 of
                   (ok, fs2) \<Rightarrow> (g\<lparr>g_log_fp := (if ok then Some (g_log_path g) else None)\<rparr>, fs2))"

definition log_init :: "log_env \<Rightarrow> string option \<Rightarrow> log_level \<Rightarrow> log_state \<times> fs \<Rightarrow> bool \<times> log_state \<times> fs" where
  "log_init V path level = (\<lambda>(g, fs).
     case path of
       None \<Rightarrow> (True, g\<lparr>g_min_level := level, g_log_fp := None, g_log_path := []\<rparr>, fs)
     | Some p \<Rightarrow>
         (case fopen_append V p fs of
            (ok, fs1) \<Rightarrow> (ok, g\<lparr>g_min_level := level, g_log_fp := (if ok then Some p else None), g_log_path := strncpy_buf 1024 p\<rparr>, fs1)))"

definition log_close :: "log_state \<Rightarrow> log_state" where
  "log_close g = g\<lparr>g_log_fp := None\<rparr>"

text \<open>A call of \<open>log_write\<close> with what it finds.\<close>

record log_call =
  lc_level :: log_level
  lc_file :: string
  lc_function :: "string option"
  lc_line :: nat
  lc_formatted :: string
  lc_timestamp :: string
  lc_pid :: nat
  lc_tid :: nat

text \<open>The message of a call: at most 2047 characters, without line ends at its end.\<close>

definition log_message :: "string \<Rightarrow> string" where
  "log_message formatted = rev (dropWhile (\<lambda>c. c = CHR 0x0A \<or> c = CHR 0x0D) (rev (strncpy_buf 2048 formatted)))"

definition log_line :: "log_call \<Rightarrow> string" where
  "log_line c =
     (let base = (case strrchr (CHR ''/'') (lc_file c) of None \<Rightarrow> lc_file c | Some k \<Rightarrow> drop (Suc k) (lc_file c))
      in lc_timestamp c @ '' ['' @ level_name (lc_level c) @ ''] pid='' @ dec (lc_pid c) @ '' tid='' @ dec (lc_tid c) @ '' '' @ base @ '':'' @
         dec (lc_line c) @ '' '' @ (case lc_function c of None \<Rightarrow> ''?'' | Some f \<Rightarrow> f) @ '': '' @ log_message (lc_formatted c) @ [CHR 0x0A])"

text \<open>What went to \<open>stderr\<close>, and the state with the file system.\<close>

definition log_write :: "log_env \<Rightarrow> log_call \<Rightarrow> log_state \<times> fs \<Rightarrow> string \<times> log_state \<times> fs" where
  "log_write V c = (\<lambda>(g, fs).
     if level_code (lc_level c) < level_code (g_min_level g) then ([], g, fs)
     else case g_log_fp g of
            None \<Rightarrow> (log_line c, g, fs)
          | Some fp \<Rightarrow>
              let bytes = (case lv_reached V of None \<Rightarrow> str_bytes (log_line c) | Some n \<Rightarrow> take n (str_bytes (log_line c)))
              in ([], rotate_if_needed V (g, fs(fp \<mapsto> Regular (content_at fp fs @ bytes)))))"

section \<open>Rotation loses only the old backup\<close>

definition enabled :: "log_state \<Rightarrow> log_call \<Rightarrow> bool" where
  "enabled g c \<longleftrightarrow> level_code (g_min_level g) \<le> level_code (lc_level c)"

definition log_writes :: "(log_env \<times> log_call) list \<Rightarrow> log_state \<times> fs \<Rightarrow> log_state \<times> fs" where
  "log_writes ws gf = fold (\<lambda>(V, c) gf. snd (log_write V c gf)) ws gf"

text \<open>All file operations succeed.\<close>

definition disk_ok :: "log_env \<Rightarrow> string \<Rightarrow> bool" where
  "disk_ok V path \<longleftrightarrow> lv_open V path \<and> lv_remove V \<and> lv_rename V \<and> lv_reached V = None"

text \<open>An open log: the stream is the one of \<open>g_log_path\<close>, below the limit.\<close>

definition log_open :: "string \<Rightarrow> log_level \<Rightarrow> log_state \<times> fs \<Rightarrow> bool" where
  "log_open path level = (\<lambda>(g, fs).
     g_log_fp g = Some path \<and> g_log_path g = path \<and> g_min_level g = level \<and> path \<noteq> [] \<and> length path < 1024 \<and>
     length (content_at path fs) < LOG_MAX_BYTES)"

lemma backup_neq: "length path < 1024 \<Longrightarrow> backup_path path \<noteq> path"
  by (simp add: backup_path_def)

lemma log_write_keeps:
  assumes "log_open path level (g, fs)" and "disk_ok V path" and "log_write V c (g, fs) = (e, g1, fs1)"
  shows "log_open path level (g1, fs1) \<and>
    (\<exists>dropped. dropped @ content_at (backup_path path) fs1 @ content_at path fs1 =
       content_at (backup_path path) fs @ content_at path fs @ (if enabled g c then str_bytes (log_line c) else [])) \<and>
    (length (content_at (backup_path path) fs1) < LOG_MAX_BYTES + length (log_line c) \<or>
     content_at (backup_path path) fs1 = content_at (backup_path path) fs) \<and>
    (\<forall>q. q \<noteq> path \<and> q \<noteq> backup_path path \<longrightarrow> fs1 q = fs q)"
proof -
  have o: "g_log_fp g = Some path" "g_log_path g = path" "g_min_level g = level" "path \<noteq> []" "length path < 1024"
    "length (content_at path fs) < LOG_MAX_BYTES" using assms(1) by (simp_all add: log_open_def)
  have ne: "backup_path path \<noteq> path" by (rule backup_neq) (rule o(5))
  show ?thesis
  proof (cases "enabled g c")
    case False
    then have "g1 = g" "fs1 = fs" using assms(3) by (simp_all add: log_write_def enabled_def)
    then show ?thesis using assms(1) False by auto
  next
    case True
    let ?new = "content_at path fs @ str_bytes (log_line c)" and ?f = "fs(path \<mapsto> Regular (content_at path fs @ str_bytes (log_line c)))"
    have r: "rotate_if_needed V (g, ?f) = (g1, fs1)"
      using assms(2,3) True o(1) by (simp add: log_write_def enabled_def disk_ok_def)
    have c: "content_at path ?f = ?new" "content_at (backup_path path) ?f = content_at (backup_path path) fs"
      using ne by (simp_all add: content_at_def)
    show ?thesis
    proof (cases "length ?new < LOG_MAX_BYTES")
      case True
      then have e: "g1 = g" "fs1 = ?f" using r o c(1) by (simp_all add: rotate_if_needed_def)
      have "log_open path level (g1, fs1)" using True o c(1) unfolding e by (simp add: log_open_def)
      then show ?thesis using \<open>enabled g c\<close> c unfolding e by auto
    next
      case False
      have e: "g1 = g\<lparr>g_log_fp := Some path\<rparr>" "fs1 = ?f(backup_path path \<mapsto> Regular ?new, path \<mapsto> Regular [])"
        using r o assms(2) False c(1) ne
        by (auto simp: rotate_if_needed_def rename_file_def remove_file_def fopen_append_def disk_ok_def Let_def fun_eq_iff)
      have d: "content_at path fs1 = []" "content_at (backup_path path) fs1 = ?new" using ne by (simp_all add: e(2) content_at_def)
      then have "log_open path level (g1, fs1)" using o unfolding e(1) by (simp add: log_open_def LOG_MAX_BYTES_def)
      moreover have "length ?new < LOG_MAX_BYTES + length (log_line c)" using o(6) by simp
      ultimately show ?thesis using \<open>enabled g c\<close> d by (auto simp: e(2))
    qed
  qed
qed

lemma log_writes_keep:
  assumes "log_open path level (g, fs)" and "\<forall>(V, c)\<in>set ws. disk_ok V path \<and> length (log_line c) \<le> B"
    and "log_writes ws (g, fs) = (g1, fs1)" and "length (content_at (backup_path path) fs) < LOG_MAX_BYTES + B"
  shows "log_open path level (g1, fs1) \<and>
    (\<exists>dropped. dropped @ content_at (backup_path path) fs1 @ content_at path fs1 =
       content_at (backup_path path) fs @ content_at path fs @ concat (map (\<lambda>(V, c). str_bytes (log_line c)) (filter (\<lambda>(V, c). enabled g c) ws))) \<and>
    length (content_at (backup_path path) fs1) < LOG_MAX_BYTES + B \<and>
    (\<forall>q. q \<noteq> path \<and> q \<noteq> backup_path path \<longrightarrow> fs1 q = fs q)"
  using assms
proof (induction ws arbitrary: g fs)
  case Nil
  then show ?case by (auto simp: log_writes_def)
next
  case (Cons w ws)
  obtain V c where w: "w = (V, c)" by (cases w) auto
  have ok: "disk_ok V path" "length (log_line c) \<le> B" using Cons.prems(2) w by auto
  obtain e g2 fs2 where f: "log_write V c (g, fs) = (e, g2, fs2)" by (metis prod.exhaust)
  from log_write_keeps [OF Cons.prems(1) ok(1) f] obtain d1 where
    s: "log_open path level (g2, fs2)" "d1 @ content_at (backup_path path) fs2 @ content_at path fs2 =
      content_at (backup_path path) fs @ content_at path fs @ (if enabled g c then str_bytes (log_line c) else [])"
      "length (content_at (backup_path path) fs2) < LOG_MAX_BYTES + length (log_line c) \<or>
       content_at (backup_path path) fs2 = content_at (backup_path path) fs"
      "\<forall>q. q \<noteq> path \<and> q \<noteq> backup_path path \<longrightarrow> fs2 q = fs q" by auto
  have lv: "enabled g2 = enabled g" using s(1) Cons.prems(1) by (auto simp: enabled_def log_open_def)
  have n: "log_writes ws (g2, fs2) = (g1, fs1)" "length (content_at (backup_path path) fs2) < LOG_MAX_BYTES + B"
    using Cons.prems(3,4) f w s(3) ok(2) by (auto simp: log_writes_def)
  have "\<forall>(V, c)\<in>set ws. disk_ok V path \<and> length (log_line c) \<le> B" using Cons.prems(2) by simp
  note ih = Cons.IH [OF s(1) this n, unfolded lv]
  then obtain d2 where r: "log_open path level (g1, fs1)" "d2 @ content_at (backup_path path) fs1 @ content_at path fs1 =
      content_at (backup_path path) fs2 @ content_at path fs2 @ concat (map (\<lambda>(V, c). str_bytes (log_line c)) (filter (\<lambda>(V, c). enabled g c) ws))"
      "length (content_at (backup_path path) fs1) < LOG_MAX_BYTES + B" "\<forall>q. q \<noteq> path \<and> q \<noteq> backup_path path \<longrightarrow> fs1 q = fs2 q"
    by blast
  let ?L = "concat (map (\<lambda>(V, c). str_bytes (log_line c)) (filter (\<lambda>(V, c). enabled g c) ws))"
  have "(d1 @ d2) @ content_at (backup_path path) fs1 @ content_at path fs1 = d1 @ (content_at (backup_path path) fs2 @ content_at path fs2 @ ?L)"
    unfolding append_assoc r(2) ..
  also have "\<dots> = (d1 @ content_at (backup_path path) fs2 @ content_at path fs2) @ ?L" by (simp only: append_assoc)
  also have "\<dots> = content_at (backup_path path) fs @ content_at path fs @
      concat (map (\<lambda>(V, c). str_bytes (log_line c)) (filter (\<lambda>(V, c). enabled g c) (w # ws)))"
    unfolding s(2) w by simp
  finally have "\<exists>dropped. dropped @ content_at (backup_path path) fs1 @ content_at path fs1 = content_at (backup_path path) fs @ content_at path fs @
      concat (map (\<lambda>(V, c). str_bytes (log_line c)) (filter (\<lambda>(V, c). enabled g c) (w # ws)))" ..
  then show ?case using r s(4) by auto
qed


definition demo_log_env :: log_env where
  "demo_log_env = \<lparr>lv_open = (\<lambda>_. True), lv_remove = True, lv_rename = True, lv_reached = None\<rparr>"

definition demo_call :: log_call where
  "demo_call = \<lparr>lc_level = LOG_WARN, lc_file = ''src/a.c'', lc_function = None, lc_line = 7, lc_formatted = ''x'', lc_timestamp = ''t'', lc_pid = 1, lc_tid = 2\<rparr>"


end
