(* ===== verification/Gui_Dialogs.thy ===== *)
theory Gui_Dialogs
  imports Gui_Safety Config Cli
begin

text \<open>
  \<open>src/gui/gui_nuklear.c\<close>, the dialogs and buttons of the main window: the settings dialog, the add dialog,
  the menu of a row, the toolbar, the selection of rows, what a frame computes before it draws, and the
  start and end of the window. Only what the code decides is modelled: what the user typed and pressed in
  a frame (at most one button) is an input, as are the answers of SDL and of the disk.
\<close>

definition GUI_FOLDER_CAP :: nat where
  "GUI_FOLDER_CAP = 1024"

text \<open>The part of \<open>UiState\<close> the dialogs use, beside the part \<^typ>\<open>ui_state\<close> that the events change.\<close>

record window =
  wn_ui :: ui_state
  wn_add_open :: bool
  wn_settings_open :: bool
  wn_details_open :: bool
  wn_advanced :: bool
  wn_menu_just_opened :: bool
  wn_menu_id :: u32
  wn_settings_message :: string
  wn_url :: string
  wn_folder :: string
  wn_cookie :: string
  wn_referrer :: string
  wn_headers :: string
  wn_sha256 :: string
  wn_speed_limit :: int
  wn_directory :: string
  wn_concurrent :: int
  wn_attempts :: int
  wn_base_delay :: int
  wn_max_delay :: int
  wn_global_speed :: int
  wn_numbers :: "string list"
  wn_disk :: "(u64 \<times> u64) option"
  wn_disk_checked_at :: u32

definition set_error :: "string \<Rightarrow> window \<Rightarrow> window" where
  "set_error message w = w\<lparr>wn_ui := (wn_ui w)\<lparr>ui_error := message\<rparr>\<rparr>"

definition window_report :: "bool \<Rightarrow> window \<Rightarrow> window" where
  "window_report ok w = w\<lparr>wn_ui := report_enqueue ok (wn_ui w)\<rparr>"

section \<open>Settings\<close>

definition int_text :: "int \<Rightarrow> string" where
  "int_text v = (if v < 0 then ''-'' @ dec (nat (- v)) else dec (nat v))"

definition open_settings :: "config_state \<Rightarrow> window \<Rightarrow> window" where
  "open_settings c w =
     (let speed = (if g_max_speed_bps c > 1000000000 then 1000000000 else uint (g_max_speed_bps c));
          values = [g_max_concurrent c, g_retry_max_attempts c, g_retry_base_delay_sec c, g_retry_max_delay_sec c, speed]
      in w\<lparr>wn_directory := strncpy_buf GUI_FOLDER_CAP (g_default_dir c), wn_concurrent := g_max_concurrent c,
           wn_attempts := g_retry_max_attempts c, wn_base_delay := g_retry_base_delay_sec c,
           wn_max_delay := g_retry_max_delay_sec c, wn_global_speed := speed,
           wn_numbers := map (\<lambda>v. strncpy_buf 16 (int_text v)) values @ drop 5 (wn_numbers w),
           wn_settings_message := [], wn_settings_open := True, wn_menu_id := 0\<rparr>)"

definition parse_number :: "string \<Rightarrow> int \<Rightarrow> int \<Rightarrow> int option" where
  "parse_number s lo hi =
     (case strtol s of
        None \<Rightarrow> None
      | Some (v, rest) \<Rightarrow> if s = [] \<or> rest \<noteq> [] \<or> v < lo \<or> v > hi then None else Some v)"

text \<open>The \<open>&&\<close> chain: each field that is read is stored, up to the first that is refused.\<close>

definition parse_settings :: "window \<Rightarrow> bool \<times> window" where
  "parse_settings w =
     (case parse_number (wn_numbers w ! 0) 1 64 of
        None \<Rightarrow> (False, w)
      | Some concurrent \<Rightarrow>
     (case parse_number (wn_numbers w ! 1) 0 100 of
        None \<Rightarrow> (False, w\<lparr>wn_concurrent := concurrent\<rparr>)
      | Some attempts \<Rightarrow>
     (case parse_number (wn_numbers w ! 2) 1 3600 of
        None \<Rightarrow> (False, w\<lparr>wn_concurrent := concurrent, wn_attempts := attempts\<rparr>)
      | Some base_delay \<Rightarrow>
     (case parse_number (wn_numbers w ! 3) 1 86400 of
        None \<Rightarrow> (False, w\<lparr>wn_concurrent := concurrent, wn_attempts := attempts, wn_base_delay := base_delay\<rparr>)
      | Some max_delay \<Rightarrow>
     (case parse_number (wn_numbers w ! 4) 0 1000000000 of
        None \<Rightarrow> (False, w\<lparr>wn_concurrent := concurrent, wn_attempts := attempts, wn_base_delay := base_delay, wn_max_delay := max_delay\<rparr>)
      | Some speed \<Rightarrow>
          (True, w\<lparr>wn_concurrent := concurrent, wn_attempts := attempts, wn_base_delay := base_delay, wn_max_delay := max_delay,
                    wn_global_speed := speed\<rparr>))))))"

definition settings_of :: "window \<Rightarrow> config_state" where
  "settings_of w =
     \<lparr>g_max_concurrent = wn_concurrent w, g_default_dir = wn_directory w, g_retry_max_attempts = wn_attempts w,
      g_retry_base_delay_sec = wn_base_delay w, g_retry_max_delay_sec = wn_max_delay w, g_max_speed_bps = word_of_int (wn_global_speed w)\<rparr>"

text \<open>What saving meets: the TOML parser, the kernel and how much of the text reaches the disk when the write fails.\<close>

record save_env =
  sv_parse :: "inode \<Rightarrow> toml_datum option"
  sv_kernel :: kernel
  sv_reached :: nat

definition save_settings :: "save_env \<Rightarrow> window \<Rightarrow> config_state \<Rightarrow> fs \<Rightarrow> gui_client \<Rightarrow> window \<times> config_state \<times> fs \<times> gui_client" where
  "save_settings V w0 c0 fs0 client =
     (case parse_settings w0 of
        (valid, w) \<Rightarrow>
          if \<not> valid then (w\<lparr>wn_settings_message := ''Invalid number. Check the allowed range in each field.''\<rparr>, c0, fs0, client)
          else (case config_save (sv_parse V) (sv_kernel V) (sv_reached V) (settings_of w) c0 fs0 of
                  (saved, c1, fs1) \<Rightarrow>
                    if \<not> saved then (w\<lparr>wn_settings_message := ''Could not save or apply settings''\<rparr>, c1, fs1, client)
                    else (case gui_client_reload_config client of
                            (applied, client1) \<Rightarrow>
                              if applied
                              then (w\<lparr>wn_folder := strncpy_buf GUI_FOLDER_CAP (wn_directory w), wn_disk_checked_at := 0xFFFFFFFF,
                                      wn_settings_open := False\<rparr>, c1, fs1, client1)
                              else (w\<lparr>wn_settings_message := ''Could not save or apply settings''\<rparr>, c1, fs1, client1))))"

datatype settings_click = SettingsNone | SettingsClose | SettingsBrowse "string option" | SettingsCancel | SettingsSave

definition draw_settings ::
  "save_env \<Rightarrow> string \<Rightarrow> string list \<Rightarrow> settings_click \<Rightarrow> window \<Rightarrow> config_state \<Rightarrow> fs \<Rightarrow> gui_client \<Rightarrow> window \<times> config_state \<times> fs \<times> gui_client" where
  "draw_settings V directory numbers click w0 c fs client =
     (let w = w0\<lparr>wn_directory := strncpy_buf GUI_FOLDER_CAP directory,
                  wn_numbers := map (strncpy_buf 16) (take 5 numbers) @ drop 5 (wn_numbers w0)\<rparr>
      in case click of
           SettingsNone \<Rightarrow> (w, c, fs, client)
         | SettingsClose \<Rightarrow> (w\<lparr>wn_settings_open := False\<rparr>, c, fs, client)
         | SettingsBrowse None \<Rightarrow> (w, c, fs, client)
         | SettingsBrowse (Some chosen) \<Rightarrow> (w\<lparr>wn_directory := strncpy_buf GUI_FOLDER_CAP chosen\<rparr>, c, fs, client)
         | SettingsCancel \<Rightarrow> (w\<lparr>wn_settings_open := False\<rparr>, c, fs, client)
         | SettingsSave \<Rightarrow> save_settings V w c fs client)"

section \<open>Adding a download\<close>

definition submit_add :: "kernel \<Rightarrow> fs \<Rightarrow> window \<Rightarrow> gui_command ring \<Rightarrow> window \<times> gui_command ring" where
  "submit_add K fs w q =
     (if wn_url w = [] \<or> wn_folder w = [] then (set_error ''Enter a URL and destination folder.'' w, q)
      else case parse_number (wn_numbers w ! 5) 0 1000000000 of
             None \<Rightarrow> (set_error ''Speed limit must be between 0 and 1000000000.'' w, q)
           | Some limit \<Rightarrow>
               (case add_download K fs (wn_url w) (wn_folder w) (wn_cookie w) (wn_referrer w) (wn_headers w) (wn_sha256 w) (word_of_int limit) q of
                  (ok, q1) \<Rightarrow>
                    if ok
                    then (set_error [] (w\<lparr>wn_add_open := False, wn_url := [], wn_folder := [], wn_cookie := [], wn_referrer := [], wn_headers := [],
                            wn_sha256 := [], wn_speed_limit := 0, wn_numbers := (wn_numbers w)[5 := ''0''], wn_advanced := False\<rparr>), q1)
                    else (set_error ''Could not prepare or enqueue the download.'' (w\<lparr>wn_speed_limit := limit\<rparr>), q1)))"

record add_input =
  ai_url :: string
  ai_folder :: string
  ai_cookie :: string
  ai_referrer :: string
  ai_headers :: string
  ai_sha256 :: string
  ai_number :: string

datatype add_click = AddNone | AddClose | AddChoose "string option" | AddAdvanced | AddCancel | AddSubmit

text \<open>The advanced fields are edited only while they are shown.\<close>

definition edit_add :: "add_input \<Rightarrow> bool \<Rightarrow> window \<Rightarrow> window" where
  "edit_add inp advanced w =
     (let w1 = w\<lparr>wn_url := strncpy_buf 2048 (ai_url inp), wn_folder := strncpy_buf GUI_FOLDER_CAP (ai_folder inp)\<rparr>
      in if \<not> advanced then w1
         else w1\<lparr>wn_cookie := strncpy_buf 1024 (ai_cookie inp), wn_referrer := strncpy_buf 2048 (ai_referrer inp),
                 wn_headers := strncpy_buf 4096 (ai_headers inp), wn_sha256 := strncpy_buf 65 (ai_sha256 inp),
                 wn_numbers := (wn_numbers w)[5 := strncpy_buf 16 (ai_number inp)]\<rparr>)"

definition draw_add :: "kernel \<Rightarrow> fs \<Rightarrow> add_input \<Rightarrow> add_click \<Rightarrow> window \<Rightarrow> gui_command ring \<Rightarrow> window \<times> gui_command ring" where
  "draw_add K fs inp click w0 q =
     (let advanced = (if click = AddAdvanced then \<not> wn_advanced w0 else wn_advanced w0);
          w = edit_add inp advanced (w0\<lparr>wn_advanced := advanced\<rparr>)
      in case click of
           AddNone \<Rightarrow> (w, q)
         | AddClose \<Rightarrow> (w\<lparr>wn_add_open := False\<rparr>, q)
         | AddChoose None \<Rightarrow> (w, q)
         | AddChoose (Some chosen) \<Rightarrow> (w\<lparr>wn_folder := strncpy_buf GUI_FOLDER_CAP chosen\<rparr>, q)
         | AddAdvanced \<Rightarrow> (w, q)
         | AddCancel \<Rightarrow> (w\<lparr>wn_add_open := False\<rparr>, q)
         | AddSubmit \<Rightarrow> submit_add K fs w q)"

section \<open>Rows, menu and toolbar\<close>

definition show_details :: "u32 \<Rightarrow> window \<Rightarrow> gui_command ring \<Rightarrow> window \<times> gui_command ring" where
  "show_details i w q =
     (case gui_controller_enqueue_details i q of
        (ok, q1) \<Rightarrow>
          (window_report ok (w\<lparr>wn_ui := (wn_ui w)\<lparr>ui_selected_id := i, ui_details_found := False\<rparr>, wn_details_open := True\<rparr>), q1))"

text \<open>\<open>SDL_OpenURL\<close> and \<open>SDL_SetClipboardText\<close>: \<open>None\<close>, or the message of the error.\<close>

record sdl_env =
  sd_open :: "string \<Rightarrow> string option"
  sd_clipboard :: "string \<Rightarrow> string option"

definition window_open_path :: "sdl_env \<Rightarrow> string \<Rightarrow> bool \<Rightarrow> window \<Rightarrow> window" where
  "window_open_path S path folder w =
     (case open_path_uri path folder of
        Inl message \<Rightarrow> set_error message w
      | Inr uri \<Rightarrow> (case sd_open S uri of None \<Rightarrow> w | Some e \<Rightarrow> set_error (''Could not open destination: '' @ take 190 e) w))"

definition window_enqueue :: "bool \<times> gui_command ring \<Rightarrow> window \<Rightarrow> window \<times> gui_command ring" where
  "window_enqueue r w = (window_report (fst r) w, snd r)"

datatype menu_click = MenuNone | MenuFirst | MenuFolder | MenuThird | MenuDetails | MenuLast

text \<open>The entry that is pressed, and whether that closes the menu.\<close>

definition menu_action :: "sdl_env \<Rightarrow> menu_click \<Rightarrow> gui_row \<Rightarrow> window \<Rightarrow> gui_command ring \<Rightarrow> bool \<times> window \<times> gui_command ring" where
  "menu_action S click row w q =
     (case click of
        MenuNone \<Rightarrow> (False, w, q)
      | MenuFirst \<Rightarrow>
          (True,
           if is_status row ''DONE'' then (window_open_path S (le_dest_path row) False w, q)
           else if can_pause row then window_enqueue (gui_controller_enqueue_pause (le_id row) q) w
           else if is_status row ''PAUSED'' then window_enqueue (gui_controller_enqueue_resume (le_id row) q) w
           else window_enqueue (gui_controller_enqueue_add (le_url row) (le_dest_path row) None q) w)
      | MenuFolder \<Rightarrow> (True, window_open_path S (le_dest_path row) True w, q)
      | MenuThird \<Rightarrow>
          (True,
           if is_status row ''DONE'' then window_enqueue (gui_controller_enqueue_add (le_url row) (le_dest_path row) None q) w
           else (case sd_clipboard S (le_url row) of
                   None \<Rightarrow> (w, q)
                 | Some e \<Rightarrow> (set_error (''Could not copy URL: '' @ take 200 e) w, q)))
      | MenuDetails \<Rightarrow> (True, show_details (le_id row) w q)
      | MenuLast \<Rightarrow>
          if can_pause row \<or> is_status row ''PAUSED''
          then (True, window_enqueue (gui_controller_enqueue_cancel (le_id row) q) w)
          else (False, w, q))"

text \<open>\<open>outside\<close>: the left button went down outside the menu; \<open>shown\<close>: \<open>nk_popup_begin\<close> opened it.\<close>

definition draw_menu ::
  "sdl_env \<Rightarrow> bool \<Rightarrow> bool \<Rightarrow> menu_click \<Rightarrow> gui_row list \<Rightarrow> window \<Rightarrow> gui_command ring \<Rightarrow> window \<times> gui_command ring" where
  "draw_menu S outside shown click rows w0 q =
     (case find_row_in rows (wn_menu_id w0) of
        None \<Rightarrow> (w0\<lparr>wn_menu_id := 0\<rparr>, q)
      | Some row \<Rightarrow>
          let w = w0\<lparr>wn_menu_just_opened := False\<rparr>
          in if \<not> wn_menu_just_opened w0 \<and> outside then (w\<lparr>wn_menu_id := 0\<rparr>, q)
             else if \<not> shown then (w\<lparr>wn_menu_id := 0\<rparr>, q)
             else (case menu_action S click row w q of
                     (close, w1, q1) \<Rightarrow> (if close then w1\<lparr>wn_menu_id := 0\<rparr> else w1, q1)))"

datatype tool_click = ToolNone | ToolAdd | ToolCancel | ToolPause | ToolResume | ToolSettings

text \<open>A disabled button reports no click.\<close>

definition draw_toolbar :: "config_state \<Rightarrow> tool_click \<Rightarrow> gui_row list \<Rightarrow> window \<Rightarrow> gui_command ring \<Rightarrow> window \<times> gui_command ring" where
  "draw_toolbar c click rows w q =
     (let selected = find_row_in rows (ui_selected_id (wn_ui w))
      in case click of
           ToolNone \<Rightarrow> (w, q)
         | ToolAdd \<Rightarrow> (w\<lparr>wn_add_open := True\<rparr>, q)
         | ToolCancel \<Rightarrow>
             (case selected of
                Some r \<Rightarrow> if can_pause r \<or> is_status r ''PAUSED'' then window_enqueue (gui_controller_enqueue_cancel (le_id r) q) w else (w, q)
              | None \<Rightarrow> (w, q))
         | ToolPause \<Rightarrow>
             (case selected of
                Some r \<Rightarrow> if can_pause r then window_enqueue (gui_controller_enqueue_pause (le_id r) q) w else (w, q)
              | None \<Rightarrow> (w, q))
         | ToolResume \<Rightarrow>
             (case selected of
                Some r \<Rightarrow> if is_status r ''PAUSED'' then window_enqueue (gui_controller_enqueue_resume (le_id r) q) w else (w, q)
              | None \<Rightarrow> (w, q))
         | ToolSettings \<Rightarrow> (open_settings c w, q))"

text \<open>A click on a row: its menu button or the right button, or the left button.\<close>

definition click_row :: "bool \<Rightarrow> gui_row \<Rightarrow> window \<Rightarrow> window" where
  "click_row menu row w =
     (if wn_settings_open w \<or> wn_add_open w \<or> wn_details_open w \<or> wn_menu_id w \<noteq> 0 then w
      else let w1 = w\<lparr>wn_ui := (wn_ui w)\<lparr>ui_selected_id := le_id row\<rparr>\<rparr>
           in if menu then w1\<lparr>wn_menu_id := (if wn_menu_id w = le_id row then 0 else le_id row), wn_menu_just_opened := True\<rparr> else w1)"

section \<open>A frame\<close>

definition visible_rows :: "ui_state \<Rightarrow> gui_row list" where
  "visible_rows ui = filter (row_matches ui) (gui_model_snapshot_rows GUI_MODEL_MAX_ROWS (ui_rows ui))"

definition category_count :: "gui_row list \<Rightarrow> gui_category \<Rightarrow> nat" where
  "category_count rows c = (if c = CATEGORY_ALL then length rows else length (filter (\<lambda>r. category_for_row r = c) rows))"

definition drop_selection :: "ui_state \<Rightarrow> ui_state" where
  "drop_selection ui =
     (if ui_selected_id ui \<noteq> 0 \<and> find_row_in (visible_rows ui) (ui_selected_id ui) = None then ui\<lparr>ui_selected_id := 0\<rparr> else ui)"

text \<open>\<open>diskspace_get\<close> on the result of \<open>statvfs\<close>: block size, blocks and blocks available.\<close>

definition diskspace_get :: "string \<Rightarrow> (u64 \<times> u64 \<times> u64) option \<Rightarrow> (u64 \<times> u64) option" where
  "diskspace_get path answer =
     (if path = [] then None
      else case answer of
             None \<Rightarrow> None
           | Some (frsize, blocks, bavail) \<Rightarrow>
               if frsize = 0 \<or> blocks = 0 then None
               else if blocks > 0xFFFFFFFFFFFFFFFF div frsize \<or> bavail > 0xFFFFFFFFFFFFFFFF div frsize then None
               else let total_bytes = blocks * frsize; free_bytes = bavail * frsize
                    in Some (total_bytes, if free_bytes > total_bytes then total_bytes else free_bytes))"

definition check_disk :: "u32 \<Rightarrow> string \<Rightarrow> (u64 \<times> u64 \<times> u64) option \<Rightarrow> window \<Rightarrow> window" where
  "check_disk now dir answer w =
     (if wn_disk_checked_at w = 0xFFFFFFFF \<or> now - wn_disk_checked_at w \<ge> 10000
      then w\<lparr>wn_disk := diskspace_get dir answer, wn_disk_checked_at := now\<rparr> else w)"

definition modal_open :: "window \<Rightarrow> bool" where
  "modal_open w \<longleftrightarrow> wn_settings_open w \<or> wn_add_open w \<or> wn_details_open w"

text \<open>Escape or a press outside closes whatever dialog is open.\<close>

definition close_modal :: "bool \<Rightarrow> window \<Rightarrow> window" where
  "close_modal dismiss w =
     (if modal_open w \<and> dismiss then w\<lparr>wn_settings_open := False, wn_add_open := False, wn_details_open := False\<rparr> else w)"

record frame_start =
  fs_now :: u32
  fs_dir :: string
  fs_statvfs :: "(u64 \<times> u64 \<times> u64) option"
  fs_dismiss :: bool

definition begin_frame :: "frame_start \<Rightarrow> gui_controller_event ring \<Rightarrow> window \<Rightarrow> gui_controller_event ring \<times> window" where
  "begin_frame inp q w =
     (case consume_events q (wn_ui w) of
        (q1, ui) \<Rightarrow>
          (q1, close_modal (fs_dismiss inp) (check_disk (fs_now inp) (fs_dir inp) (fs_statvfs inp) (w\<lparr>wn_ui := drop_selection ui\<rparr>))))"

text \<open>\<open>run_gui\<close> up to its loop: \<open>None\<close> is the exit status 1; \<open>backend\<close>: the window could be created.\<close>

definition start_gui :: "gui_env \<Rightarrow> bool \<Rightarrow> gui \<Rightarrow> (gui_row list) option \<times> gui" where
  "start_gui V backend st =
     (case gui_client_connect V (gu_client st) of
        (ok, c1) \<Rightarrow>
          if \<not> ok then (None, st\<lparr>gu_client := c1\<rparr>)
          else (case gui_client_list_all V c1 of
                  (records, c2) \<Rightarrow>
                    let rows = (case records of None \<Rightarrow> gui_model_init | Some rs \<Rightarrow> gui_model_apply_snapshot rs)
                    in if \<not> backend then (None, st\<lparr>gu_client := gui_client_disconnect c2\<rparr>)
                       else (case gui_controller_start V (st\<lparr>gu_client := c2\<rparr>) of
                               (started, st1) \<Rightarrow>
                                 if \<not> started then (None, st1\<lparr>gu_client := gui_client_disconnect (gu_client st1)\<rparr>)
                                 else (Some rows, st1))))"

definition stop_gui :: "gui \<Rightarrow> gui" where
  "stop_gui st = (gui_controller_stop st)\<lparr>gu_client := gui_client_disconnect (gu_client st)\<rparr>"

section \<open>Disk space\<close>

lemma no_overflow: "b \<le> 0xFFFFFFFFFFFFFFFF div (a :: u64) \<Longrightarrow> a \<noteq> 0 \<Longrightarrow> unat (b * a) = unat b * unat a"
proof -
  assume b: "b \<le> 0xFFFFFFFFFFFFFFFF div a" and a: "a \<noteq> 0"
  have "unat b \<le> unat (0xFFFFFFFFFFFFFFFF :: u64) div unat a" using b by (simp add: word_le_nat_alt unat_div_distrib)
  then have "unat b * unat a \<le> unat (0xFFFFFFFFFFFFFFFF :: u64) div unat a * unat a" by (rule mult_le_mono1)
  also have "\<dots> \<le> unat (0xFFFFFFFFFFFFFFFF :: u64)" by (rule div_times_less_eq_dividend)
  finally have "unat b * unat a \<le> 18446744073709551615" by simp
  then show ?thesis by (intro unat_mult_nowrap) simp
qed

text \<open>The sizes do not wrap, and what is free never exceeds the whole.\<close>

lemma diskspace_exact:
  assumes "diskspace_get path (Some (frsize, blocks, bavail)) = Some (total_bytes, free_bytes)"
  shows "unat total_bytes = unat blocks * unat frsize \<and> unat free_bytes = min (unat bavail * unat frsize) (unat total_bytes)"
proof -
  have "frsize \<noteq> 0" "blocks \<le> 0xFFFFFFFFFFFFFFFF div frsize" "bavail \<le> 0xFFFFFFFFFFFFFFFF div frsize"
    and r: "total_bytes = blocks * frsize" "free_bytes = (if bavail * frsize > blocks * frsize then blocks * frsize else bavail * frsize)"
    using assms by (auto simp: diskspace_get_def Let_def not_less split: if_splits)
  then have "unat (blocks * frsize) = unat blocks * unat frsize" "unat (bavail * frsize) = unat bavail * unat frsize"
    using no_overflow by blast+
  then show ?thesis unfolding r by (auto simp: word_less_nat_alt min_def)
qed

section \<open>The settings dialog\<close>

lemma strtol_int_text: "0 \<le> v \<Longrightarrow> v < 2 ^ 63 \<Longrightarrow> strtol (int_text v) = Some (v, [])"
  using strtol_dec [of "nat v"] by (simp add: int_text_def nat_less_iff)

lemma length_dec_le: "n < 10 ^ Suc k \<Longrightarrow> length (dec n) \<le> Suc k"
proof (induction k arbitrary: n)
  case 0
  then show ?case by (subst dec.simps) simp
next
  case (Suc k)
  then have "n div 10 < 10 ^ Suc k" by (simp add: less_mult_imp_div_less)
  from Suc.IH [OF this] show ?case by (subst dec.simps) simp
qed

lemma parse_number_int_text:
  assumes "lo \<le> v" and "v \<le> hi" and "0 \<le> v" and "v \<le> 1000000000"
  shows "parse_number (strncpy_buf 16 (int_text v)) lo hi = Some v"
proof -
  have "nat v < 10 ^ Suc 9" using assms(4) by (simp add: nat_less_iff)
  from length_dec_le [OF this] have "length (int_text v) < 16" using assms(3) by (simp add: int_text_def)
  moreover have "int_text v \<noteq> []" by (simp add: int_text_def)
  ultimately show ?thesis using assms strtol_int_text [of v] by (simp add: parse_number_def)
qed

text \<open>The settings that the texts of the dialog spell.\<close>

definition typed :: "string \<Rightarrow> string list \<Rightarrow> config_state \<Rightarrow> bool" where
  "typed directory numbers c \<longleftrightarrow>
     g_default_dir c = strncpy_buf GUI_FOLDER_CAP directory \<and>
     parse_number (strncpy_buf 16 (numbers ! 0)) 1 64 = Some (g_max_concurrent c) \<and>
     parse_number (strncpy_buf 16 (numbers ! 1)) 0 100 = Some (g_retry_max_attempts c) \<and>
     parse_number (strncpy_buf 16 (numbers ! 2)) 1 3600 = Some (g_retry_base_delay_sec c) \<and>
     parse_number (strncpy_buf 16 (numbers ! 3)) 1 86400 = Some (g_retry_max_delay_sec c) \<and>
     (\<exists>v. parse_number (strncpy_buf 16 (numbers ! 4)) 0 1000000000 = Some v \<and> g_max_speed_bps c = word_of_int v)"

text \<open>Settings the dialog can show and read back.\<close>

definition within_dialog :: "config_state \<Rightarrow> bool" where
  "within_dialog c \<longleftrightarrow> 1 \<le> g_max_concurrent c \<and> g_max_concurrent c \<le> 64 \<and> 0 \<le> g_retry_max_attempts c \<and> g_retry_max_attempts c \<le> 100 \<and>
     1 \<le> g_retry_base_delay_sec c \<and> g_retry_base_delay_sec c \<le> 3600 \<and> 1 \<le> g_retry_max_delay_sec c \<and> g_retry_max_delay_sec c \<le> 86400 \<and>
     g_max_speed_bps c \<le> 1000000000 \<and> length (g_default_dir c) < GUI_FOLDER_CAP"

lemma parse_number_range: "parse_number s lo hi = Some v \<Longrightarrow> lo \<le> v \<and> v \<le> hi"
  by (auto simp: parse_number_def split: option.splits if_splits)

lemma parse_settings_typed:
  assumes "length numbers = 5"
  shows "parse_settings (w\<lparr>wn_directory := strncpy_buf GUI_FOLDER_CAP directory, wn_numbers := map (strncpy_buf 16) numbers @ rest\<rparr>) = (True, w1) \<Longrightarrow>
    typed directory numbers (settings_of w1) \<and> wn_directory w1 = strncpy_buf GUI_FOLDER_CAP directory \<and> wn_settings_open w1 = wn_settings_open w"
proof -
  obtain a b c d e where n: "numbers = [a, b, c, d, e]" using assms by (auto simp: length_Suc_conv eval_nat_numeral)
  assume "parse_settings (w\<lparr>wn_directory := strncpy_buf GUI_FOLDER_CAP directory, wn_numbers := map (strncpy_buf 16) numbers @ rest\<rparr>) = (True, w1)"
  then show ?thesis by (auto simp: n parse_settings_def typed_def settings_of_def split: option.splits)
qed

lemma typed_ok: "typed directory numbers c \<Longrightarrow> config_valid c \<Longrightarrow> config_ok c"
  by (auto simp: typed_def config_valid_def config_ok_def GUI_FOLDER_CAP_def length_strncpy_buf dest!: parse_number_range)

lemma open_settings_typed:
  assumes "within_dialog c" and "typed (wn_directory (open_settings c w)) (take 5 (wn_numbers (open_settings c w))) c'"
  shows "c' = c"
proof -
  have u: "uint (g_max_speed_bps c) \<le> 1000000000" using assms(1) by (simp add: within_dialog_def word_le_def)
  then have s: "\<not> g_max_speed_bps c > 1000000000" by (simp add: word_less_def)
  note p = parse_number_int_text
  have "g_max_concurrent c' = g_max_concurrent c \<and> g_retry_max_attempts c' = g_retry_max_attempts c \<and>
      g_retry_base_delay_sec c' = g_retry_base_delay_sec c \<and> g_retry_max_delay_sec c' = g_retry_max_delay_sec c \<and>
      g_max_speed_bps c' = g_max_speed_bps c \<and> g_default_dir c' = g_default_dir c"
    using assms u s p [of 1 "g_max_concurrent c" 64] p [of 0 "g_retry_max_attempts c" 100] p [of 1 "g_retry_base_delay_sec c" 3600]
      p [of 1 "g_retry_max_delay_sec c" 86400] p [of 0 "uint (g_max_speed_bps c)" 1000000000]
    by (auto simp: typed_def open_settings_def within_dialog_def Let_def eval_nat_numeral)
  then show ?thesis by (intro config_state.equality) simp_all
qed

text \<open>A limit above the largest number of the dialog is lowered by a dialog that is saved untouched.\<close>

lemma untouched_dialog_lowers_limit:
  assumes "g_max_speed_bps c > 1000000000" and "typed (wn_directory (open_settings c w)) (take 5 (wn_numbers (open_settings c w))) c'"
  shows "g_max_speed_bps c' = 1000000000"
  using assms parse_number_int_text [of 0 1000000000 1000000000] by (auto simp: typed_def open_settings_def Let_def eval_nat_numeral)


section \<open>What buttons put into the queue\<close>

definition queued :: "gui_command ring \<Rightarrow> gui_command list" where
  "queued q = map detach (ring_list q)"

lemma enqueue_queued:
  assumes "ring_wf GUI_CONTROLLER_COMMAND_CAP q" and "enqueue_command c q = (b, q')"
  shows "ring_wf GUI_CONTROLLER_COMMAND_CAP q'" and "queued q' = (if b then queued q @ [detach c] else queued q)"
    and "b = (length (queued q) < GUI_CONTROLLER_COMMAND_CAP)"
  using controller_commands.push_refines [OF assms] assms(1) by (auto simp: queued_def list_push_def ring_wf_def split: if_splits)

lemma detach_commands [simp]: "detach (zero_command t i) = zero_command t i" "detach (add_command u d None) = add_command u d None"
  by (simp_all add: detach_def zero_command_def add_command_def)

text \<open>The commands that the status of a row allows.\<close>

definition fits :: "gui_row \<Rightarrow> gui_command \<Rightarrow> bool" where
  "fits r c \<longleftrightarrow>
     c = zero_command GUI_CONTROLLER_COMMAND_PAUSE (le_id r) \<and> can_pause r \<or>
     c = zero_command GUI_CONTROLLER_COMMAND_RESUME (le_id r) \<and> is_status r ''PAUSED'' \<or>
     c = zero_command GUI_CONTROLLER_COMMAND_CANCEL (le_id r) \<and> (can_pause r \<or> is_status r ''PAUSED'') \<or>
     c = zero_command GUI_CONTROLLER_COMMAND_DETAILS (le_id r) \<or>
     c = add_command (le_url r) (le_dest_path r) None \<and> \<not> can_pause r \<and> \<not> is_status r ''PAUSED''"

text \<open>Nothing, or one fitting command; or the queue was full and the user is told.\<close>

definition one_fitting :: "gui_row list \<Rightarrow> u32 \<Rightarrow> gui_command ring \<Rightarrow> window \<times> gui_command ring \<Rightarrow> bool" where
  "one_fitting rows i q r \<longleftrightarrow>
     (case r of
        (w, q') \<Rightarrow>
          ring_wf GUI_CONTROLLER_COMMAND_CAP q' \<and>
          (q' = q \<or> (\<exists>row c. find_row_in rows i = Some row \<and> fits row c \<and>
             (queued q' = queued q @ [c] \<or> queued q' = queued q \<and> ui_error (wn_ui w) = ''Command queue is full. Please try again.''))))"

lemma enqueue_fits:
  assumes "ring_wf GUI_CONTROLLER_COMMAND_CAP q" and "find_row_in rows i = Some row" and "fits row (detach c)" and "enqueue_command c q = (b, q')"
    and "\<not> b \<Longrightarrow> ui_error (wn_ui w) = ''Command queue is full. Please try again.''"
  shows "one_fitting rows i q (w, q')"
  using enqueue_queued [OF assms(1,4)] assms(2,3,5) by (auto simp: one_fitting_def split: if_splits)

lemma window_enqueue_fits:
  assumes "ring_wf GUI_CONTROLLER_COMMAND_CAP q" and "find_row_in rows i = Some row" and "fits row (detach c)"
  shows "one_fitting rows i q (window_enqueue (enqueue_command c q) w)"
  unfolding window_enqueue_def
  by (rule enqueue_fits [OF assms, of "fst (enqueue_command c q)"]) (simp_all add: window_report_def report_enqueue_def)

lemma one_fitting_same: "ring_wf GUI_CONTROLLER_COMMAND_CAP q \<Longrightarrow> one_fitting rows i q (w, q)"
  by (simp add: one_fitting_def)

lemma one_fitting_window: "one_fitting rows i q (w, q') \<Longrightarrow> ui_error (wn_ui w') = ui_error (wn_ui w) \<Longrightarrow> one_fitting rows i q (w', q')"
  by (auto simp: one_fitting_def)

lemma details_fits:
  assumes "ring_wf GUI_CONTROLLER_COMMAND_CAP q" and "find_row_in rows i = Some row"
  shows "one_fitting rows i q (show_details (le_id row) w q)"
proof -
  obtain b q1 where e: "enqueue_command (zero_command GUI_CONTROLLER_COMMAND_DETAILS (le_id row)) q = (b, q1)" by fastforce
  show ?thesis unfolding show_details_def gui_controller_enqueue_details_def enqueue_id_command_def e prod.case
    by (rule enqueue_fits [OF assms _ e]) (simp_all add: fits_def window_report_def report_enqueue_def)
qed

lemmas enqueue_defs = gui_controller_enqueue_pause_def gui_controller_enqueue_resume_def gui_controller_enqueue_cancel_def
  gui_controller_enqueue_add_def enqueue_id_command_def

lemma menu_action_fits:
  assumes "ring_wf GUI_CONTROLLER_COMMAND_CAP q" and "find_row_in rows i = Some row"
  shows "one_fitting rows i q (snd (menu_action S click row w q))"
proof -
  note f = window_enqueue_fits [OF assms] details_fits [OF assms] one_fitting_same [OF assms(1), of rows i]
  show ?thesis
  proof (cases click)
    case MenuFirst
    then show ?thesis by (auto simp: menu_action_def enqueue_defs fits_def is_status_def can_pause_def intro!: f)
  next
    case MenuThird
    then show ?thesis by (auto simp: menu_action_def enqueue_defs fits_def is_status_def can_pause_def intro!: f split: option.splits)
  next
    case MenuLast
    then show ?thesis by (auto simp: menu_action_def enqueue_defs fits_def intro!: f)
  qed (auto simp: menu_action_def intro!: f)
qed

text \<open>
  Buttons respect the state of a download. Whatever is pressed in the menu of a row or in the toolbar,
  at most one command is queued, it is for the row of the menu or the selected row, and it is one its
  status allows: pausing only what runs or waits, resuming only what is paused, cancelling only what is
  unfinished, downloading again only what has ended. A full queue is reported to the user.
\<close>

lemma buttons_respect_the_status:
  assumes "ring_wf GUI_CONTROLLER_COMMAND_CAP q"
  shows "one_fitting rows (wn_menu_id w) q (draw_menu S outside shown click rows w q) \<and>
    one_fitting rows (ui_selected_id (wn_ui w)) q (draw_toolbar c tool rows w q)"
proof
  show "one_fitting rows (wn_menu_id w) q (draw_menu S outside shown click rows w q)"
  proof (cases "find_row_in rows (wn_menu_id w)")
    case None
    then show ?thesis using one_fitting_same [OF assms] by (simp add: draw_menu_def)
  next
    case (Some row)
    let ?w = "w\<lparr>wn_menu_just_opened := False\<rparr>"
    obtain close w1 q1 where m: "menu_action S click row ?w q = (close, w1, q1)" by (metis prod.exhaust)
    have "one_fitting rows (wn_menu_id w) q (w1, q1)" using menu_action_fits [OF assms Some, of S click ?w] m by simp
    then show ?thesis using Some m one_fitting_same [OF assms] one_fitting_window [of rows "wn_menu_id w" q w1 q1 "w1\<lparr>wn_menu_id := 0\<rparr>"]
      by (simp add: draw_menu_def Let_def)
  qed
  show "one_fitting rows (ui_selected_id (wn_ui w)) q (draw_toolbar c tool rows w q)"
    using window_enqueue_fits [OF assms, of rows "ui_selected_id (wn_ui w)"] one_fitting_same [OF assms]
    by (cases tool) (auto simp: draw_toolbar_def enqueue_defs fits_def split: option.splits)
qed

text \<open>
  Submitting the add dialog is all or nothing: it closes exactly when one command for the URL and a free
  path is queued; otherwise nothing is queued, everything that was typed is kept and an error is shown.
\<close>

lemma add_dialog_all_or_nothing:
  assumes "ring_wf GUI_CONTROLLER_COMMAND_CAP q" and "submit_add K fs w q = (w1, q1)" and "wn_add_open w"
  shows "\<not> wn_add_open w1 \<and> ui_error (wn_ui w1) = [] \<and>
      (\<exists>dest opts. \<not> path_exists K fs dest \<and> queued q1 = queued q @ [detach (add_command (wn_url w) dest opts)]) \<or>
    wn_add_open w1 \<and> ui_error (wn_ui w1) \<noteq> [] \<and> queued q1 = queued q \<and>
      w1 = w\<lparr>wn_ui := wn_ui w1, wn_speed_limit := wn_speed_limit w1\<rparr>"
proof (cases "wn_url w = [] \<or> wn_folder w = [] \<or> parse_number (wn_numbers w ! 5) 0 1000000000 = None")
  case True
  then show ?thesis using assms(2,3) by (auto simp: submit_add_def set_error_def split: if_splits)
next
  case False
  then obtain limit where l: "parse_number (wn_numbers w ! 5) 0 1000000000 = Some limit" by auto
  obtain ok q2 where a: "add_download K fs (wn_url w) (wn_folder w) (wn_cookie w) (wn_referrer w) (wn_headers w) (wn_sha256 w) (word_of_int limit) q = (ok, q2)"
    by fastforce
  have "q2 = q \<and> \<not> ok \<or> (\<exists>dest opts. \<not> path_exists K fs dest \<and> enqueue_command (add_command (wn_url w) dest opts) q = (ok, q2))"
    using a path_make_unique_fresh(1) by (fastforce simp: add_download_def gui_controller_enqueue_add_def Let_def split: option.splits)
  then have "(if ok then \<exists>dest opts. \<not> path_exists K fs dest \<and> queued q2 = queued q @ [detach (add_command (wn_url w) dest opts)] else queued q2 = queued q)"
    using enqueue_queued(2) [OF assms(1)] by (cases ok) fastforce+
  then show ?thesis using assms(2,3) False l a by (auto simp: submit_add_def set_error_def split: if_splits)
qed

definition demo_window :: window where
  "demo_window = \<lparr>wn_ui = gs_ui demo_system, wn_add_open = False, wn_settings_open = True, wn_details_open = False, wn_advanced = False,
     wn_menu_just_opened = False, wn_menu_id = 3, wn_settings_message = [], wn_url = [], wn_folder = [], wn_cookie = [], wn_referrer = [],
     wn_headers = [], wn_sha256 = [], wn_speed_limit = 0, wn_directory = [], wn_concurrent = 0, wn_attempts = 0, wn_base_delay = 0,
     wn_max_delay = 0, wn_global_speed = 0, wn_numbers = replicate 6 ''0'', wn_disk = None, wn_disk_checked_at = 0\<rparr>"

definition demo_row :: gui_row where
  "demo_row = \<lparr>le_id = 3, le_url = ''u'', le_dest_path = ''/d'', le_status = ''ACTIVE'', le_progress = 0\<rparr>"

definition demo_settings :: config_state where
  "demo_settings = \<lparr>g_max_concurrent = 1, g_default_dir = ''/h/d'', g_retry_max_attempts = 0, g_retry_base_delay_sec = 1,
     g_retry_max_delay_sec = 1, g_max_speed_bps = 0\<rparr>"

definition demo_save :: save_env where
  "demo_save = \<lparr>sv_parse = (\<lambda>i. if i = Regular (str_bytes (config_text demo_settings)) then Some (config_doc demo_settings) else None),
     sv_kernel = good_kernel\<lparr>k_getenv := (\<lambda>_. Some ''/h'')\<rparr>, sv_reached = 0\<rparr>"


end
