(* ===== verification/Gui_Frame.thy ===== *)
theory Gui_Frame
  imports Gui_Dialogs
begin

text \<open>
  \<open>src/gui/gui_nuklear.c\<close>, a whole frame of the main window: how a label is shortened, what a row, the
  side bar, the details and the completion notice show, and the order in which \<open>run_gui\<close> lets the parts
  of the window act. A session is any sequence of such frames, interleaved with the two other threads of
  the process. Pixels of text come from the font, which is a parameter; colours are triples.
\<close>

definition GUI_SEARCH_CAP :: nat where
  "GUI_SEARCH_CAP = 256"

type_synonym colour = "nat \<times> nat \<times> nat"

section \<open>Labels\<close>

text \<open>A byte that continues a UTF-8 character.\<close>

definition continues :: "char \<Rightarrow> bool" where
  "continues c \<longleftrightarrow> 128 \<le> (of_char c :: nat) \<and> (of_char c :: nat) < 192"

fun to_boundary :: "string \<Rightarrow> nat \<Rightarrow> nat" where
  "to_boundary s 0 = 0"
| "to_boundary s (Suc n) = (if continues (s ! Suc n) then to_boundary s n else Suc n)"

lemma to_boundary_le: "to_boundary s n \<le> n"
  by (induction n) auto

text \<open>The loop that takes characters off the end while the text is wider than the room left beside the dots.\<close>

function shorten :: "(string \<Rightarrow> rat) \<Rightarrow> rat \<Rightarrow> string \<Rightarrow> nat \<Rightarrow> nat" where
  "shorten font_width room s len =
     (if len > 0 \<and> font_width (take len s) > room then shorten font_width room s (to_boundary s (len - 1)) else len)"
  by pat_completeness auto
termination
proof (relation "measure (\<lambda>(font_width, room, s, len). len)")
  fix font_width :: "string \<Rightarrow> rat" and room s len
  assume "len > 0 \<and> font_width (take len s) > room"
  then show "((font_width, room, s, to_boundary s (len - 1)), font_width, room, s, len) \<in> measure (\<lambda>(font_width, room, s, len). len)"
    using to_boundary_le [of s "len - 1"] by (cases len) (simp_all add: less_Suc_eq_le)
qed simp

declare shorten.simps [simp del]

definition label_font :: "(string \<Rightarrow> rat) \<Rightarrow> rat \<Rightarrow> string \<Rightarrow> string" where
  "label_font font_width w s =
     (let body = strncpy_buf 2048 s
      in if font_width body > w then take (shorten font_width (w - font_width ''...'') body (length body)) body @ ''...'' else body)"

section \<open>What a row shows\<close>

definition chip_colour :: "string \<Rightarrow> colour" where
  "chip_colour ext =
     (if ext \<in> set [''ZIP'', ''GZ'', ''7Z'', ''TAR''] then (122, 95, 176)
      else if ext \<in> set [''MP4'', ''MKV'', ''WEBM'', ''MP3''] then (192, 85, 63)
      else if ext \<in> set [''EXE'', ''APPI''] then (63, 143, 111)
      else if ext \<in> set [''PNG'', ''JPG'', ''JPEG''] then (176, 135, 61)
      else (61, 127, 176))"

definition file_chip :: "string \<Rightarrow> string \<times> colour" where
  "file_chip filename =
     (let ext = map upper_char (strncpy_buf 5 (case strrchr (CHR ''.'') filename of
                  Some k \<Rightarrow> if drop (Suc k) filename \<noteq> [] then drop (Suc k) filename else ''FILE''
                | None \<Rightarrow> ''FILE''))
      in (ext, chip_colour ext))"

text \<open>The second line: \<open>Completed\<close>, the percentage with \<open>Paused\<close> or the path, or the status with the path.\<close>

datatype row_meta = MetaCompleted | MetaProgress rat string | MetaStatus string string

definition row_progress :: "gui_row \<Rightarrow> bool" where
  "row_progress row \<longleftrightarrow> can_pause row \<or> is_status row ''PAUSED''"

definition row_meta_of :: "gui_row \<Rightarrow> row_meta" where
  "row_meta_of row =
     (if is_status row ''DONE'' then MetaCompleted
      else if row_progress row
      then MetaProgress (le_progress row * 100) (if is_status row ''PAUSED'' then ''Paused'' else le_dest_path row)
      else MetaStatus (le_status row) (le_dest_path row))"

text \<open>The filled part of the bar of 150 pixels.\<close>

definition row_bar :: "gui_row \<Rightarrow> rat option" where
  "row_bar row =
     (if row_progress row
      then (let pct = (if le_progress row < 0 then 0 else if le_progress row > 1 then 1 else le_progress row)
            in if pct > 0 then Some (150 * pct) else None)
      else None)"

definition pill_colour :: "gui_row \<Rightarrow> colour" where
  "pill_colour row =
     (if is_status row ''DONE'' then (63, 143, 95)
      else if is_status row ''PAUSED'' then (184, 130, 63)
      else if is_status row ''ERROR'' \<or> is_status row ''CANCELED'' then (163, 68, 72)
      else (61, 157, 207))"

definition ink_colour :: "gui_row \<Rightarrow> colour" where
  "ink_colour row =
     (if is_status row ''DONE'' then (111, 189, 140)
      else if is_status row ''ERROR'' \<or> is_status row ''CANCELED'' then (224, 132, 136)
      else pill_colour row)"

record row_view =
  rv_height :: nat
  rv_background :: colour
  rv_chip :: "string \<times> colour"
  rv_name :: string
  rv_meta :: row_meta
  rv_bar :: "rat option"
  rv_pill :: "string \<times> colour \<times> colour"

definition view_row :: "bool \<Rightarrow> u32 \<Rightarrow> gui_row \<Rightarrow> row_view" where
  "view_row hovered selected row =
     \<lparr>rv_height = (if row_progress row then 69 else 59),
      rv_background = (if selected = le_id row then (22, 30, 44) else if hovered then (17, 23, 34) else (11, 15, 20)),
      rv_chip = file_chip (filename_for_row row), rv_name = filename_for_row row, rv_meta = row_meta_of row,
      rv_bar = row_bar row, rv_pill = (le_status row, pill_colour row, ink_colour row)\<rparr>"

datatype row_click = RowNone | RowMenu | RowSelect

definition act_on_row :: "row_click \<Rightarrow> gui_row \<Rightarrow> window \<Rightarrow> window" where
  "act_on_row click row w =
     (case click of RowNone \<Rightarrow> w | RowMenu \<Rightarrow> click_row True row w | RowSelect \<Rightarrow> click_row False row w)"

text \<open>The loop over the visible rows, with what the mouse did to each (hovering, clicking).\<close>

fun draw_rows :: "(bool \<times> row_click) list \<Rightarrow> gui_row list \<Rightarrow> window \<Rightarrow> row_view list \<times> window" where
  "draw_rows mouse [] w = ([], w)"
| "draw_rows [] (row # rows) w =
     (case draw_rows [] rows w of (vs, w1) \<Rightarrow> (view_row False (ui_selected_id (wn_ui w)) row # vs, w1))"
| "draw_rows ((hovered, click) # mouse) (row # rows) w =
     (case draw_rows mouse rows (act_on_row click row w) of
        (vs, w1) \<Rightarrow> (view_row hovered (ui_selected_id (wn_ui w)) row # vs, w1))"

section \<open>The side bar and the top bar\<close>

datatype chrome_click = ChromeNone | ChromeTab gui_tab | ChromeNew | ChromeCategory gui_category

record chrome_view =
  cv_connection :: string
  cv_search_hint :: bool
  cv_counts :: "nat list"
  cv_storage :: "(rat \<times> rat \<times> u64) option"    \<comment> \<open>used share, width of the bar, free bytes; \<open>None\<close>: unavailable\<close>
  cv_downloads :: nat

definition search_width :: "int \<Rightarrow> int" where
  "search_width width = (if width - 602 > 340 then 340 else width - 602)"

definition rat_of_word :: "u64 \<Rightarrow> rat" where
  "rat_of_word v = of_nat (unat v)"

definition storage_view :: "u64 \<times> u64 \<Rightarrow> rat \<times> rat \<times> u64" where
  "storage_view disk =
     (case disk of
        (total_bytes, free_bytes) \<Rightarrow>
          let used = 1 - rat_of_word free_bytes / rat_of_word total_bytes;
              bar_width = 192 * used
          in (used, if bar_width > 0 \<and> bar_width < 2 then 2 else bar_width, free_bytes))"

definition all_categories :: "gui_category list" where
  "all_categories = [CATEGORY_ALL, CATEGORY_DOCUMENTS, CATEGORY_COMPRESSED, CATEGORY_MUSIC, CATEGORY_VIDEO, CATEGORY_PROGRAMS]"

definition draw_chrome :: "int \<Rightarrow> string \<Rightarrow> chrome_click \<Rightarrow> nat list \<Rightarrow> nat \<Rightarrow> window \<Rightarrow> chrome_view \<times> window" where
  "draw_chrome width typed_search click counts visible_count w0 =
     (let w1 = (case click of ChromeTab t \<Rightarrow> w0\<lparr>wn_ui := (wn_ui w0)\<lparr>ui_tab := t\<rparr>\<rparr> | _ \<Rightarrow> w0);
          shown = (search_width width > 90);
          w2 = (if shown then w1\<lparr>wn_ui := (wn_ui w1)\<lparr>ui_search := strncpy_buf GUI_SEARCH_CAP typed_search\<rparr>\<rparr> else w1);
          w3 = (case click of
                  ChromeNew \<Rightarrow> w2\<lparr>wn_add_open := True\<rparr>
                | ChromeCategory c \<Rightarrow> w2\<lparr>wn_ui := (wn_ui w2)\<lparr>ui_category := c\<rparr>\<rparr>
                | _ \<Rightarrow> w2)
      in (\<lparr>cv_connection = (if ui_connected (wn_ui w0) then ''Connected'' else ''Disconnected''),
           cv_search_hint = (shown \<and> ui_search (wn_ui w2) = []), cv_counts = counts,
           cv_storage = map_option storage_view (wn_disk w0), cv_downloads = visible_count\<rparr>, w3))"

section \<open>Details and the completion notice\<close>

definition draw_details :: "bool \<Rightarrow> window \<Rightarrow> (u32 \<times> request_options) option \<times> window" where
  "draw_details close w =
     (if ui_details_found (wn_ui w) then Some (ui_selected_id (wn_ui w), ui_details (wn_ui w)) else None,
      if close then w\<lparr>wn_details_open := False\<rparr> else w)"

datatype toast_click = ToastNone | ToastClose | ToastOpen | ToastFolder

definition toast_directory :: "string \<Rightarrow> string" where
  "toast_directory path =
     (case strrchr (CHR ''/'') path of None \<Rightarrow> path | Some k \<Rightarrow> take (if k = 0 then 1 else k) path)"

definition draw_toast :: "sdl_env \<Rightarrow> toast_click \<Rightarrow> window \<Rightarrow> (string \<times> string) option \<times> window" where
  "draw_toast S click w =
     (if \<not> ui_toast_open (wn_ui w) then (None, w)
      else let toast = ui_toast (wn_ui w)
           in (Some (filename_for_row toast, toast_directory (strncpy_buf IPC_MAX_PATH_LEN (le_dest_path toast))),
               case click of
                 ToastNone \<Rightarrow> w
               | ToastClose \<Rightarrow> w\<lparr>wn_ui := (wn_ui w)\<lparr>ui_toast_open := False\<rparr>\<rparr>
               | ToastOpen \<Rightarrow> window_open_path S (le_dest_path toast) False w
               | ToastFolder \<Rightarrow> window_open_path S (le_dest_path toast) True w))"

section \<open>A frame\<close>

text \<open>What the user typed and pressed in each part of the window.\<close>

record gui_input =
  gi_start :: frame_start
  gi_shown :: bool                      \<comment> \<open>\<open>nk_begin\<close> of the main window\<close>
  gi_width :: int
  gi_search :: string
  gi_chrome :: chrome_click
  gi_mouse :: "(bool \<times> row_click) list"
  gi_tool :: tool_click
  gi_close_error :: bool
  gi_menu_outside :: bool
  gi_menu_shown :: bool
  gi_menu :: menu_click
  gi_toast :: toast_click
  gi_directory :: string
  gi_numbers :: "string list"
  gi_settings :: settings_click
  gi_add_fields :: add_input
  gi_add :: add_click
  gi_close_details :: bool

record frame_view =
  fv_main :: "(chrome_view \<times> row_view list) option"
  fv_toast :: "(string \<times> string) option"
  fv_details :: "(u32 \<times> request_options) option"

definition clear_error :: "bool \<Rightarrow> window \<Rightarrow> window" where
  "clear_error close w = (if ui_error (wn_ui w) \<noteq> [] \<and> close then set_error [] w else w)"

definition draw_main ::
  "sdl_env \<Rightarrow> config_state \<Rightarrow> gui_input \<Rightarrow> gui_row list \<Rightarrow> nat list \<Rightarrow> bool \<Rightarrow> window \<Rightarrow> gui_command ring \<Rightarrow>
   (chrome_view \<times> row_view list) \<times> window \<times> gui_command ring" where
  "draw_main S c inp visible counts modal w0 q =
     (case draw_chrome (gi_width inp) (gi_search inp) (gi_chrome inp) counts (length visible) w0 of
        (cv, w1) \<Rightarrow>
          (case draw_rows (gi_mouse inp) visible w1 of
             (rvs, w2) \<Rightarrow>
               (case draw_toolbar c (gi_tool inp) visible w2 q of
                  (w3, q1) \<Rightarrow>
                    let w4 = clear_error (gi_close_error inp) w3
                    in ((cv, rvs),
                        if modal then (w4, q1)
                        else draw_menu S (gi_menu_outside inp) (gi_menu_shown inp) (gi_menu inp) visible w4 q1))))"

text \<open>The state of the process while the window is open; the part \<open>gs_ui\<close> of the system is the \<open>wn_ui\<close> of
  the window after the last frame.\<close>

record session =
  se_window :: window
  se_system :: gui_system
  se_config :: config_state
  se_fs :: fs

definition with_commands :: "gui_command ring \<Rightarrow> gui \<Rightarrow> gui" where
  "with_commands q g = g\<lparr>gu_commands := q\<rparr>"

text \<open>The dialog that is open at the end of the frame, in the order of the tests.\<close>

definition draw_dialog :: "save_env \<Rightarrow> gui_input \<Rightarrow> window \<Rightarrow> session \<Rightarrow> (u32 \<times> request_options) option \<times> session" where
  "draw_dialog V inp w s =
     (if wn_settings_open w
      then (case draw_settings V (gi_directory inp) (gi_numbers inp) (gi_settings inp) w (se_config s) (se_fs s) (gu_client (gs_gui (se_system s))) of
              (w1, c1, fs1, client1) \<Rightarrow>
                (None, s\<lparr>se_window := w1, se_config := c1, se_fs := fs1,
                         se_system := (se_system s)\<lparr>gs_gui := (gs_gui (se_system s))\<lparr>gu_client := client1\<rparr>\<rparr>\<rparr>))
      else if wn_add_open w
      then (case draw_add (sv_kernel V) (se_fs s) (gi_add_fields inp) (gi_add inp) w (gu_commands (gs_gui (se_system s))) of
              (w1, q1) \<Rightarrow>
                (None, s\<lparr>se_window := w1, se_system := (se_system s)\<lparr>gs_gui := with_commands q1 (gs_gui (se_system s))\<rparr>\<rparr>))
      else if wn_details_open w
      then (case draw_details (gi_close_details inp) w of (d, w1) \<Rightarrow> (d, s\<lparr>se_window := w1\<rparr>))
      else (None, s\<lparr>se_window := w\<rparr>))"

definition draw_window :: "sdl_env \<Rightarrow> save_env \<Rightarrow> gui_input \<Rightarrow> window \<Rightarrow> session \<Rightarrow> frame_view \<times> session" where
  "draw_window S V inp w s =
     (let visible = visible_rows (wn_ui w);
          counts = map (category_count (gui_model_snapshot_rows GUI_MODEL_MAX_ROWS (ui_rows (wn_ui w)))) all_categories;
          modal = modal_open w
      in case (if gi_shown inp
               then (case draw_main S (se_config s) inp visible counts modal w (gu_commands (gs_gui (se_system s))) of
                       (v, w1, q1) \<Rightarrow> (Some v, w1, q1))
               else (None, w, gu_commands (gs_gui (se_system s)))) of
           (main, w1, q1) \<Rightarrow>
             (case (if modal then (None, w1) else draw_toast S (gi_toast inp) w1) of
                (toast, w2) \<Rightarrow>
                  (case draw_dialog V inp w2 (s\<lparr>se_system := (se_system s)\<lparr>gs_gui := with_commands q1 (gs_gui (se_system s))\<rparr>\<rparr>) of
                     (details, s1) \<Rightarrow> (\<lparr>fv_main = main, fv_toast = toast, fv_details = details\<rparr>, s1))))"

definition gui_frame :: "sdl_env \<Rightarrow> save_env \<Rightarrow> gui_input \<Rightarrow> session \<Rightarrow> frame_view \<times> session" where
  "gui_frame S V inp s =
     (case begin_frame (gi_start inp) (gu_events (gs_gui (se_system s))) (se_window s) of
        (q, w) \<Rightarrow>
          (case draw_window S V inp w (s\<lparr>se_system := (se_system s)\<lparr>gs_gui := (gs_gui (se_system s))\<lparr>gu_events := q\<rparr>\<rparr>\<rparr>) of
             (view, s1) \<Rightarrow> (view, s1\<lparr>se_system := (se_system s1)\<lparr>gs_ui := wn_ui (se_window s1)\<rparr>\<rparr>)))"

text \<open>The initial \<open>UiState\<close>, zero but for the fields \<open>run_gui\<close> sets; \<open>rows\<close> is the model's table.\<close>

definition initial_window :: "config_state \<Rightarrow> gui_row list \<Rightarrow> window" where
  "initial_window c rows =
     \<lparr>wn_ui = \<lparr>ui_connected = True, ui_selected_id = 0, ui_tab = TAB_ALL, ui_category = CATEGORY_ALL, ui_search = [],
        ui_details = zero_details, ui_details_found = False,
        ui_toast = \<lparr>le_id = 0, le_url = [], le_dest_path = [], le_status = [], le_progress = 0\<rparr>,
        ui_toast_open = False, ui_error = [], ui_rows = rows\<rparr>,
      wn_add_open = False, wn_settings_open = False, wn_details_open = False, wn_advanced = False,
      wn_menu_just_opened = False, wn_menu_id = 0, wn_settings_message = [], wn_url = [],
      wn_folder = strncpy_buf GUI_FOLDER_CAP (g_default_dir c), wn_cookie = [], wn_referrer = [],
      wn_headers = [], wn_sha256 = [], wn_speed_limit = 0, wn_directory = [], wn_concurrent = 0, wn_attempts = 0, wn_base_delay = 0,
      wn_max_delay = 0, wn_global_speed = 0, wn_numbers = [[], [], [], [], [], ''0''], wn_disk = None, wn_disk_checked_at = 0xFFFFFFFF\<rparr>"

text \<open>Frames interleaved with the controller thread, the listener thread and other programs on the disk.\<close>

inductive session_step :: "sdl_env \<Rightarrow> save_env \<Rightarrow> gui_env \<Rightarrow> session \<Rightarrow> session \<Rightarrow> bool" for S V G where
  frame: "length (gi_numbers inp) = 5 \<Longrightarrow> gui_frame S V inp s = (view, s') \<Longrightarrow> session_step S V G s s'"
| listener: "session_step S V G s (s\<lparr>se_system := (se_system s)\<lparr>gs_gui := (gs_gui (se_system s))\<lparr>gu_client := listener_step G (gu_client (gs_gui (se_system s)))\<rparr>\<rparr>\<rparr>)"
| client_event: "session_step S V G s (s\<lparr>se_system := (se_system s)\<lparr>gs_gui := poll_client_event (gs_gui (se_system s))\<rparr>\<rparr>)"
| snapshot: "gs_current (se_system s) = None \<Longrightarrow>
    session_step S V G s (s\<lparr>se_system := (se_system s)\<lparr>gs_gui := publish_snapshot G (gs_gui (se_system s))\<rparr>\<rparr>)"
| dequeue: "gs_current (se_system s) = None \<Longrightarrow> dequeue_command (gu_commands (gs_gui (se_system s))) = (c, q) \<Longrightarrow>
    session_step S V G s (s\<lparr>se_system := (se_system s)\<lparr>gs_gui := (gs_gui (se_system s))\<lparr>gu_commands := q\<rparr>, gs_current := c\<rparr>\<rparr>)"
| process: "gs_current (se_system s) = Some c \<Longrightarrow>
    session_step S V G s (s\<lparr>se_system := (se_system s)\<lparr>gs_gui := process_command G c (gs_gui (se_system s)), gs_current := None\<rparr>\<rparr>)"
| disk: "session_step S V G s (s\<lparr>se_fs := fs'\<rparr>)"

inductive session_reachable :: "sdl_env \<Rightarrow> save_env \<Rightarrow> gui_env \<Rightarrow> session \<Rightarrow> session \<Rightarrow> bool" for S V G s where
  start: "session_reachable S V G s s"
| move: "session_reachable S V G s s1 \<Longrightarrow> session_step S V G s1 s2 \<Longrightarrow> session_reachable S V G s s2"

section \<open>Labels are cut between characters\<close>

lemma to_boundary_spec:
  "(to_boundary s n = 0 \<or> \<not> continues (s ! to_boundary s n)) \<and> (\<forall>k. to_boundary s n < k \<and> k \<le> n \<longrightarrow> continues (s ! k))"
  by (induction n) (auto simp: le_Suc_eq)

lemma shorten_spec:
  "shorten f room s len \<le> len \<and> (shorten f room s len = 0 \<or> f (take (shorten f room s len) s) \<le> room) \<and>
   (shorten f room s len \<in> {0, len} \<or> \<not> continues (s ! shorten f room s len)) \<and>
   (\<forall>k. shorten f room s len < k \<and> k \<le> len \<and> (k = len \<or> \<not> continues (s ! k)) \<longrightarrow> f (take k s) > room)"
proof (induction f room s len rule: shorten.induct)
  case (1 f room s len)
  show ?case
  proof (cases "len > 0 \<and> f (take len s) > room")
    case True
    let ?b = "to_boundary s (len - 1)"
    have eq: "shorten f room s len = shorten f room s ?b" using True by (simp add: shorten.simps [of f room s len])
    note ih = 1 [OF True] and b = to_boundary_le [of s "len - 1"] to_boundary_spec [of s "len - 1"]
    have "f (take k s) > room" if "shorten f room s len < k" "k \<le> len" "k = len \<or> \<not> continues (s ! k)" for k
    proof (cases "k \<le> ?b")
      case le: True
      then have "k \<noteq> len" using b(1) True by linarith
      then show ?thesis using ih that le unfolding eq by blast
    next
      case False
      then have "k = len \<or> continues (s ! k)" using b(2) that(2) True by (metis Suc_diff_1 le_Suc_eq not_le_imp_less)
      with that(3) True show ?thesis by blast
    qed
    moreover have "shorten f room s ?b \<in> {0, len} \<or> \<not> continues (s ! shorten f room s ?b)" using ih b(2) by auto
    ultimately show ?thesis using ih b(1) unfolding eq by auto
  next
    case False
    then show ?thesis by (auto simp: shorten.simps [of f room s len])
  qed
qed

text \<open>
  A label is the text itself when it fits, and otherwise the longest part of it that ends between two
  UTF-8 characters and leaves room for the dots, or the dots alone.
\<close>

lemma label_is_longest_fitting:
  assumes "0 \<le> font_width ''...''" and "body = strncpy_buf 2048 s"
  shows "if font_width body \<le> w then label_font font_width w s = body
    else \<exists>n \<le> length body. label_font font_width w s = take n body @ ''...'' \<and> (0 < length body \<longrightarrow> n < length body) \<and>
      (n = 0 \<or> font_width (take n body) + font_width ''...'' \<le> w \<and> \<not> continues (body ! n)) \<and>
      (\<forall>k < length body. n < k \<and> \<not> continues (body ! k) \<longrightarrow> font_width (take k body) + font_width ''...'' > w)"
proof (cases "font_width body \<le> w")
  case False
  let ?n = "shorten font_width (w - font_width ''...'') body (length body)"
  note sp = shorten_spec [of font_width "w - font_width ''...''" body "length body"]
  have wide: "font_width body > w - font_width ''...''" using False assms(1) by simp
  have "?n < length body" if "0 < length body"
    using sp wide that by (metis le_neq_implies_less linorder_not_less order_refl take_all)
  moreover have "label_font font_width w s = take ?n body @ ''...''" using False by (simp add: label_font_def assms(2) Let_def)
  moreover have "?n = 0 \<or> font_width (take ?n body) + font_width ''...'' \<le> w" using sp by (auto simp: le_diff_eq)
  moreover have "?n = 0 \<or> \<not> continues (body ! ?n)" using sp calculation(1) by auto
  moreover have "\<forall>k < length body. ?n < k \<and> \<not> continues (body ! k) \<longrightarrow> font_width (take k body) + font_width ''...'' > w"
    using sp by (auto simp: diff_less_eq)
  ultimately show ?thesis using False sp by (simp only: if_False) blast
qed (simp add: label_font_def assms(2) Let_def)

text \<open>
  The dots are copied into the buffer of 2048 bytes behind what is kept: they stay inside it when no more
  than 2044 bytes of a text fit into the room.
\<close>

lemma label_stays_in_buffer:
  assumes "0 \<le> font_width ''...''" and "\<forall>k > 2044. font_width (take k (strncpy_buf 2048 s)) + font_width ''...'' > w"
  shows "length (label_font font_width w s) < 2048"
proof (cases "font_width (strncpy_buf 2048 s) \<le> w")
  case True
  then show ?thesis by (simp add: label_font_def Let_def length_strncpy_buf)
next
  case False
  let ?s = "strncpy_buf 2048 s"
  let ?n = "shorten font_width (w - font_width ''...'') ?s (length ?s)"
  have "?n \<le> 2044"
  proof (rule ccontr)
    assume "\<not> ?n \<le> 2044"
    with assms(2) have "font_width (take ?n ?s) > w - font_width ''...''" "?n \<noteq> 0" by (auto simp: diff_less_eq)
    with shorten_spec [of font_width "w - font_width ''...''" ?s "length ?s"] show False by linarith
  qed
  then show ?thesis using False by (simp add: label_font_def Let_def)
qed

lemma to_boundary_plain: "\<not> continues (s ! n) \<Longrightarrow> to_boundary s n = n"
  by (cases n) simp_all

text \<open>Without such a bound they can reach past its end: 2047 bytes of which only the last takes space.\<close>

lemma label_can_leave_buffer:
  "\<exists>font_width w s. 0 \<le> font_width ''...'' \<and> length (label_font font_width w s) > 2048"
proof -
  let ?f = "\<lambda>s. if length s < 2047 then 0 else (2 :: rat)" and ?s = "replicate 2047 (CHR ''a'')"
  have "to_boundary ?s 2046 = 2046" by (rule to_boundary_plain) (simp add: continues_def)
  then have "shorten ?f 1 ?s 2047 = 2046" by (simp add: shorten.simps [of ?f 1 ?s 2047] shorten.simps [of ?f 1 ?s 2046])
  then have "length (label_font ?f 1 ?s) = 2049" by (simp add: label_font_def strncpy_buf_def)
  then show ?thesis by (intro exI [of _ ?f] exI [of _ 1] exI [of _ ?s]) simp
qed

section \<open>Rows and the disk\<close>

lemma row_bar_bounds: "row_bar row = Some b \<Longrightarrow> 0 < b \<and> b \<le> 150"
  by (auto simp: row_bar_def Let_def split: if_splits)

lemma file_chip_length: "length (fst (file_chip name)) \<le> 4"
  by (simp add: file_chip_def Let_def strncpy_buf_def split: option.splits)

definition disk_wf :: "(u64 \<times> u64) option \<Rightarrow> bool" where
  "disk_wf d \<longleftrightarrow> (\<forall>total_bytes free_bytes. d = Some (total_bytes, free_bytes) \<longrightarrow> 0 < total_bytes \<and> free_bytes \<le> total_bytes)"

lemma diskspace_wf: "disk_wf (diskspace_get path answer)"
proof -
  have "0 < blocks * frsize" if "frsize \<noteq> 0" "blocks \<noteq> 0" "\<not> 0xFFFFFFFFFFFFFFFF div frsize < blocks" for blocks frsize :: u64
  proof -
    have "unat (blocks * frsize) = unat blocks * unat frsize" using no_overflow [of blocks frsize] that by (simp add: not_less)
    with that(1,2) show ?thesis by (metis mult_eq_0_iff unat_eq_zero word_neq_0_conv)
  qed
  then show ?thesis by (auto simp: disk_wf_def diskspace_get_def Let_def not_less split: if_splits option.splits)
qed

lemma storage_bounds:
  assumes "disk_wf (Some disk)" and "storage_view disk = (used, bar, free_bytes)"
  shows "0 \<le> used \<and> used \<le> 1 \<and> 0 \<le> bar \<and> bar \<le> 192"
proof -
  obtain t f where d: "disk = (t, f)" by fastforce
  have "0 < unat t" "unat f \<le> unat t" using assms(1) d by (auto simp: disk_wf_def word_less_nat_alt word_le_nat_alt)
  then have q: "0 \<le> rat_of_word f / rat_of_word t" "rat_of_word f / rat_of_word t \<le> 1"
    unfolding rat_of_word_def by (simp_all only: of_nat_0_le_iff divide_nonneg_nonneg divide_le_eq_1_pos of_nat_0_less_iff of_nat_le_iff)
  have u: "used = 1 - rat_of_word f / rat_of_word t" "bar = (if 192 * used > 0 \<and> 192 * used < 2 then 2 else 192 * used)"
    using assms(2) by (auto simp: storage_view_def d Let_def)
  then show ?thesis using q by auto
qed

section \<open>The window keeps its buffers\<close>

definition window_wf :: "window \<Rightarrow> bool" where
  "window_wf w \<longleftrightarrow> ui_wf (wn_ui w) \<and> length (ui_search (wn_ui w)) < GUI_SEARCH_CAP \<and> length (wn_settings_message w) < 256 \<and>
     length (wn_url w) < 2048 \<and> length (wn_folder w) < GUI_FOLDER_CAP \<and> length (wn_cookie w) < 1024 \<and>
     length (wn_referrer w) < 2048 \<and> length (wn_headers w) < 4096 \<and> length (wn_sha256 w) < 65 \<and>
     length (wn_directory w) < GUI_FOLDER_CAP \<and> length (wn_numbers w) = 6 \<and> (\<forall>n \<in> set (wn_numbers w). length n < 16) \<and>
     disk_wf (wn_disk w)"

lemma window_wf_frame [simp]:
  "window_wf (w\<lparr>wn_add_open := b\<rparr>) = window_wf w" "window_wf (w\<lparr>wn_settings_open := b\<rparr>) = window_wf w"
  "window_wf (w\<lparr>wn_details_open := b\<rparr>) = window_wf w" "window_wf (w\<lparr>wn_advanced := b\<rparr>) = window_wf w"
  "window_wf (w\<lparr>wn_menu_just_opened := b\<rparr>) = window_wf w" "window_wf (w\<lparr>wn_menu_id := i\<rparr>) = window_wf w"
  "window_wf (w\<lparr>wn_speed_limit := v\<rparr>) = window_wf w" "window_wf (w\<lparr>wn_concurrent := v\<rparr>) = window_wf w"
  "window_wf (w\<lparr>wn_attempts := v\<rparr>) = window_wf w" "window_wf (w\<lparr>wn_base_delay := v\<rparr>) = window_wf w"
  "window_wf (w\<lparr>wn_max_delay := v\<rparr>) = window_wf w" "window_wf (w\<lparr>wn_global_speed := v\<rparr>) = window_wf w"
  "window_wf (w\<lparr>wn_disk_checked_at := t\<rparr>) = window_wf w"
  by (simp_all add: window_wf_def)

lemma ui_wf_frame [simp]:
  "ui_wf (ui\<lparr>ui_connected := b\<rparr>) = ui_wf ui" "ui_wf (ui\<lparr>ui_selected_id := i\<rparr>) = ui_wf ui" "ui_wf (ui\<lparr>ui_tab := t\<rparr>) = ui_wf ui"
  "ui_wf (ui\<lparr>ui_category := k\<rparr>) = ui_wf ui" "ui_wf (ui\<lparr>ui_search := s\<rparr>) = ui_wf ui" "ui_wf (ui\<lparr>ui_details_found := b\<rparr>) = ui_wf ui"
  "ui_wf (ui\<lparr>ui_toast_open := b\<rparr>) = ui_wf ui"
  by (simp_all add: ui_wf_def)

lemma window_wf_ui: "window_wf w \<Longrightarrow> ui_wf ui \<Longrightarrow> length (ui_search ui) < GUI_SEARCH_CAP \<Longrightarrow> window_wf (w\<lparr>wn_ui := ui\<rparr>)"
  by (simp add: window_wf_def)

lemma set_error_wf: "window_wf w \<Longrightarrow> length m < 256 \<Longrightarrow> window_wf (set_error m w)"
  by (simp add: window_wf_def set_error_def ui_wf_def)

lemma window_report_wf: "window_wf w \<Longrightarrow> window_wf (window_report ok w)"
  by (simp add: window_wf_def window_report_def report_enqueue_def ui_wf_def)

lemma open_path_uri_message: "open_path_uri path folder = Inl m \<Longrightarrow> length m < 256"
  by (auto simp: open_path_uri_def Let_def split: if_splits option.splits list.splits)

lemma window_open_path_wf: "window_wf w \<Longrightarrow> window_wf (window_open_path S path folder w)"
  by (auto simp: window_open_path_def intro!: set_error_wf dest: open_path_uri_message split: sum.splits option.splits)

lemma window_enqueue_wf: "window_wf w \<Longrightarrow> window_wf (fst (window_enqueue r w))"
  by (simp add: window_enqueue_def window_report_wf)

lemma window_enqueue_ring [simp]: "snd (window_enqueue r w) = snd r"
  by (simp add: window_enqueue_def)

lemma open_settings_wf:
  assumes "window_wf w"
  shows "window_wf (open_settings c w)"
proof -
  have "length (drop 5 (wn_numbers w)) = 1" "\<forall>n \<in> set (drop 5 (wn_numbers w)). length n < 16"
    using assms by (auto simp: window_wf_def dest: in_set_dropD)
  then show ?thesis
    using assms by (auto simp: open_settings_def window_wf_def Let_def length_strncpy_buf GUI_FOLDER_CAP_def)
qed

lemma show_details_wf: "window_wf w \<Longrightarrow> window_wf (fst (show_details i w q))"
  by (auto simp: show_details_def intro!: window_report_wf window_wf_ui split: prod.splits) (simp_all add: window_wf_def)

lemma draw_toolbar_wf: "window_wf w \<Longrightarrow> window_wf (fst (draw_toolbar c click rows w q))"
  by (auto simp: draw_toolbar_def Let_def window_enqueue_wf open_settings_wf split: tool_click.splits option.splits)

lemma menu_action_wf: "window_wf w \<Longrightarrow> window_wf (fst (snd (menu_action S click row w q)))"
  by (auto simp: menu_action_def window_enqueue_wf window_open_path_wf show_details_wf set_error_wf split: menu_click.splits option.splits)

lemma draw_menu_wf:
  assumes "window_wf w"
  shows "window_wf (fst (draw_menu S outside shown click rows w q))"
proof (cases "find_row_in rows (wn_menu_id w)")
  case (Some row)
  then show ?thesis
    using assms menu_action_wf [of "w\<lparr>wn_menu_just_opened := False\<rparr>" S click row q] by (auto simp: draw_menu_def Let_def split: prod.splits)
qed (use assms in \<open>simp add: draw_menu_def\<close>)

lemma act_on_row_wf: "window_wf w \<Longrightarrow> window_wf (act_on_row click row w)"
  by (auto simp: act_on_row_def click_row_def Let_def window_wf_def split: row_click.splits)

lemma draw_rows_wf: "window_wf w \<Longrightarrow> window_wf (snd (draw_rows mouse rows w))"
  by (induction mouse rows w rule: draw_rows.induct) (auto simp: act_on_row_wf split: prod.splits)

lemma draw_chrome_wf: "window_wf w \<Longrightarrow> window_wf (snd (draw_chrome width s click counts n w))"
  by (auto simp: draw_chrome_def Let_def window_wf_def length_strncpy_buf GUI_SEARCH_CAP_def split: chrome_click.splits)

lemma draw_toast_wf: "window_wf w \<Longrightarrow> window_wf (snd (draw_toast S click w))"
  using window_wf_ui [of w "(wn_ui w)\<lparr>ui_toast_open := False\<rparr>"]
  by (cases click) (simp_all add: draw_toast_def Let_def window_open_path_wf window_wf_def [of w])

lemma draw_details_wf: "window_wf w \<Longrightarrow> window_wf (snd (draw_details close w))"
  by (simp add: draw_details_def)

lemma clear_error_wf: "window_wf w \<Longrightarrow> window_wf (clear_error close w)"
  by (simp add: clear_error_def set_error_wf)

lemma edit_add_wf: "window_wf w \<Longrightarrow> window_wf (edit_add inp advanced w)"
  using set_update_subset_insert [of "wn_numbers w" 5 "strncpy_buf 16 (ai_number inp)"]
  by (auto simp: edit_add_def Let_def window_wf_def length_strncpy_buf GUI_FOLDER_CAP_def)

lemma submit_add_wf:
  assumes "window_wf w"
  shows "window_wf (fst (submit_add K fs w q))"
proof -
  have "\<forall>n \<in> set ((wn_numbers w)[5 := ''0'']). length n < 16"
    using assms set_update_subset_insert [of "wn_numbers w" 5 "''0''"] by (auto simp: window_wf_def)
  then have r: "window_wf (set_error [] (w\<lparr>wn_add_open := False, wn_url := [], wn_folder := [], wn_cookie := [], wn_referrer := [],
      wn_headers := [], wn_sha256 := [], wn_speed_limit := 0, wn_numbers := (wn_numbers w)[5 := ''0''], wn_advanced := False\<rparr>))"
    using assms by (intro set_error_wf) (simp_all add: window_wf_def GUI_FOLDER_CAP_def)
  show ?thesis unfolding submit_add_def using assms r by (simp add: set_error_wf split: prod.splits option.splits)
qed

lemma draw_add_wf:
  assumes "window_wf w"
  shows "window_wf (fst (draw_add K fs inp click w q))"
proof -
  define a where "a = (if click = AddAdvanced then \<not> wn_advanced w else wn_advanced w)"
  define w1 where "w1 = edit_add inp a (w\<lparr>wn_advanced := a\<rparr>)"
  have w1: "window_wf w1" unfolding w1_def by (rule edit_add_wf) (simp add: assms)
  have d: "draw_add K fs inp click w q = (case click of
      AddNone \<Rightarrow> (w1, q) | AddClose \<Rightarrow> (w1\<lparr>wn_add_open := False\<rparr>, q) | AddChoose None \<Rightarrow> (w1, q)
    | AddChoose (Some chosen) \<Rightarrow> (w1\<lparr>wn_folder := strncpy_buf GUI_FOLDER_CAP chosen\<rparr>, q)
    | AddAdvanced \<Rightarrow> (w1, q) | AddCancel \<Rightarrow> (w1\<lparr>wn_add_open := False\<rparr>, q) | AddSubmit \<Rightarrow> submit_add K fs w1 q)"
    unfolding draw_add_def Let_def a_def [symmetric] w1_def [symmetric] ..
  have "window_wf (w1\<lparr>wn_folder := strncpy_buf GUI_FOLDER_CAP chosen\<rparr>)" for chosen
    using w1 by (simp add: window_wf_def length_strncpy_buf GUI_FOLDER_CAP_def)
  then show ?thesis unfolding d using w1 submit_add_wf [OF w1] by (simp split: add_click.splits option.splits)
qed

lemma parse_settings_wf: "parse_settings w = (valid, w1) \<Longrightarrow> window_wf w \<Longrightarrow> window_wf w1"
  by (auto simp: parse_settings_def split: option.splits)

lemma settings_message_wf: "window_wf w \<Longrightarrow> length m < 256 \<Longrightarrow> window_wf (w\<lparr>wn_settings_message := m\<rparr>)"
  by (simp add: window_wf_def)

lemma reload_config_wf: "client_wf c \<Longrightarrow> gui_client_reload_config c = (ok, c1) \<Longrightarrow> client_wf c1"
  using retry_loop_wf [of c "\<lambda>_. ipc_send_reload_config" 0 2] by (simp add: gui_client_reload_config_def send_with_retry_def)

lemma save_settings_wf:
  assumes "save_settings V w c fs client = (w1, c1, fs1, client1)" and "window_wf w" and "client_wf client"
  shows "window_wf w1 \<and> client_wf client1"
proof -
  obtain valid w2 where p: "parse_settings w = (valid, w2)" by fastforce
  have w2: "window_wf w2" by (rule parse_settings_wf [OF p assms(2)])
  obtain saved c2 fs2 where s: "config_save (sv_parse V) (sv_kernel V) (sv_reached V) (settings_of w2) c fs = (saved, c2, fs2)" by (metis prod.exhaust)
  obtain applied client2 where r: "gui_client_reload_config client = (applied, client2)" by fastforce
  have "window_wf (w2\<lparr>wn_folder := strncpy_buf GUI_FOLDER_CAP (wn_directory w2), wn_disk_checked_at := 0xFFFFFFFF, wn_settings_open := False\<rparr>)"
    using w2 by (simp add: window_wf_def length_strncpy_buf GUI_FOLDER_CAP_def)
  moreover have "window_wf (w2\<lparr>wn_settings_message := ''Invalid number. Check the allowed range in each field.''\<rparr>)"
    "window_wf (w2\<lparr>wn_settings_message := ''Could not save or apply settings''\<rparr>)"
    by (rule settings_message_wf [OF w2], simp)+
  ultimately show ?thesis
    using assms(1,3) reload_config_wf [OF assms(3) r] unfolding save_settings_def p prod.case s r by (cases valid; cases saved; cases applied) auto
qed

lemma draw_settings_wf:
  assumes "draw_settings V directory numbers click w c fs client = (w1, c1, fs1, client1)" and "length numbers = 5"
    and "window_wf w" and "client_wf client"
  shows "window_wf w1 \<and> client_wf client1"
proof -
  define w2 where "w2 = w\<lparr>wn_directory := strncpy_buf GUI_FOLDER_CAP directory, wn_numbers := map (strncpy_buf 16) (take 5 numbers) @ drop 5 (wn_numbers w)\<rparr>"
  have "length (drop 5 (wn_numbers w)) = 1" "\<forall>n \<in> set (drop 5 (wn_numbers w)). length n < 16"
    using assms(3) by (auto simp: window_wf_def dest: in_set_dropD)
  then have w2: "window_wf w2"
    using assms(2,3) by (auto simp: w2_def window_wf_def length_strncpy_buf GUI_FOLDER_CAP_def)
  have "window_wf (w2\<lparr>wn_directory := strncpy_buf GUI_FOLDER_CAP chosen\<rparr>)" for chosen
    using w2 by (simp add: window_wf_def length_strncpy_buf GUI_FOLDER_CAP_def)
  then show ?thesis
    using assms(1,4) w2 save_settings_wf [OF _ w2 assms(4)] unfolding draw_settings_def Let_def w2_def [symmetric]
    by (auto split: settings_click.splits option.splits)
qed

lemma consume_event_search [simp]: "ui_search (consume_event e ui) = ui_search ui"
proof -
  have m: "ui_search (maybe_complete r s u) = ui_search u" for r s u by (simp add: maybe_complete_def split: option.splits)
  have "ui_search (fold (\<lambda>r. maybe_complete (f r) (g r)) rs u) = ui_search u" for f g and rs :: "list_entry list" and u
    by (induction rs arbitrary: u) (simp_all add: m)
  then show ?thesis by (cases e) (simp_all add: consume_event_def Let_def m)
qed

lemma consume_events_search: "ui_search (snd (consume_events q ui)) = ui_search ui"
  by (induction q ui rule: consume_events.induct) (subst consume_events.simps, simp split: prod.splits option.splits)

lemma begin_frame_wf:
  assumes "begin_frame inp q w = (q1, w1)" and "slots_ok event_wf GUI_CONTROLLER_EVENT_CAP q" and "window_wf w"
  shows "slots_ok event_wf GUI_CONTROLLER_EVENT_CAP q1 \<and> window_wf w1"
proof -
  obtain q2 ui where c: "consume_events q (wn_ui w) = (q2, ui)" by fastforce
  have "slots_ok event_wf GUI_CONTROLLER_EVENT_CAP q2" "ui_wf ui" "ui_search ui = ui_search (wn_ui w)"
    using consume_events_wf [OF assms(2), of "wn_ui w"] consume_events_search [of q "wn_ui w"] assms(3) c by (simp_all add: window_wf_def)
  then have "window_wf (w\<lparr>wn_ui := drop_selection ui\<rparr>)"
    using assms(3) by (intro window_wf_ui) (simp_all add: drop_selection_def window_wf_def)
  then have "window_wf (check_disk now dir answer (w\<lparr>wn_ui := drop_selection ui\<rparr>))" for now dir answer
    using diskspace_wf by (simp add: check_disk_def window_wf_def)
  then show ?thesis using assms(1) c \<open>slots_ok event_wf GUI_CONTROLLER_EVENT_CAP q2\<close> by (auto simp: begin_frame_def close_modal_def)
qed

section \<open>What a frame puts into the queue\<close>

text \<open>At most \<open>n\<close> commands were appended, each of them justified.\<close>

definition extends :: "(gui_command \<Rightarrow> bool) \<Rightarrow> nat \<Rightarrow> gui_command ring \<Rightarrow> gui_command ring \<Rightarrow> bool" where
  "extends J n q q' \<longleftrightarrow> slots_ok command_wf GUI_CONTROLLER_COMMAND_CAP q' \<and>
     (\<exists>cs. queued q' = queued q @ cs \<and> length cs \<le> n \<and> (\<forall>c \<in> set cs. J c))"

lemma extends_same: "slots_ok command_wf GUI_CONTROLLER_COMMAND_CAP q \<Longrightarrow> extends J n q q"
  by (auto simp: extends_def)

lemma extends_trans:
  assumes "extends J n q q1" and "extends J m q1 q2"
  shows "extends J (n + m) q q2"
proof -
  obtain xs ys where "queued q1 = queued q @ xs" "length xs \<le> n" "\<forall>c \<in> set xs. J c"
      "queued q2 = queued q1 @ ys" "length ys \<le> m" "\<forall>c \<in> set ys. J c"
    using assms unfolding extends_def by blast
  then have "queued q2 = queued q @ (xs @ ys) \<and> length (xs @ ys) \<le> n + m \<and> (\<forall>c \<in> set (xs @ ys). J c)" by auto
  then show ?thesis using assms(2) unfolding extends_def by blast
qed

lemma extends_weaken: "extends J n q q' \<Longrightarrow> (\<And>c. J c \<Longrightarrow> J' c) \<Longrightarrow> n \<le> m \<Longrightarrow> extends J' m q q'"
  unfolding extends_def by (meson order_trans)

text \<open>A ring that is unchanged or was handed one well-formed command.\<close>

definition touched :: "gui_command ring \<Rightarrow> gui_command ring \<Rightarrow> bool" where
  "touched q q' \<longleftrightarrow> q' = q \<or> (\<exists>c. command_wf c \<and> q' = snd (enqueue_command c q))"

lemma touched_wf: "touched q q' \<Longrightarrow> slots_ok command_wf GUI_CONTROLLER_COMMAND_CAP q \<Longrightarrow> slots_ok command_wf GUI_CONTROLLER_COMMAND_CAP q'"
  by (auto simp: touched_def enqueue_command_wf)

lemma touched_same [simp]: "touched q q"
  by (simp add: touched_def)

lemma touched_enqueue [simp]:
  "touched q (snd (enqueue_command (zero_command t i) q))" "touched q (snd (enqueue_command (add_command u d opts) q))"
  unfolding touched_def using zero_command_wf add_command_wf by blast+

lemma touched_menu: "touched q (snd (snd (menu_action S click row w q)))"
  by (auto simp: menu_action_def enqueue_defs show_details_def gui_controller_enqueue_details_def
      split: menu_click.splits option.splits prod.splits) (metis snd_conv touched_enqueue(1))+

lemma touched_draw_menu: "touched q (snd (draw_menu S outside shown click rows w q))"
proof (cases "find_row_in rows (wn_menu_id w)")
  case (Some row)
  then show ?thesis using touched_menu [of q S click row "w\<lparr>wn_menu_just_opened := False\<rparr>"] by (auto simp: draw_menu_def Let_def split: prod.splits)
qed (simp add: draw_menu_def)

lemma touched_toolbar: "touched q (snd (draw_toolbar c click rows w q))"
  by (auto simp: draw_toolbar_def Let_def enqueue_defs split: tool_click.splits option.splits)

lemma touched_submit: "touched q (snd (submit_add K fs w q))"
  by (auto simp: submit_add_def add_download_def gui_controller_enqueue_add_def Let_def split: option.splits prod.splits)
     (metis snd_conv touched_enqueue(2))+

definition fits_some :: "gui_row list \<Rightarrow> gui_command \<Rightarrow> bool" where
  "fits_some rows c \<longleftrightarrow> (\<exists>row \<in> set rows. fits row c)"

lemma one_fitting_extends:
  assumes "one_fitting rows i q r" and "touched q (snd r)" and "slots_ok command_wf GUI_CONTROLLER_COMMAND_CAP q"
  shows "extends (fits_some rows) 1 q (snd r)"
proof -
  have "\<exists>cs. queued (snd r) = queued q @ cs \<and> length cs \<le> 1 \<and> (\<forall>c \<in> set cs. fits_some rows c)"
  proof (cases "queued (snd r) = queued q")
    case False
    then obtain row c where "find_row_in rows i = Some row" "fits row c" "queued (snd r) = queued q @ [c]"
      using assms(1) by (auto simp: one_fitting_def split: prod.splits)
    moreover from this(1) have "row \<in> set rows" by (auto simp: find_row_in_def find_Some_iff)
    ultimately show ?thesis by (intro exI [of _ "[c]"]) (auto simp: fits_some_def)
  qed simp
  then show ?thesis using touched_wf [OF assms(2,3)] by (simp add: extends_def)
qed

lemma slots_ring: "slots_ok P cap q \<Longrightarrow> ring_wf cap q"
  by (simp add: slots_ok_def)

lemma main_extends:
  assumes "draw_main S c inp visible counts modal w q = (v, w1, q1)" and "slots_ok command_wf GUI_CONTROLLER_COMMAND_CAP q"
  shows "extends (fits_some visible) 2 q q1"
proof -
  obtain cv w2 rvs w3 w4 q2 where d: "draw_chrome (gi_width inp) (gi_search inp) (gi_chrome inp) counts (length visible) w = (cv, w2)"
      "draw_rows (gi_mouse inp) visible w2 = (rvs, w3)" "draw_toolbar c (gi_tool inp) visible w3 q = (w4, q2)" by (metis prod.exhaust)
  have t: "extends (fits_some visible) 1 q q2"
    using one_fitting_extends [OF conjunct2 [OF buttons_respect_the_status [OF slots_ring [OF assms(2)]]] touched_toolbar assms(2)] d(3) by (metis snd_conv)
  then have q2: "slots_ok command_wf GUI_CONTROLLER_COMMAND_CAP q2" by (simp add: extends_def)
  have "extends (fits_some visible) 1 q2 q1"
    using assms(1) d extends_same [OF q2]
      one_fitting_extends [OF conjunct1 [OF buttons_respect_the_status [OF slots_ring [OF q2]]] touched_draw_menu q2]
    by (auto simp: draw_main_def Let_def split: if_splits prod.splits) (metis snd_conv)
  from extends_trans [OF t this] show ?thesis by (simp add: numeral_2_eq_2)
qed

text \<open>The command of the add dialog: the typed URL and a path that is free.\<close>

definition added :: "save_env \<Rightarrow> gui_input \<Rightarrow> fs \<Rightarrow> gui_command \<Rightarrow> bool" where
  "added V inp fs c \<longleftrightarrow> gi_add inp = AddSubmit \<and>
     (\<exists>dest opts. \<not> path_exists (sv_kernel V) fs dest \<and> c = detach (add_command (strncpy_buf 2048 (ai_url (gi_add_fields inp))) dest opts))"

lemma draw_add_extends:
  assumes "draw_add (sv_kernel V) fs (gi_add_fields inp) (gi_add inp) w q = (w1, q1)" and "wn_add_open w"
    and "slots_ok command_wf GUI_CONTROLLER_COMMAND_CAP q"
  shows "extends (added V inp fs) 1 q q1"
proof (cases "gi_add inp = AddSubmit")
  case True
  define w2 where "w2 = edit_add (gi_add_fields inp) (wn_advanced w) (w\<lparr>wn_advanced := wn_advanced w\<rparr>)"
  have w2: "wn_add_open w2" "wn_url w2 = strncpy_buf 2048 (ai_url (gi_add_fields inp))"
    using assms(2) by (simp_all add: w2_def edit_add_def Let_def)
  have s: "submit_add (sv_kernel V) fs w2 q = (w1, q1)" using assms(1) True by (simp add: draw_add_def Let_def w2_def)
  have "slots_ok command_wf GUI_CONTROLLER_COMMAND_CAP q1"
    using touched_wf [OF touched_submit assms(3), of "sv_kernel V" fs w2] s by simp
  moreover have "\<exists>cs. queued q1 = queued q @ cs \<and> length cs \<le> 1 \<and> (\<forall>c \<in> set cs. added V inp fs c)"
    using add_dialog_all_or_nothing [OF slots_ring [OF assms(3)] s w2(1)]
  proof
    assume "\<not> wn_add_open w1 \<and> ui_error (wn_ui w1) = [] \<and>
      (\<exists>dest opts. \<not> path_exists (sv_kernel V) fs dest \<and> queued q1 = queued q @ [detach (add_command (wn_url w2) dest opts)])"
    then obtain dest opts where "\<not> path_exists (sv_kernel V) fs dest" "queued q1 = queued q @ [detach (add_command (wn_url w2) dest opts)]" by blast
    then show ?thesis using True w2(2) by (auto simp: added_def)
  qed simp
  ultimately show ?thesis by (simp add: extends_def)
next
  case False
  then have "q1 = q" using assms(1) by (auto simp: draw_add_def Let_def split: add_click.splits option.splits)
  then show ?thesis using extends_same [OF assms(3)] by simp
qed

section \<open>Sessions\<close>

definition session_wf :: "session \<Rightarrow> bool" where
  "session_wf s \<longleftrightarrow> window_wf (se_window s) \<and> gui_wf (se_system s) \<and> gs_ui (se_system s) = wn_ui (se_window s)"

text \<open>The system apart from the window's copy of the model, which a frame brings up to date at its end.\<close>

definition threads_wf :: "gui_system \<Rightarrow> bool" where
  "threads_wf x \<longleftrightarrow> report_wf (gs_gui x) \<and> slots_ok command_wf GUI_CONTROLLER_COMMAND_CAP (gu_commands (gs_gui x)) \<and>
     (\<forall>c. gs_current x = Some c \<longrightarrow> command_wf c)"

lemma gui_wf_threads: "gui_wf x \<longleftrightarrow> threads_wf x \<and> ui_wf (gs_ui x)"
  by (auto simp: gui_wf_report threads_wf_def)

lemma dialog_keeps:
  assumes "draw_dialog V inp w s = (d, s1)" and "window_wf w" and "threads_wf (se_system s)" and "length (gi_numbers inp) = 5"
  shows "window_wf (se_window s1) \<and> threads_wf (se_system s1) \<and>
    extends (added V inp (se_fs s)) 1 (gu_commands (gs_gui (se_system s))) (gu_commands (gs_gui (se_system s1)))"
proof -
  let ?q = "gu_commands (gs_gui (se_system s))"
  have q: "slots_ok command_wf GUI_CONTROLLER_COMMAND_CAP ?q" using assms(3) by (simp add: threads_wf_def)
  consider "wn_settings_open w" | "\<not> wn_settings_open w" "wn_add_open w" | "\<not> wn_settings_open w" "\<not> wn_add_open w" by blast
  then show ?thesis
  proof cases
    case 1
    obtain w1 c1 fs1 client1 where r: "draw_settings V (gi_directory inp) (gi_numbers inp) (gi_settings inp) w (se_config s) (se_fs s)
        (gu_client (gs_gui (se_system s))) = (w1, c1, fs1, client1)" by (metis prod.exhaust)
    have "client_wf (gu_client (gs_gui (se_system s)))" using assms(3) by (simp add: threads_wf_def report_wf_def)
    from draw_settings_wf [OF r assms(4,2) this] show ?thesis
      using assms(1,3) 1 r extends_same [OF q] by (auto simp: draw_dialog_def threads_wf_def report_wf_def)
  next
    case 2
    obtain w1 q1 where r: "draw_add (sv_kernel V) (se_fs s) (gi_add_fields inp) (gi_add inp) w ?q = (w1, q1)" by fastforce
    have "window_wf w1" using draw_add_wf [OF assms(2)] r by (metis fst_conv)
    moreover have e: "extends (added V inp (se_fs s)) 1 ?q q1" by (rule draw_add_extends [OF r 2(2) q])
    ultimately show ?thesis
      using assms(1,3) 2 r by (auto simp: draw_dialog_def threads_wf_def report_wf_def with_commands_def extends_def)
  next
    case 3
    then show ?thesis
      using assms(1-3) draw_details_wf [OF assms(2), of "gi_close_details inp"] extends_same [OF q]
      by (auto simp: draw_dialog_def split: if_splits prod.splits)
  qed
qed

lemma main_wf: "draw_main S c inp visible counts modal w q = (v, w1, q1) \<Longrightarrow> window_wf w \<Longrightarrow> window_wf w1"
  by (auto simp: draw_main_def Let_def split: prod.splits if_splits)
     (metis clear_error_wf draw_chrome_wf draw_menu_wf draw_rows_wf draw_toolbar_wf fst_conv snd_conv)+

definition justified :: "save_env \<Rightarrow> gui_input \<Rightarrow> fs \<Rightarrow> gui_row list \<Rightarrow> gui_command \<Rightarrow> bool" where
  "justified V inp fs rows c \<longleftrightarrow> fits_some rows c \<or> added V inp fs c"

lemma with_commands_simps [simp]:
  "gu_commands (with_commands q g) = q" "gu_client (with_commands q g) = gu_client g" "gu_events (with_commands q g) = gu_events g"
  by (simp_all add: with_commands_def)

lemma threads_wf_commands:
  "threads_wf x \<Longrightarrow> slots_ok command_wf GUI_CONTROLLER_COMMAND_CAP q \<Longrightarrow> threads_wf (x\<lparr>gs_gui := with_commands q (gs_gui x)\<rparr>)"
  by (simp add: threads_wf_def report_wf_def)

lemma draw_window_keeps:
  assumes "draw_window S V inp w s = (view, s1)" and "window_wf w" and "threads_wf (se_system s)" and "length (gi_numbers inp) = 5"
  shows "window_wf (se_window s1) \<and> threads_wf (se_system s1) \<and>
    extends (justified V inp (se_fs s) (visible_rows (wn_ui w))) 3 (gu_commands (gs_gui (se_system s))) (gu_commands (gs_gui (se_system s1)))"
proof -
  let ?q = "gu_commands (gs_gui (se_system s))" and ?vis = "visible_rows (wn_ui w)"
  have q: "slots_ok command_wf GUI_CONTROLLER_COMMAND_CAP ?q" using assms(3) by (simp add: threads_wf_def)
  define m where "m = (if gi_shown inp
       then (case draw_main S (se_config s) inp ?vis (map (category_count (gui_model_snapshot_rows GUI_MODEL_MAX_ROWS (ui_rows (wn_ui w)))) all_categories)
               (modal_open w) w ?q of (v, w1, q1) \<Rightarrow> (Some v, w1, q1))
       else (None, w, ?q))"
  obtain main w1 q1 where m: "m = (main, w1, q1)" by (metis prod.exhaust)
  obtain toast w2 where t: "(if modal_open w then (None, w1) else draw_toast S (gi_toast inp) w1) = (toast, w2)" by fastforce
  let ?s = "s\<lparr>se_system := (se_system s)\<lparr>gs_gui := with_commands q1 (gs_gui (se_system s))\<rparr>\<rparr>"
  obtain details where d: "draw_dialog V inp w2 ?s = (details, s1)"
    using assms(1) unfolding draw_window_def Let_def m_def [symmetric] m prod.case t by (auto split: prod.splits)
  have e1: "extends (fits_some ?vis) 2 ?q q1" and w1: "window_wf w1"
    using m main_extends [OF _ q] main_wf [OF _ assms(2)] assms(2) extends_same [OF q] unfolding m_def by (auto split: if_splits prod.splits)
  have w2: "window_wf w2" using t w1 draw_toast_wf [OF w1] by (metis snd_conv)
  have "threads_wf (se_system ?s)" using threads_wf_commands [OF assms(3)] e1 by (simp add: extends_def)
  from dialog_keeps [OF d w2 this assms(4)]
  have k: "window_wf (se_window s1)" "threads_wf (se_system s1)" "extends (added V inp (se_fs s)) 1 q1 (gu_commands (gs_gui (se_system s1)))"
    by simp_all
  have "extends (justified V inp (se_fs s) ?vis) (2 + 1) ?q (gu_commands (gs_gui (se_system s1)))"
    by (rule extends_trans [of _ _ _ q1]) (auto intro: extends_weaken [OF e1] extends_weaken [OF k(3)] simp: justified_def)
  then show ?thesis using k by simp
qed

text \<open>The rows a frame shows: those that match after its events.\<close>

definition frame_rows :: "gui_input \<Rightarrow> session \<Rightarrow> gui_row list" where
  "frame_rows inp s = visible_rows (wn_ui (snd (begin_frame (gi_start inp) (gu_events (gs_gui (se_system s))) (se_window s))))"

lemma gui_frame_keeps:
  assumes "gui_frame S V inp s = (view, s1)" and "session_wf s" and "length (gi_numbers inp) = 5"
  shows "session_wf s1 \<and>
    extends (justified V inp (se_fs s) (frame_rows inp s)) 3 (gu_commands (gs_gui (se_system s))) (gu_commands (gs_gui (se_system s1)))"
proof -
  obtain q w where b: "begin_frame (gi_start inp) (gu_events (gs_gui (se_system s))) (se_window s) = (q, w)" by fastforce
  let ?s = "s\<lparr>se_system := (se_system s)\<lparr>gs_gui := (gs_gui (se_system s))\<lparr>gu_events := q\<rparr>\<rparr>\<rparr>"
  obtain s2 where d: "draw_window S V inp w ?s = (view, s2)" and s1: "s1 = s2\<lparr>se_system := (se_system s2)\<lparr>gs_ui := wn_ui (se_window s2)\<rparr>\<rparr>"
    using assms(1) b by (auto simp: gui_frame_def split: prod.splits)
  have wf: "window_wf (se_window s)" "threads_wf (se_system s)" using assms(2) by (simp_all add: session_wf_def gui_wf_threads)
  then have "slots_ok event_wf GUI_CONTROLLER_EVENT_CAP q \<and> window_wf w"
    using begin_frame_wf [OF b] by (simp add: threads_wf_def report_wf_def)
  then have "window_wf w" "threads_wf (se_system ?s)" using wf(2) by (simp_all add: threads_wf_def report_wf_def)
  from draw_window_keeps [OF d this assms(3)] show ?thesis
    unfolding s1 by (simp add: session_wf_def gui_wf_threads threads_wf_def window_wf_def frame_rows_def b)
qed

lemma system_step_wf: "gui_step G (se_system s) x \<Longrightarrow> gs_ui x = gs_ui (se_system s) \<Longrightarrow> session_wf s \<Longrightarrow> session_wf (s\<lparr>se_system := x\<rparr>)"
  by (auto simp: session_wf_def intro: gui_step_wf)

lemmas thread_steps = gui_step.intros(4-8) [THEN system_step_wf]

lemma session_wf_fs [simp]: "session_wf (s\<lparr>se_fs := fs\<rparr>) = session_wf s"
  by (simp add: session_wf_def)

lemma session_step_wf:
  assumes "session_step S V G s s1" and "session_wf s"
  shows "session_wf s1"
  using assms
proof cases
  case (frame inp view)
  then show ?thesis using gui_frame_keeps assms(2) by blast
qed (use assms(2) in \<open>auto intro: thread_steps\<close>)

lemma session_reachable_wf: "session_reachable S V G s s1 \<Longrightarrow> session_wf s \<Longrightarrow> session_wf s1"
  by (induction rule: session_reachable.induct) (auto intro: session_step_wf)

section \<open>The start of a session\<close>

definition opened :: "config_state \<Rightarrow> fs \<Rightarrow> gui_row list \<Rightarrow> gui \<Rightarrow> session" where
  "opened c fs rows g =
     \<lparr>se_window = initial_window c rows,
      se_system = \<lparr>gs_gui = g, gs_ui = wn_ui (initial_window c rows), gs_current = None\<rparr>, se_config = c, se_fs = fs\<rparr>"

text \<open>Before the start the rings are arrays of well-formed slots, whatever their indices.\<close>

definition arrays_wf :: "gui \<Rightarrow> bool" where
  "arrays_wf g \<longleftrightarrow> client_wf (gu_client g) \<and>
     length (rg_slots (gu_events g)) = GUI_CONTROLLER_EVENT_CAP \<and> (\<forall>e \<in> set (rg_slots (gu_events g)). event_wf e) \<and>
     length (rg_slots (gu_commands g)) = GUI_CONTROLLER_COMMAND_CAP \<and> (\<forall>c \<in> set (rg_slots (gu_commands g)). command_wf c)"

lemma connect_wf: "client_wf c \<Longrightarrow> gui_client_connect V c = (ok, c1) \<Longrightarrow> client_wf c1"
  by (auto simp: gui_client_connect_def Let_def client_wf_def connect_attempt_def split: prod.splits option.splits list.splits if_splits)

lemma initial_window_wf: "rows_wf rows \<Longrightarrow> window_wf (initial_window c rows)"
  by (simp add: initial_window_def window_wf_def ui_wf_def row_wf_def disk_wf_def length_strncpy_buf GUI_FOLDER_CAP_def GUI_SEARCH_CAP_def
      IPC_MAX_URL_LEN_def IPC_MAX_PATH_LEN_def)

lemma apply_snapshot_wf: "rows_wf (gui_model_apply_snapshot rs)"
  by (auto simp: rows_wf_def apply_snapshot_eq copy_record_wf)

lemma start_gui_wf:
  assumes "start_gui G backend g = (Some rows, g1)" and "arrays_wf g"
  shows "session_wf (opened c fs rows g1)"
proof -
  obtain ok c1 records c2 where r: "gui_client_connect G (gu_client g) = (ok, c1)" "gui_client_list_all G c1 = (records, c2)" by (metis prod.exhaust)
  have "client_wf c2" using list_all_wf [OF connect_wf [OF _ r(1)] r(2)] assms(2) by (simp add: arrays_wf_def)
  moreover have "g1 = (gui_controller_init (g\<lparr>gu_client := c2\<rparr>))\<lparr>gu_running := True, gu_thread_started := True\<rparr>"
    and rows: "rows = (case records of None \<Rightarrow> gui_model_init | Some rs \<Rightarrow> gui_model_apply_snapshot rs)"
    using assms(1) r by (auto simp: start_gui_def gui_controller_start_def Let_def split: if_splits)
  ultimately have "threads_wf \<lparr>gs_gui = g1, gs_ui = wn_ui (initial_window c rows), gs_current = None\<rparr>"
    using assms(2) by (simp add: threads_wf_def report_wf_def arrays_wf_def gui_controller_init_def slots_ok_def ring_wf_def
        GUI_CONTROLLER_EVENT_CAP_def GUI_CONTROLLER_COMMAND_CAP_def)
  moreover have "rows_wf rows" using rows apply_snapshot_wf by (auto simp: gui_model_init_def rows_wf_def split: option.splits)
  ultimately show ?thesis
    using initial_window_wf [of rows c] by (simp add: session_wf_def opened_def gui_wf_threads window_wf_def [of "initial_window c rows"])
qed

section \<open>What a frame shows\<close>

definition view_ok :: "frame_view \<Rightarrow> bool" where
  "view_ok v \<longleftrightarrow> (\<forall>cv rvs. fv_main v = Some (cv, rvs) \<longrightarrow>
     (\<forall>used bar free_bytes. cv_storage cv = Some (used, bar, free_bytes) \<longrightarrow> 0 \<le> used \<and> used \<le> 1 \<and> 0 \<le> bar \<and> bar \<le> 192) \<and>
     (\<forall>r \<in> set rvs. length (fst (rv_chip r)) \<le> 4 \<and> (\<forall>b. rv_bar r = Some b \<longrightarrow> 0 < b \<and> b \<le> 150)) \<and>
     length rvs \<le> GUI_MODEL_MAX_ROWS \<and> cv_downloads cv = length rvs)"

lemma draw_rows_views: "set (fst (draw_rows mouse rows w)) \<subseteq> {view_row h i row |h i row. row \<in> set rows} \<and> length (fst (draw_rows mouse rows w)) = length rows"
  by (induction mouse rows w rule: draw_rows.induct) (auto split: prod.splits; blast)+

lemma visible_length: "length (visible_rows ui) \<le> GUI_MODEL_MAX_ROWS"
proof -
  have "length (visible_rows ui) \<le> length (gui_model_snapshot_rows GUI_MODEL_MAX_ROWS (ui_rows ui))"
    unfolding visible_rows_def by (rule length_filter_le)
  then show ?thesis by (simp add: gui_model_snapshot_rows_def split: if_splits)
qed

lemma main_view_ok:
  assumes "draw_main S c inp visible counts modal w q = ((cv, rvs), w1, q1)" and "window_wf w" and "length visible \<le> GUI_MODEL_MAX_ROWS"
  shows "view_ok \<lparr>fv_main = Some (cv, rvs), fv_toast = t, fv_details = d\<rparr>"
proof -
  obtain w2 where c: "draw_chrome (gi_width inp) (gi_search inp) (gi_chrome inp) counts (length visible) w = (cv, w2)"
    and r: "rvs = fst (draw_rows (gi_mouse inp) visible w2)"
    using assms(1) by (auto simp: draw_main_def Let_def split: prod.splits)
  have "cv_storage cv = map_option storage_view (wn_disk w)" "cv_downloads cv = length visible"
    using c by (auto simp: draw_chrome_def Let_def)
  moreover have "disk_wf (wn_disk w)" using assms(2) by (simp add: window_wf_def)
  moreover have "length (fst (rv_chip v)) \<le> 4 \<and> (\<forall>b. rv_bar v = Some b \<longrightarrow> 0 < b \<and> b \<le> 150)" if v: "v \<in> set rvs" for v
  proof -
    obtain h i row where "v = view_row h i row" using draw_rows_views [of "gi_mouse inp" visible w2] v unfolding r by blast
    then show ?thesis using file_chip_length row_bar_bounds by (simp add: view_row_def)
  qed
  ultimately show ?thesis
    using draw_rows_views [of "gi_mouse inp" visible w2] assms(3) storage_bounds unfolding view_ok_def r by auto
qed

lemma gui_frame_view_ok:
  assumes "gui_frame S V inp s = (view, s1)" and "session_wf s"
  shows "view_ok view"
proof -
  obtain q w where b: "begin_frame (gi_start inp) (gu_events (gs_gui (se_system s))) (se_window s) = (q, w)" by fastforce
  have w: "window_wf w" using begin_frame_wf [OF b] assms(2) by (simp add: session_wf_def gui_wf_threads threads_wf_def report_wf_def)
  have m: "view_ok \<lparr>fv_main = Some v, fv_toast = t, fv_details = d\<rparr>"
    if "draw_main S c inp (visible_rows (wn_ui w)) counts modal w q1 = (v, w1, q2)" for c counts modal q1 v w1 q2 t d
    using main_view_ok [OF _ w visible_length, of S c inp "wn_ui w" counts modal q1 "fst v" "snd v" w1 q2 t d] that by simp
  show ?thesis using assms(1) b
    by (auto simp: gui_frame_def draw_window_def Let_def split: prod.splits if_splits intro: m) (simp_all add: view_ok_def)
qed

text \<open>
  The details dialog waits for the selected download; when its row leaves the list before the answer
  arrives, the selection is dropped and the answer is ignored, so that the dialog goes on loading.
\<close>

lemma details_answer_is_dropped:
  assumes "ui_selected_id ui = i" and "i \<noteq> 0" and "find_row_in (visible_rows ui) i = None"
  shows "consume_event (GUI_CONTROLLER_EVENT_DETAILS i found details) (drop_selection ui) = drop_selection ui"
  using assms by (simp add: drop_selection_def consume_event_def)

section \<open>Properties\<close>

text \<open>
  C11: The window stays well typed for as long as it is open. From a successful start, through every
  interleaving of frames, with whatever the user types and presses, and of the controller and listener
  threads, every text stays inside its buffer, the six number fields stay fields of 16 bytes, the rings
  keep their indices and the table at most 256 rows; and every frame drawn on the way shows a share of
  the disk between 0 and 1, bars inside their frames, and as many rows as it counts.
\<close>

theorem window_sessions_well_typed:
  assumes "start_gui G backend g = (Some rows, g1)" and "arrays_wf g" and "session_reachable S V G (opened c fs rows g1) s"
  shows "session_wf s \<and> (\<forall>inp. view_ok (fst (gui_frame S V inp s)))"
proof -
  have "session_wf s" by (rule session_reachable_wf [OF assms(3) start_gui_wf [OF assms(1,2)]])
  then show ?thesis using gui_frame_view_ok by (metis prod.collapse)
qed

text \<open>
  C12: A frame queues only what the user can see. Whatever is pressed in a frame of a running session, it
  appends at most three commands, and each of them is one that the status of a row shown in that frame
  allows (pausing what runs or waits, resuming what is paused, cancelling what is unfinished, asking for
  details, downloading again what has ended), or the submitted add dialog with the typed URL and a
  destination that does not exist.
\<close>

theorem frames_queue_what_is_shown:
  assumes "start_gui G backend g = (Some rows, g1)" and "arrays_wf g" and "session_reachable S V G (opened c fs rows g1) s"
    and "length (gi_numbers inp) = 5" and "gui_frame S V inp s = (view, s1)"
  shows "\<exists>cs. queued (gu_commands (gs_gui (se_system s1))) = queued (gu_commands (gs_gui (se_system s))) @ cs \<and> length cs \<le> 3 \<and>
    (\<forall>cmd \<in> set cs. (\<exists>row \<in> set (frame_rows inp s). fits row cmd) \<or>
       gi_add inp = AddSubmit \<and> (\<exists>dest opts. \<not> path_exists (sv_kernel V) (se_fs s) dest \<and>
         cmd = detach (add_command (strncpy_buf 2048 (ai_url (gi_add_fields inp))) dest opts)))"
  using gui_frame_keeps [OF assms(5) session_reachable_wf [OF assms(3) start_gui_wf [OF assms(1,2)]] assms(4)]
  by (simp add: extends_def justified_def fits_some_def added_def)

definition demo_gui :: gui where
  "demo_gui = (gs_gui demo_system)\<lparr>gu_client := quiet_gui_client\<lparr>gl_connects := replicate 2 (Some \<lparr>so_in = [], so_out = [], so_writes = 9\<rparr>)\<rparr>\<rparr>"

lemma demo_gui_starts: "\<exists>rows g1. start_gui demo_gui_env True demo_gui = (Some rows, g1)"
  by (auto simp: start_gui_def demo_gui_def quiet_gui_client_def gui_client_connect_def connect_attempt_def demo_gui_env_def Let_def
      gui_controller_start_def numeral_2_eq_2 split: prod.splits)

lemma demo_gui_arrays: "arrays_wf demo_gui"
  using demo_system_wf by (auto simp: arrays_wf_def demo_gui_def gui_wf_def slots_ok_def ring_wf_def demo_system_def quiet_gui_client_def client_wf_def)

theorem window_sessions_well_typed_witness:
  "\<exists>rows g1. start_gui demo_gui_env True demo_gui = (Some rows, g1) \<and> session_wf (opened demo_settings Map.empty rows g1)"
proof -
  obtain rows g1 where s: "start_gui demo_gui_env True demo_gui = (Some rows, g1)" using demo_gui_starts by blast
  have "session_wf (opened demo_settings Map.empty rows g1)"
    using window_sessions_well_typed [OF s demo_gui_arrays session_reachable.start] by blast
  with s show ?thesis by blast
qed

definition demo_input :: gui_input where
  "demo_input = \<lparr>gi_start = \<lparr>fs_now = 0, fs_dir = ''/'', fs_statvfs = None, fs_dismiss = False\<rparr>, gi_shown = True, gi_width = 800, gi_search = [],
     gi_chrome = ChromeNone, gi_mouse = [], gi_tool = ToolPause, gi_close_error = False, gi_menu_outside = False, gi_menu_shown = False,
     gi_menu = MenuNone, gi_toast = ToastNone, gi_directory = [], gi_numbers = replicate 5 [], gi_settings = SettingsNone,
     gi_add_fields = \<lparr>ai_url = [], ai_folder = [], ai_cookie = [], ai_referrer = [], ai_headers = [], ai_sha256 = [], ai_number = []\<rparr>,
     gi_add = AddNone, gi_close_details = False\<rparr>"

theorem frames_queue_what_is_shown_witness:
  "\<exists>rows g1 view s1. start_gui demo_gui_env True demo_gui = (Some rows, g1) \<and>
     gui_frame \<lparr>sd_open = (\<lambda>_. None), sd_clipboard = (\<lambda>_. None)\<rparr> demo_save demo_input (opened demo_settings Map.empty rows g1) = (view, s1) \<and>
     length (queued (gu_commands (gs_gui (se_system s1)))) \<le> length (queued (gu_commands (gs_gui (se_system (opened demo_settings Map.empty rows g1))))) + 3"
proof -
  let ?S = "\<lparr>sd_open = (\<lambda>_. None), sd_clipboard = (\<lambda>_. None)\<rparr> :: sdl_env"
  obtain rows g1 where s: "start_gui demo_gui_env True demo_gui = (Some rows, g1)" using demo_gui_starts by blast
  let ?s = "opened demo_settings Map.empty rows g1"
  obtain view s1 where f: "gui_frame ?S demo_save demo_input ?s = (view, s1)" by fastforce
  have "length (gi_numbers demo_input) = 5" by (simp add: demo_input_def)
  from frames_queue_what_is_shown [OF s demo_gui_arrays session_reachable.start this f]
  have "length (queued (gu_commands (gs_gui (se_system s1)))) \<le> length (queued (gu_commands (gs_gui (se_system ?s)))) + 3" by auto
  then show ?thesis using s f by blast
qed

end
