(* ===== verification/Gui_Backend.thy ===== *)
theory Gui_Backend
  imports Complex_Main Cdm_Prelude
begin

text \<open>
  \<open>src/gui/gui_backend_sdl.c\<close>: the window, the OpenGL context and the fonts. The model is what the code
  decides and the order in which it acquires and gives back resources; whether a call of SDL, OpenGL or
  Nuklear succeeds is a parameter. Running the recorded calls against the set of resources held gives
  the discipline: nothing is acquired twice or given back twice, and nothing is given back while
  something that needs it is still held.
\<close>

record backend_config =
  bc_width :: int
  bc_height :: int
  bc_title :: "string option"
  bc_font_size :: rat

datatype resource = ResSdl | ResMemory | ResWindow | ResContext | ResNuklear

datatype backend_call = Acquire resource | Release resource | SetDriver string

record backend_env =
  be_init :: bool                       \<comment> \<open>the first \<open>SDL_Init\<close>\<close>
  be_retry :: bool                      \<comment> \<open>\<open>SDL_Init\<close> with the X11 driver\<close>
  be_driver :: "string option"          \<comment> \<open>\<open>SDL_VIDEODRIVER\<close>\<close>
  be_display :: "string option"         \<comment> \<open>\<open>DISPLAY\<close>\<close>
  be_alloc :: bool
  be_window :: bool
  be_context :: bool
  be_nuklear :: bool
  be_fonts :: "(bool \<times> bool) list"      \<comment> \<open>regular and bold, for the sizes 11 to 16\<close>
  be_baked :: "(bool \<times> bool) list"

record backend =
  bk_title :: string
  bk_width :: int
  bk_height :: int
  bk_context :: bool
  bk_window :: bool
  bk_active :: nat                      \<comment> \<open>index of the font in use\<close>

text \<open>\<open>SDL_Init\<close>, with the second attempt on X11; the calls made, and whether SDL runs.\<close>

definition sdl_start :: "backend_env \<Rightarrow> bool \<times> backend_call list" where
  "sdl_start E =
     (if be_init E then (True, [Acquire ResSdl])
      else if be_display E \<noteq> None \<and> (be_driver E = None \<or> be_driver E = Some ''wayland'')
      then (be_retry E, [Release ResSdl, SetDriver ''x11''] @ (if be_retry E then [Acquire ResSdl] else []))
      else (False, []))"

definition font_index :: "rat \<Rightarrow> nat" where
  "font_index font_size = nat ((if font_size \<ge> 11 \<and> font_size \<le> 16 then \<lfloor>font_size\<rfloor> else 13) - 11)"

definition gui_sdl_backend_destroy :: "backend option \<Rightarrow> backend_call list" where
  "gui_sdl_backend_destroy b =
     (case b of
        None \<Rightarrow> []
      | Some bk \<Rightarrow> [Release ResNuklear] @ (if bk_context bk then [Release ResContext] else []) @
          (if bk_window bk then [Release ResWindow] else []) @ [Release ResMemory, Release ResSdl])"

definition new_backend :: "backend_config \<Rightarrow> backend" where
  "new_backend config =
     \<lparr>bk_title = (case bc_title config of Some t \<Rightarrow> t | None \<Rightarrow> ''Core Download Manager''),
      bk_width = (if bc_width config > 0 then bc_width config else 1100),
      bk_height = (if bc_height config > 0 then bc_height config else 720),
      bk_context = True, bk_window = True, bk_active = font_index (bc_font_size config)\<rparr>"

text \<open>The loops over the six sizes: every face has to load, and then every atlas has to be baked.\<close>

definition all_faces :: "(bool \<times> bool) list \<Rightarrow> bool" where
  "all_faces faces \<longleftrightarrow> (\<forall>i < 6. fst (faces ! i) \<and> snd (faces ! i))"

definition gui_sdl_backend_create :: "backend_env \<Rightarrow> backend_config option \<Rightarrow> backend option \<times> backend_call list" where
  "gui_sdl_backend_create E config =
     (case config of
        None \<Rightarrow> (None, [])
      | Some cfg \<Rightarrow>
          let (started, calls) = sdl_start E; bk = new_backend cfg
          in if \<not> started then (None, calls)
             else if \<not> be_alloc E then (None, calls @ [Release ResSdl])
             else if \<not> be_window E then (None, calls @ [Acquire ResMemory, Release ResMemory, Release ResSdl])
             else if \<not> be_context E
             then (None, calls @ [Acquire ResMemory, Acquire ResWindow, Release ResWindow, Release ResMemory, Release ResSdl])
             else let calls = calls @ [Acquire ResMemory, Acquire ResWindow, Acquire ResContext]
                  in if \<not> be_nuklear E then (None, calls @ gui_sdl_backend_destroy (Some bk))
                     else let calls = calls @ [Acquire ResNuklear]
                          in if \<not> all_faces (be_fonts E) then (None, calls @ gui_sdl_backend_destroy (Some bk))
                             else if \<not> all_faces (be_baked E) then (None, calls @ gui_sdl_backend_destroy (Some bk))
                             else (Some bk, calls))"

datatype sdl_event = SDL_QUIT | SDL_OTHER nat

text \<open>The events that are handed to Nuklear, and whether the window goes on; the rest stays in SDL's queue.\<close>

fun poll_events :: "sdl_event list \<Rightarrow> bool \<times> sdl_event list \<times> sdl_event list" where
  "poll_events [] = (True, [], [])"
| "poll_events (SDL_QUIT # es) = (False, [], es)"
| "poll_events (e # es) = (case poll_events es of (alive, handled, rest) \<Rightarrow> (alive, e # handled, rest))"

definition gui_sdl_backend_poll :: "backend option \<Rightarrow> sdl_event list \<Rightarrow> bool \<times> sdl_event list \<times> sdl_event list" where
  "gui_sdl_backend_poll b events = (case b of None \<Rightarrow> (False, [], events) | Some bk \<Rightarrow> poll_events events)"

definition gui_sdl_backend_font :: "backend option \<Rightarrow> int \<Rightarrow> nat option" where
  "gui_sdl_backend_font b size_px = (if b = None \<or> size_px < 11 \<or> size_px > 16 then None else Some (nat (size_px - 11)))"

definition gui_sdl_backend_bold_font :: "backend option \<Rightarrow> int \<Rightarrow> nat option" where
  "gui_sdl_backend_bold_font b size_px = (if b = None \<or> size_px < 11 \<or> size_px > 16 then None else Some (nat (size_px - 11)))"

section \<open>The discipline\<close>

text \<open>What a resource needs while it is held.\<close>

primrec needs :: "resource \<Rightarrow> resource set" where
  "needs ResSdl = {}"
| "needs ResMemory = {}"
| "needs ResWindow = {ResSdl, ResMemory}"
| "needs ResContext = {ResWindow}"
| "needs ResNuklear = {ResWindow, ResContext}"

text \<open>One call; \<open>None\<close> is a breach. \<open>SDL_Quit\<close> may be called when SDL does not run.\<close>

fun run_call :: "backend_call \<Rightarrow> resource set \<Rightarrow> resource set option" where
  "run_call (Acquire r) held = (if r \<in> held \<or> \<not> needs r \<subseteq> held then None else Some (insert r held))"
| "run_call (Release r) held =
     (if r \<notin> held \<and> r \<noteq> ResSdl \<or> (\<exists>d \<in> held. r \<in> needs d) then None else Some (held - {r}))"
| "run_call (SetDriver d) held = Some held"

fun run_calls :: "backend_call list \<Rightarrow> resource set \<Rightarrow> resource set option" where
  "run_calls [] held = Some held"
| "run_calls (c # cs) held = (case run_call c held of None \<Rightarrow> None | Some h \<Rightarrow> run_calls cs h)"

lemma run_calls_append: "run_calls (xs @ ys) held = (case run_calls xs held of None \<Rightarrow> None | Some h \<Rightarrow> run_calls ys h)"
  by (induction xs arbitrary: held) (auto split: option.splits)

definition everything :: "resource set" where
  "everything = {ResSdl, ResMemory, ResWindow, ResContext, ResNuklear}"

definition sdl_runs :: "backend_env \<Rightarrow> bool" where
  "sdl_runs E \<longleftrightarrow> be_init E \<or> be_retry E \<and> be_display E \<noteq> None \<and> (be_driver E = None \<or> be_driver E = Some ''wayland'')"

lemma sdl_start_calls:
  "sdl_start E = (started, calls) \<Longrightarrow> started = sdl_runs E \<and> run_calls calls {} = Some (if started then {ResSdl} else {})"
  by (auto simp: sdl_start_def sdl_runs_def split: if_splits)

lemma destroy_releases: "run_calls (gui_sdl_backend_destroy (Some (new_backend cfg))) everything = Some {}"
  by (simp add: gui_sdl_backend_destroy_def new_backend_def everything_def insert_Diff_if)

lemma poll_events_spec:
  "fst (poll_events es) = (SDL_QUIT \<notin> set es) \<and> fst (snd (poll_events es)) = takeWhile (\<lambda>e. e \<noteq> SDL_QUIT) es \<and>
   snd (snd (poll_events es)) = drop 1 (dropWhile (\<lambda>e. e \<noteq> SDL_QUIT) es)"
  by (induction es rule: poll_events.induct) (simp_all add: case_prod_beta)

lemma font_index_bound: "font_index s < 6"
proof (cases "s \<ge> 11 \<and> s \<le> 16")
  case True
  then have "\<lfloor>s\<rfloor> < 17" by (simp add: floor_less_iff)
  then have "nat (\<lfloor>s\<rfloor> - 11) < 6" by linarith
  then show ?thesis using True by (simp add: font_index_def)
qed (auto simp: font_index_def)

text \<open>
  C35: The window backend takes and gives back in order. Whatever fails on the way, a backend that is not
  created leaves nothing behind, and one that is created holds exactly SDL, its memory, the window, the
  context and Nuklear, all of which its destruction gives back; nothing is taken or released twice, or
  released while something still needs it. It is created exactly when every step succeeds, with X11 as
  the second attempt of SDL, and then has a window of positive size and one of its six fonts. That the
  initialisation of Nuklear succeeds is assumed, as it does in the bundled version.
\<close>

theorem backend_returns_what_it_takes:
  assumes "be_nuklear E" and "gui_sdl_backend_create E config = (b, calls)"
  shows "(b = None \<longrightarrow> run_calls calls {} = Some {}) \<and>
    (\<forall>bk. b = Some bk \<longrightarrow> run_calls calls {} = Some everything \<and> run_calls (calls @ gui_sdl_backend_destroy b) {} = Some {} \<and>
       bk_active bk < 6 \<and> 0 < bk_width bk \<and> 0 < bk_height bk) \<and>
    (b \<noteq> None \<longleftrightarrow> config \<noteq> None \<and> sdl_runs E \<and> be_alloc E \<and> be_window E \<and> be_context E \<and> all_faces (be_fonts E) \<and> all_faces (be_baked E))"
proof (cases config)
  case None
  then show ?thesis using assms(2) by (simp add: gui_sdl_backend_create_def)
next
  case (Some cfg)
  obtain started cs where s: "sdl_start E = (started, cs)" by fastforce
  note st = sdl_start_calls [OF s]
  have step: "run_calls (cs @ ys) {} = run_calls ys {ResSdl}" if "started" for ys
    using st that by (simp add: run_calls_append)
  have up: "run_calls [Acquire ResMemory, Acquire ResWindow, Acquire ResContext, Acquire ResNuklear] {ResSdl} = Some everything"
    by (auto simp: everything_def)
  have all: "run_calls (cs @ [Acquire ResMemory, Acquire ResWindow, Acquire ResContext, Acquire ResNuklear]) {} = Some everything"
    and undo: "run_calls (cs @ [Acquire ResMemory, Acquire ResWindow, Acquire ResContext, Acquire ResNuklear] @ gui_sdl_backend_destroy (Some (new_backend cfg))) {} = Some {}"
    if "started"
    using step [OF that] up destroy_releases [of cfg] run_calls_append
      [of "[Acquire ResMemory, Acquire ResWindow, Acquire ResContext, Acquire ResNuklear]" "gui_sdl_backend_destroy (Some (new_backend cfg))" "{ResSdl}"]
    by simp_all
  have new: "bk_active (new_backend cfg) < 6" "0 < bk_width (new_backend cfg)" "0 < bk_height (new_backend cfg)"
    using font_index_bound by (simp_all add: new_backend_def)
  show ?thesis
    using assms st step all undo new Some s by (auto simp: gui_sdl_backend_create_def Let_def split: if_splits)
qed

theorem backend_returns_what_it_takes_witness:
  "\<exists>calls. gui_sdl_backend_create \<lparr>be_init = False, be_retry = True, be_driver = None, be_display = Some '':0'', be_alloc = True, be_window = True,
     be_context = False, be_nuklear = True, be_fonts = [], be_baked = []\<rparr> (Some \<lparr>bc_width = 480, bc_height = 370, bc_title = None, bc_font_size = 13\<rparr>) = (None, calls) \<and>
     length calls = 8 \<and> run_calls calls {} = Some {}"
proof -
  let ?E = "\<lparr>be_init = False, be_retry = True, be_driver = None, be_display = Some '':0'', be_alloc = True, be_window = True,
     be_context = False, be_nuklear = True, be_fonts = [], be_baked = []\<rparr> :: backend_env"
  let ?c = "Some \<lparr>bc_width = 480, bc_height = 370, bc_title = None, bc_font_size = 13\<rparr>"
  obtain calls where c: "gui_sdl_backend_create ?E ?c = (None, calls)" "length calls = 8"
    by (simp add: gui_sdl_backend_create_def sdl_start_def)
  then show ?thesis using backend_returns_what_it_takes [OF _ c(1)] by simp
qed

text \<open>Were the initialisation of Nuklear to fail, its shutdown would run on what was never set up.\<close>

lemma failed_nuklear_is_shut_down:
  assumes "\<not> be_nuklear E" and "sdl_runs E" and "be_alloc E" and "be_window E" and "be_context E"
  shows "run_calls (snd (gui_sdl_backend_create E (Some cfg))) {} = None"
proof -
  obtain started cs where s: "sdl_start E = (started, cs)" by fastforce
  with assms(2) sdl_start_calls [OF s] have "started" "run_calls cs {} = Some {ResSdl}" by simp_all
  then show ?thesis
    using assms s by (simp add: gui_sdl_backend_create_def Let_def run_calls_append gui_sdl_backend_destroy_def)
qed

end
