(* ===== verification/Platform_Services.thy ===== *)
theory Platform_Services
  imports Cdm_Prelude
begin

text \<open>
  The POSIX half of \<open>src/platform/thread.c\<close> and the Linux half of \<open>src/utils/notify.c\<close>. A thread starts from
  a block that its creator allocates and that either the creator or the thread frees; its result travels
  through a pointer. The outcomes of \<open>malloc\<close>, of the pthread calls and of libnotify are parameters.
\<close>

section \<open>Threads\<close>

type_synonym i32 = "32 word"

datatype block_event = BlockTaken | BlockFreed

text \<open>What is done with the start block, and the return value; \<open>malloc\<close> and \<open>pthread_create\<close> (0 is success).\<close>

definition dm_thread_create :: "bool \<Rightarrow> int \<Rightarrow> int \<times> block_event list" where
  "dm_thread_create allocated rc =
     (if \<not> allocated then (-1, [])
      else (if rc = 0 then 0 else -1, BlockTaken # (if rc \<noteq> 0 then [BlockFreed] else [])))"

text \<open>\<open>dm_thread_entry\<close>: the function runs, the block is freed, and the \<open>int\<close> goes through \<open>intptr_t\<close> into the pointer.\<close>

definition dm_thread_entry :: "('a \<Rightarrow> i32) \<Rightarrow> 'a \<Rightarrow> u64 \<times> block_event list" where
  "dm_thread_entry fn arg = (signed_take_bit 31 (ucast (fn arg)), [BlockFreed])"

text \<open>The pointer that \<open>pthread_join\<close> delivers; \<open>None\<close> when it fails and \<open>ret\<close> stays \<open>NULL\<close>.\<close>

definition dm_thread_join :: "u64 option \<Rightarrow> int \<times> i32" where
  "dm_thread_join joined = (case joined of Some ret \<Rightarrow> (0, ucast ret) | None \<Rightarrow> (-1, 0))"

definition dm_thread_sleep_ms :: "u32 \<Rightarrow> nat \<times> nat" where
  "dm_thread_sleep_ms ms = (unat (ms div 1000), unat (ms mod 1000) * 1000000)"

definition dm_thread_detach :: "int \<Rightarrow> int" where
  "dm_thread_detach rc = (if rc = 0 then 0 else -1)"

definition dm_mutex_init :: "int \<Rightarrow> int" where
  "dm_mutex_init rc = (if rc = 0 then 0 else -1)"

definition dm_mutex_lock :: "int \<Rightarrow> int" where
  "dm_mutex_lock rc = (if rc = 0 then 0 else -1)"

definition dm_mutex_unlock :: "int \<Rightarrow> int" where
  "dm_mutex_unlock rc = (if rc = 0 then 0 else -1)"

lemma thread_result_arrives: "dm_thread_join (Some (fst (dm_thread_entry fn arg))) = (0, fn arg)"
proof -
  have "(ucast (signed_take_bit 31 (ucast (fn arg) :: u64)) :: i32) = fn arg"
  proof (rule bit_word_eqI)
    fix n :: nat
    assume "n < LENGTH(32)"
    then have "min n 31 = n" by (simp add: min_def)
    then show "bit (ucast (signed_take_bit 31 (ucast (fn arg) :: u64)) :: i32) n = bit (fn arg) n"
      using \<open>n < LENGTH(32)\<close> by (simp add: bit_ucast_iff bit_signed_take_bit_iff)
  qed
  then show ?thesis by (simp add: dm_thread_join_def dm_thread_entry_def)
qed

text \<open>The start block is freed exactly once, whether the thread runs or could not be started.\<close>

lemma start_block_is_freed_once:
  assumes "dm_thread_create allocated rc = (r, created)"
  shows "(let all = created @ (if r = 0 then snd (dm_thread_entry fn arg) else [])
    in all = (if allocated then [BlockTaken, BlockFreed] else [])) \<and> (r = 0 \<longleftrightarrow> allocated \<and> rc = 0)"
  using assms by (auto simp: dm_thread_create_def dm_thread_entry_def Let_def split: if_splits)

lemma sleep_is_exact:
  assumes "dm_thread_sleep_ms ms = (secs, nsecs)"
  shows "nsecs < 10 ^ 9 \<and> secs * 1000 + nsecs div 10 ^ 6 = unat ms"
proof -
  have s: "secs = unat ms div 1000" "nsecs = unat ms mod 1000 * 1000000"
    using assms by (auto simp: dm_thread_sleep_ms_def unat_div unat_mod)
  then show ?thesis by simp
qed

section \<open>Notifications\<close>

datatype urgency = DM_NOTIFY_INFO | DM_NOTIFY_ERROR

text \<open>The flag \<open>g_notify_ready\<close> and whether libnotify is initialised.\<close>

record notify_state =
  g_notify_ready :: bool
  nt_initted :: bool

record notify_env =
  ne_init :: bool
  ne_new :: bool
  ne_show :: bool

definition dm_notify_init :: "notify_env \<Rightarrow> notify_state \<Rightarrow> notify_state" where
  "dm_notify_init E st =
     (if nt_initted st then st\<lparr>g_notify_ready := True\<rparr>
      else st\<lparr>g_notify_ready := ne_init E, nt_initted := ne_init E\<rparr>)"

definition dm_notify_shutdown :: "notify_state \<Rightarrow> notify_state" where
  "dm_notify_shutdown st =
     st\<lparr>g_notify_ready := False, nt_initted := (if g_notify_ready st \<and> nt_initted st then False else nt_initted st)\<rparr>"

text \<open>The notification that is shown: title, body, and whether it is critical.\<close>

definition dm_notify_send :: "notify_env \<Rightarrow> string \<Rightarrow> string \<Rightarrow> urgency \<Rightarrow> notify_state \<Rightarrow> (string \<times> string \<times> bool) option" where
  "dm_notify_send E title body urgency st =
     (if \<not> g_notify_ready st then None
      else if \<not> ne_new E then None
      else if \<not> ne_show E then None
      else Some (title, body, urgency = DM_NOTIFY_ERROR))"

inductive notify_reachable :: "notify_state \<Rightarrow> bool" where
  zero: "notify_reachable \<lparr>g_notify_ready = False, nt_initted = False\<rparr>"
| init: "notify_reachable st \<Longrightarrow> notify_reachable (dm_notify_init E st)"
| shutdown: "notify_reachable st \<Longrightarrow> notify_reachable (dm_notify_shutdown st)"

text \<open>The flag says whether libnotify runs, so a notification is only ever made while it does.\<close>

lemma ready_iff_initted: "notify_reachable st \<Longrightarrow> g_notify_ready st \<longleftrightarrow> nt_initted st"
  by (induction rule: notify_reachable.induct) (auto simp: dm_notify_init_def dm_notify_shutdown_def)

lemma notification_needs_libnotify:
  "notify_reachable st \<Longrightarrow> dm_notify_send E title body urgency st = Some n \<Longrightarrow>
   nt_initted st \<and> n = (title, body, urgency = DM_NOTIFY_ERROR)"
  by (auto simp: dm_notify_send_def ready_iff_initted split: if_splits)

end
