(* ===== verification/Spec2Isabelle.thy ===== *)
theory Spec2Isabelle
  imports Segmenter Path_Utils Worker_Pool Finalize Curl_Client Engine_Runner Gui_Safety Cli Daemon Native_Host Browser_Install Autostart
    Spawn Logging Gui_Frame Gui_Backend Platform_Services
begin

text \<open>
  This is a verification of cdm, a download manager written in C. The sources are under
  \<open>src/src/\<close>; the paths below are relative to that directory.

  \<^bold>\<open>The program.\<close> A daemon (\<open>daemon/\<close>) owns a queue of downloads (\<open>core/queue_manager.c\<close>), a scheduler
  (\<open>core/scheduler.c\<close>) that gives each running download a worker thread, an engine
  (\<open>engine/\<close>) that plans byte ranges, fetches them in parallel, rebalances them by stealing and verifies
  the result, a SQLite store (\<open>persistence/db.c\<close>), a configuration file (\<open>utils/config.c\<close>), a bandwidth
  limiter (\<open>platform/bandwidth.c\<close>) and a server on a Unix socket (\<open>platform/ipc_socket.c\<close>). Clients talk to
  it over that socket: the command line (\<open>cli/cli.c\<close>), the window (\<open>gui/\<close>: a connection with a listener
  thread, a controller thread with two rings, a table of rows and the window logic), and the host
  of the browser extension (\<open>native_host/\<close>), which announces downloads as offers that the user confirms.

  \<^bold>\<open>The theories, in the order they import each other.\<close>

  \<^item> \<open>Cdm_Prelude\<close>: types, C strings, first-match update and deletion on lists, word arithmetic.
  \<^item> \<open>Os_Model\<close>: file system as a map from paths to inodes, system calls with injected faults.
  \<^item> \<open>Segmenter\<close>, \<open>File_Io\<close>, \<open>Path_Utils\<close>, \<open>Sha256\<close>, \<open>Bandwidth\<close>, \<open>Curl_Client\<close>, \<open>Finalize\<close>, \<open>Config\<close>: one C
    file each. They show that the plan partitions the file, that the streaming hash is the block-wise
    reference, that the granted bytes stay within the configured rate, that settings in force are sane.
  \<^item> \<open>Queue_Manager\<close>: the queue and its invariant along all operations; acceptance of destinations; the locale
    \<open>id_store\<close> of a list searched by id, interpreted for the queue here and for the rows in \<open>Db\<close>.
  \<^item> \<open>Db\<close>: each SQL statement as the table operation its text denotes; round trips of rows and chunks;
    what a restart restores.
  \<^item> \<open>Worker_Pool\<close>, \<open>Engine_Runner\<close>: slots, stealing, write callbacks, segments, resume plans and
    \<open>engine_run_download\<close>; the slots stay a partition along every interleaving of the threads.
  \<^item> \<open>Scheduler\<close>: ticks, worker verdicts, retries and shutdown as a step relation; running workers are
    exactly the active entries.
  \<^item> \<open>Ipc_Wire\<close>, \<open>Ipc_Server\<close>, \<open>Ipc_Safety\<close>: exact reads and writes, frames, every message handler, the
    poll loop, broadcasts, daemon lock and start; the tables of the server stay sound whatever clients
    send, and every message keeps the store in step with the queue.
  \<^item> \<open>Ipc_Client\<close>: the client library, and end to end correctness of requests against the handlers.
  \<^item> \<open>Daemon\<close>: start, loop and shutdown of the daemon over the shared state; one invariant for all
    interleavings of the loop, the workers and the engines, and what a crash at any point leaves.
  \<^item> \<open>Cli\<close>: the command line and \<open>main\<close>.
  \<^item> \<open>Gui_Ring\<close>: ring buffers, the locale \<open>queue_refinement\<close> (a ring answers as a bounded list does);
    \<open>Gui_Client\<close>, \<open>Gui_Controller\<close>: the GUI's threads, with the three interpretations of that locale on the
    program's rings; \<open>Gui_Model\<close>: the table of rows and the window's decisions; \<open>Gui_Safety\<close>: the step
    relation of the GUI and its state invariant; \<open>Gui_Dialogs\<close>: the dialogs, the toolbar, the context menu
    and the start of a frame, with what a saved dialog leaves in force; \<open>Gui_Frame\<close>: labels, rows, side bar,
    whole frames and sessions of frames and threads, with the invariant of the window and what a frame
    may queue; \<open>Gui_Backend\<close>: creation and destruction of the window as a discipline of resources.
  \<^item> \<open>Native_Host\<close>: the host of the browser extension; frames, exactly one answer to each message, and final
    outcomes that reach the browser.
  \<^item> \<open>Atomic_File\<close>: files replaced by a rename, with the locale \<open>atomic_writer\<close> (at each moment the old or the
    whole new file); \<open>Browser_Install\<close> and \<open>Autostart\<close> interpret it for the manifest of the extension and
    the login entry, and show that installing and switching take effect.
  \<^item> \<open>Browser_Popup\<close>: the popup of an offer, its decision and its progress stream; \<open>Spawn\<close>: the processes that are
    started and what they read from their arguments; \<open>Logging\<close>: the log file and its rotation;
    \<open>Platform_Services\<close>: threads and notifications.
  \<^item> this theory: properties that span the components, from the store to the window.

  \<^bold>\<open>Correspondence.\<close> A C struct is a record with the same fields, an enum a datatype, \<open>uint32_t\<close> and
  \<open>uint64_t\<close> are words, \<open>int\<close> is \<open>int\<close> with the wrap written out where it can overflow, \<open>char\<close> buffers are
  strings without NUL bounded by \<open>strncpy_buf\<close>. \<open>float\<close> and \<open>double\<close> are rationals, without their rounding. A function that changes state takes the state and
  returns it; a mutex makes such a function atomic, and threads are interleavings of these functions in
  step relations (\<open>Scheduler\<close>, \<open>Worker_Pool\<close>, \<open>Daemon\<close>, \<open>Gui_Safety\<close>). Errors are return codes, \<open>option\<close> or
  sums, one branch for each early return of the source.

  \<^bold>\<open>Parameters.\<close> Code that is not part of the sources enters as an argument: the outcome of each SQL
  statement (\<open>sql\<close>), system calls, allocation, the environment and \<open>realpath\<close> (\<open>kernel\<close>), the transfers
  libcurl performs, the TOML and JSON parsers and printers, random bytes, the clock, the starting of threads
  and processes,
  and the byte layout of floats and structs on the wire (\<open>abi\<close>). Hypotheses on a parameter are stated in
  the theorem that needs them.

  \<^bold>\<open>Loops and bounds.\<close> Every definition terminates. \<open>unique_loop\<close> makes at most 999,999 attempts and
  \<open>reserve_loop\<close> at most 1,000,000, as in the source; the source's endless loops (daemon, listener,
  controller) are one definition per round, and the theorems hold for every number of rounds. A round
  of the server can use up a million ids per client, so \<open>daemon_step\<close> admits a poll while that many ids
  are left below \<open>2 ^ 32\<close>. The blocking wait of the bandwidth limiter is a recursion over the ticks that
  arrive; that it ends is a theorem.

  \<^bold>\<open>Not modelled.\<close> Theme, coordinates and line icons of the windows: calls into Nuklear and OpenGL that do not
  touch the state of the program (what a widget reports in a frame is an input of the definitions);
  \<open>daemonize\<close> and the signal handlers of the daemon; Windows and macOS branches; the libraries under
  \<open>vendor/\<close>. Data races between threads that share a field without a lock are noted as findings, not
  modelled.
\<close>

section \<open>From the store to the window\<close>

text \<open>
  C7: What the user sees after a refresh is what the daemon has. One refresh of the controller
  (request, the daemon's answer over the wire, the snapshot event, the window's handling of it) ends
  with the window's rows being exactly the newest 200 stored downloads, newest first, with the live
  status and progress of those the queue holds; and the completion notice is open exactly if it was
  before or some row that was shown as unfinished is now done.
\<close>

theorem refresh_shows_the_store:
  assumes db: "db_ready (ip_db st)" "ie_sql E StCount = Runs" "ie_sql E StList = Runs"
    and es: "es = map (\<lambda>r. row_entry (ip_q st) (list_row r)) (take 200 (rev (t_downloads (ip_db st))))"
    and fits: "\<forall>e \<in> set es. entry_fits A (gv_float V) e" and alloc: "gv_alloc V (int (length es))"
    and g: "gl_cmd (gu_client g) = Some s" "1 \<le> so_writes s" "so_in s = reply_bytes A (fst (handle_list_all E fd 0 b st))"
    and ring: "ring_wf GUI_CONTROLLER_EVENT_CAP (gu_events g)" "ring_list (gu_events g) = []"
    and rows: "rows_wf (ui_rows ui)"
  shows "let ui' = snd (consume_events (gu_events (publish_snapshot V g)) ui)
    in ui_rows ui' = es \<and>
       (ui_toast_open ui' \<longleftrightarrow> ui_toast_open ui \<or>
          (\<exists>e \<in> set es. le_status e = ''DONE'' \<and>
             (\<exists>old. find_row_in (ui_rows ui) (le_id e) = Some old \<and> le_status old \<noteq> ''DONE'')))"
proof -
  have short: "length es \<le> GUI_MODEL_MAX_ROWS" "length es \<le> GUI_CONTROLLER_MAX_ROWS"
    by (simp_all add: es GUI_MODEL_MAX_ROWS_def GUI_CONTROLLER_MAX_ROWS_def)
  let ?e = "GUI_CONTROLLER_EVENT_SNAPSHOT es"
  have "gu_events (publish_snapshot V g) = snd (gui_controller_publish ?e (gu_events g))"
    using short list_reaches_the_gui [OF db es fits alloc g] by (simp add: publish_snapshot_def publish_def)
  moreover have "ring_wf GUI_CONTROLLER_EVENT_CAP (snd (gui_controller_publish ?e (gu_events g))) \<and>
      ring_list (snd (gui_controller_publish ?e (gu_events g))) = [?e]"
    using controller_events.push_refines [OF ring(1), of ?e "fst (gui_controller_publish ?e (gu_events g))"]
    by (simp add: ring(2) list_push_def GUI_CONTROLLER_EVENT_CAP_def prod_eq_iff)
  ultimately have "snd (consume_events (gu_events (publish_snapshot V g)) ui) = consume_event ?e ui"
    using consume_events_fold by simp
  moreover have "map copy_record es = es"
    using fits by (intro map_idI copy_record_id) (auto simp: entry_fits_def row_wf_def IPC_MAX_URL_LEN_def IPC_MAX_PATH_LEN_def)
  moreover have "gui_model_snapshot_rows GUI_MODEL_MAX_ROWS (ui_rows ui) = ui_rows ui"
    using rows by (simp add: gui_model_snapshot_rows_def rows_wf_def)
  ultimately show ?thesis
    using short by (simp add: consume_event_def apply_snapshot_eq fold_complete_toast)
qed

theorem refresh_shows_the_store_witness:
  "\<exists>g ui. let ui' = snd (consume_events (gu_events (publish_snapshot demo_gui_env g)) ui)
     in map le_url (ui_rows ui') = [''u''] \<and> map le_status (ui_rows ui') = [''QUEUED''] \<and> \<not> ui_toast_open ui'"
proof -
  let ?A = "\<lparr>ab_float = (\<lambda>r. put_u32 (word_of_int \<lfloor>r\<rfloor>)), ab_offer = (\<lambda>_. []), ab_progress = (\<lambda>_. [])\<rparr> :: abi"
  let ?s = "\<lparr>so_in = reply_bytes ?A (fst (handle_list_all demo_ipc_env 5 0 [] demo_ipc)), so_out = [], so_writes = 1\<rparr>"
  let ?g = "(gs_gui demo_system)\<lparr>gu_client := quiet_gui_client\<lparr>gl_cmd := Some ?s\<rparr>,
    gu_events := ring_init GUI_CONTROLLER_EVENT_CAP (GUI_CONTROLLER_EVENT_CONNECTION True)\<rparr>"
  let ?ui = "(gs_ui demo_system)\<lparr>ui_rows := [], ui_toast_open := False\<rparr>"
  let ?es = "map (\<lambda>r. row_entry (ip_q demo_ipc) (list_row r)) (take 200 (rev (t_downloads (ip_db demo_ipc))))"
  have es: "?es = [\<lparr>le_id = 1, le_url = ''u'', le_dest_path = ''/f'', le_status = ''QUEUED'', le_progress = 0\<rparr>]"
    by (simp add: demo_ipc_def list_row_def new_row_def row_entry_def queue_manager_get_runtime_snapshot_def
        zero_download_def status_to_string_def snapshot_progress_def)
  have fits: "\<forall>e \<in> set ?es. entry_fits ?A (gv_float demo_gui_env) e"
    unfolding es by (simp add: entry_fits_def float_abi_def demo_gui_env_def)
  have "let ui' = snd (consume_events (gu_events (publish_snapshot demo_gui_env ?g)) ?ui)
    in ui_rows ui' = ?es \<and> (ui_toast_open ui' \<longleftrightarrow> ui_toast_open ?ui \<or>
          (\<exists>e \<in> set ?es. le_status e = ''DONE'' \<and>
             (\<exists>old. find_row_in (ui_rows ?ui) (le_id e) = Some old \<and> le_status old \<noteq> ''DONE'')))"
    by (rule refresh_shows_the_store [where E = demo_ipc_env and st = demo_ipc and fd = 5 and b = "[]" and s = ?s and A = ?A, OF _ _ _ refl fits])
       (simp_all add: demo_ipc_env_def demo_ipc_def demo_gui_env_def GUI_CONTROLLER_EVENT_CAP_def rows_wf_def ring_init_wf)
  then show ?thesis by (intro exI [of _ ?g] exI [of _ ?ui]) (simp add: es Let_def)
qed

end
